theory Spec2Isabelle
  imports Main
begin

section \<open>Lucid 0.3.0: values, strings and the host node store\<close>

text \<open>
  The embedding follows \<^verbatim>\<open>src/publish/lucid-0.3.0.js\<close>. JavaScript values are a
  datatype, exceptions are values of \<open>error\<close>, the process-wide singleton
  \<^verbatim>\<open>Lucid.app\<close> together with the host document is the record \<open>world\<close>, and a call
  that never returns has the result \<open>None\<close>.

  Scope of the value model: numbers are integers; objects are own-property lists held
  in a heap, so that two references to one object alias; a property read that JavaScript
  would answer from a prototype, from a primitive wrapper, from a function or from a
  host node has the outcome \<open>Unmodelled\<close> instead of a made-up value.
\<close>

datatype error =
    Thrown string    \<comment> \<open>a JavaScript exception, by the name of its class\<close>
  | Unmodelled       \<comment> \<open>behaviour of the language or the host outside this model\<close>

abbreviation TypeError :: error where
  "TypeError \<equiv> Thrown ''TypeError''"

datatype jsval =
    JUndefined
  | JNull
  | JBool bool
  | JNum int
  | JStr string
  | JObj nat      \<comment> \<open>reference to a plain object of the heap\<close>
  | JFun string   \<comment> \<open>a function, by an identifier\<close>
  | JNode nat     \<comment> \<open>reference to a host node\<close>

subsection \<open>Strings\<close>

text \<open>A string is a list of UTF-16 code units; a \<open>char\<close> stands for a code unit below
  256. Text with other code units is outside the model.\<close>

fun startsWith :: "string \<Rightarrow> string \<Rightarrow> bool" where
  "startsWith s [] = True"
| "startsWith [] (p # ps) = False"
| "startsWith (c # cs) (p # ps) = (c = p \<and> startsWith cs ps)"

text \<open>\<open>find_from pat s i\<close>: \<open>s\<close> is the text from offset \<open>i\<close> on; the first offset
  at which \<open>pat\<close> occurs, or \<open>-1\<close>.\<close>

fun find_from :: "string \<Rightarrow> string \<Rightarrow> nat \<Rightarrow> int" where
  "find_from pat [] i = (if pat = [] then int i else -1)"
| "find_from pat (c # cs) i =
     (if startsWith (c # cs) pat then int i else find_from pat cs (Suc i))"

definition clamp_index :: "string \<Rightarrow> int \<Rightarrow> nat" where
  "clamp_index text i = nat (max 0 (min i (int (length text))))"

definition indexOf :: "string \<Rightarrow> string \<Rightarrow> int \<Rightarrow> int" where
  "indexOf text pat from =
     (let k = clamp_index text from in find_from pat (drop k text) k)"

text \<open>\<^verbatim>\<open>String.prototype.substring\<close>: both indices are clamped to the string and
  swapped when the first is the larger one.\<close>

definition substring :: "string \<Rightarrow> int \<Rightarrow> int \<Rightarrow> string" where
  "substring text a b =
     (let a' = clamp_index text a; b' = clamp_index text b;
          lo = min a' b'; hi = max a' b'
      in take (hi - lo) (drop lo text))"

text \<open>\<^verbatim>\<open>split(".")\<close>: never empty; the empty string gives one empty field.\<close>

fun split_on :: "char \<Rightarrow> string \<Rightarrow> string list" where
  "split_on sep [] = [[]]"
| "split_on sep (c # cs) =
     (if c = sep then [] # split_on sep cs
      else (case split_on sep cs of
              [] \<Rightarrow> [[c]]
            | f # fs \<Rightarrow> (c # f) # fs))"

text \<open>The replacement text of \<^verbatim>\<open>replace\<close> with a string pattern: \<^verbatim>\<open>$$\<close>,
  \<^verbatim>\<open>$&\<close>, the text before the match (dollar, backtick) and the text after it (dollar,
  quote) are expanded; there are no captures, so every other \<^verbatim>\<open>$\<close> stays.\<close>

fun get_substitution :: "string \<Rightarrow> string \<Rightarrow> string \<Rightarrow> string \<Rightarrow> string" where
  "get_substitution m b a [] = []"
| "get_substitution m b a [c] = [c]"
| "get_substitution m b a (c # d # r) =
     (if c = CHR ''$'' then
        (if d = CHR ''$'' then CHR ''$'' # get_substitution m b a r
         else if d = CHR ''&'' then m @ get_substitution m b a r
         else if d = CHR 0x60 then b @ get_substitution m b a r
         else if d = CHR 0x27 then a @ get_substitution m b a r
         else c # get_substitution m b a (d # r))
      else c # get_substitution m b a (d # r))"

text \<open>\<^verbatim>\<open>text.replace(pat, rep)\<close> for strings: the first occurrence only.\<close>

definition js_replace :: "string \<Rightarrow> string \<Rightarrow> string \<Rightarrow> string" where
  "js_replace text pat rep =
     (let i = indexOf text pat 0 in
      if i < 0 then text
      else (let pre = take (nat i) text;
                post = drop (nat i + length pat) text
            in pre @ get_substitution pat pre post rep @ post))"

text \<open>The white space and line terminators of \<^verbatim>\<open>String.prototype.trim\<close> among the
  code units below 256: tab, line feed, vertical tab, form feed, carriage return, space
  and no-break space.\<close>

definition is_space :: "char \<Rightarrow> bool" where
  "is_space c =
     (c \<in> set [CHR 0x09, CHR 0x0A, CHR 0x0B, CHR 0x0C, CHR 0x0D, CHR 0x20, CHR 0xA0])"

definition trim :: "string \<Rightarrow> string" where
  "trim s = rev (dropWhile is_space (rev (dropWhile is_space s)))"

fun nat_to_string :: "nat \<Rightarrow> string" where
  "nat_to_string n =
     (if n < 10 then [''0123456789'' ! n]
      else nat_to_string (n div 10) @ [''0123456789'' ! (n mod 10)])"

declare nat_to_string.simps [simp del]

definition int_to_string :: "int \<Rightarrow> string" where
  "int_to_string i = (if i < 0 then CHR ''-'' # nat_to_string (nat (- i)) else nat_to_string (nat i))"

text \<open>A number of the model is an integer that a double holds exactly and prints in
  decimal digits: one between \<open>- 2 ^ 53\<close> and \<open>2 ^ 53\<close>. Other numbers are outside the
  model.\<close>

definition safe_integer :: "int \<Rightarrow> bool" where
  "safe_integer n \<longleftrightarrow> - 9007199254740992 \<le> n \<and> n \<le> 9007199254740992"

text \<open>The order of \<^verbatim>\<open>for ... in\<close> over the own properties of a plain object: the
  array indices first (canonical decimal strings below \<open>2 ^ 32 - 1\<close>), in ascending
  order, then the other names in insertion order.\<close>

definition digits_value :: "string \<Rightarrow> nat" where
  "digits_value s = foldl (\<lambda>a c. 10 * a + (of_char c - 48)) 0 s"

definition array_index :: "string \<Rightarrow> nat option" where
  "array_index s =
     (if s \<noteq> [] \<and> list_all (\<lambda>c. c \<in> set ''0123456789'') s \<and>
         (s = ''0'' \<or> hd s \<noteq> CHR ''0'') \<and> digits_value s < 4294967295
      then Some (digits_value s) else None)"

definition index_of_key :: "string \<times> 'a \<Rightarrow> nat" where
  "index_of_key kv = (case array_index (fst kv) of None \<Rightarrow> 0 | Some i \<Rightarrow> i)"

definition for_in :: "(string \<times> 'a) list \<Rightarrow> (string \<times> 'a) list" where
  "for_in kvs =
     sort_key index_of_key (filter (\<lambda>kv. array_index (fst kv) \<noteq> None) kvs) @
     filter (\<lambda>kv. array_index (fst kv) = None) kvs"

subsection \<open>Skeletons, host nodes, the registries\<close>

text \<open>The nodes the host's markup parser produces from a markup string: an element with
  its attributes (name, value, \<^verbatim>\<open>specified\<close>) and children, or a node that only has a
  \<^verbatim>\<open>nodeValue\<close> (text, comment). The parser itself belongs to the host.\<close>

datatype markup =
    MText string
  | MElem string "(string \<times> string \<times> bool) list" "markup list"

text \<open>A skeleton is a string or \<^verbatim>\<open>{tag, attrs, children}\<close>. \<^verbatim>\<open>attrs\<close> keeps
  insertion order; the loops over it go through \<open>for_in\<close>.\<close>

datatype skeleton =
    SText string
  | SNode string "(string \<times> jsval) list" "skeleton list"

text \<open>An event subscription made by \<^verbatim>\<open>addEventListener\<close>: the closure of
  \<^verbatim>\<open>connectComponent\<close> holds the stored attribute value and the instance.\<close>

record listener =
  l_handler :: jsval
  l_name :: jsval
  l_key :: jsval

datatype hnode =
    Element (tag: string) (attributes: "(string \<times> string) list") (childNodes: "nat list")
            (parentNode: "nat option") (listeners: "(string \<times> listener) list")
  | Text (nodeValue: string) (parentNode: "nat option")

record component =
  c_name :: string
  c_state :: jsval
  c_methods :: jsval
  c_render :: "markup list"  \<comment> \<open>the child nodes of a \<^verbatim>\<open>div\<close> whose \<^verbatim>\<open>innerHTML\<close> is \<^verbatim>\<open>render()\<close>\<close>
  c_attributes :: jsval
  c_watch :: jsval
  c_skeleton :: "skeleton option"

record entry =
  e_state :: jsval
  e_dom :: nat

record world =
  components :: "string \<rightharpoonup> component"   \<comment> \<open>\<^verbatim>\<open>Lucid.app.components\<close>\<close>
  elements :: "string \<rightharpoonup> entry"          \<comment> \<open>\<^verbatim>\<open>Lucid.app.page.elements\<close>\<close>
  nodes :: "nat \<rightharpoonup> hnode"                \<comment> \<open>the host's nodes, by identity\<close>
  next_node :: nat
  heap :: "nat \<rightharpoonup> (string \<times> jsval) list"  \<comment> \<open>plain objects, by identity\<close>

text \<open>A result: \<open>None\<close> when the call does not return, \<open>Some (Inl e)\<close> when it throws.\<close>

type_synonym 'a result = "(error + 'a) option"

abbreviation returns :: "'a \<Rightarrow> 'a result" where
  "returns x \<equiv> Some (Inr x)"

abbreviation throws :: "error \<Rightarrow> 'a result" where
  "throws e \<equiv> Some (Inl e)"

abbreviation lift :: "error + 'a \<Rightarrow> 'a result" where
  "lift r \<equiv> Some r"

fun bind :: "'a result \<Rightarrow> ('a \<Rightarrow> 'b result) \<Rightarrow> 'b result" where
  "bind None f = None"
| "bind (Some (Inl e)) f = Some (Inl e)"
| "bind (Some (Inr x)) f = f x"

subsection \<open>Property reads and conversions\<close>

definition object_prototype_names :: "string list" where
  "object_prototype_names =
     [''constructor'', ''toString'', ''toLocaleString'', ''valueOf'', ''hasOwnProperty'',
      ''isPrototypeOf'', ''propertyIsEnumerable'', ''__proto__'', ''__defineGetter__'',
      ''__defineSetter__'', ''__lookupGetter__'', ''__lookupSetter__'']"

text \<open>A property missing from a plain object is \<^verbatim>\<open>undefined\<close>, unless
  \<^verbatim>\<open>Object.prototype\<close> has it.\<close>

definition own_or_undefined :: "(string \<times> jsval) list \<Rightarrow> string \<Rightarrow> error + jsval" where
  "own_or_undefined props p =
     (case map_of props p of
        Some v \<Rightarrow> Inr v
      | None \<Rightarrow> if p \<in> set object_prototype_names then Inl Unmodelled else Inr JUndefined)"

text \<open>\<^verbatim>\<open>tempObj[p]\<close>.\<close>

fun get_prop :: "world \<Rightarrow> jsval \<Rightarrow> string \<Rightarrow> error + jsval" where
  "get_prop w JUndefined p = Inl TypeError"
| "get_prop w JNull p = Inl TypeError"
| "get_prop w (JObj a) p =
     (case heap w a of None \<Rightarrow> Inl Unmodelled | Some props \<Rightarrow> own_or_undefined props p)"
| "get_prop w v p = Inl Unmodelled"

fun get_path :: "world \<Rightarrow> jsval \<Rightarrow> string list \<Rightarrow> error + jsval" where
  "get_path w v [] = Inr v"
| "get_path w v (p # ps) =
     (case get_prop w v p of Inl e \<Rightarrow> Inl e | Inr v' \<Rightarrow> get_path w v' ps)"

text \<open>\<^verbatim>\<open>ToString\<close>, as string concatenation, \<^verbatim>\<open>setAttribute\<close> and
  \<^verbatim>\<open>replace\<close> apply it.\<close>

fun to_string :: "world \<Rightarrow> jsval \<Rightarrow> error + string" where
  "to_string w JUndefined = Inr ''undefined''"
| "to_string w JNull = Inr ''null''"
| "to_string w (JBool b) = Inr (if b then ''true'' else ''false'')"
| "to_string w (JNum n) = (if safe_integer n then Inr (int_to_string n) else Inl Unmodelled)"
| "to_string w (JStr s) = Inr s"
| "to_string w (JObj a) =
     (case heap w a of
        None \<Rightarrow> Inl Unmodelled
      | Some props \<Rightarrow>
          if map_of props ''toString'' = None \<and> map_of props ''valueOf'' = None
          then Inr ''[object Object]'' else Inl Unmodelled)"
| "to_string w v = Inl Unmodelled"

text \<open>\<^verbatim>\<open>x.toString()\<close>: a method call, so it throws on \<^verbatim>\<open>undefined\<close> and
  \<^verbatim>\<open>null\<close>.\<close>

fun toString_call :: "world \<Rightarrow> jsval \<Rightarrow> error + string" where
  "toString_call w JUndefined = Inl TypeError"
| "toString_call w JNull = Inl TypeError"
| "toString_call w v = to_string w v"

text \<open>\<^verbatim>\<open>ToNumber\<close> on the values that are not strings; \<open>None\<close> is \<^verbatim>\<open>NaN\<close>.\<close>

fun to_number :: "jsval \<Rightarrow> error + int option" where
  "to_number JUndefined = Inr None"
| "to_number JNull = Inr (Some 0)"
| "to_number (JBool b) = Inr (Some (if b then 1 else 0))"
| "to_number (JNum n) = (if safe_integer n then Inr (Some n) else Inl Unmodelled)"
| "to_number v = Inl Unmodelled"

fun is_string :: "jsval \<Rightarrow> bool" where
  "is_string (JStr s) = True"
| "is_string v = False"

text \<open>\<^verbatim>\<open>a + b\<close>, read as a property key: concatenation as soon as one side is a
  string, a sum of numbers otherwise.\<close>

definition js_plus_key :: "world \<Rightarrow> jsval \<Rightarrow> jsval \<Rightarrow> error + string" where
  "js_plus_key w a b =
     (if is_string a \<or> is_string b then
        (case to_string w a of Inl e \<Rightarrow> Inl e | Inr sa \<Rightarrow>
           (case to_string w b of Inl e \<Rightarrow> Inl e | Inr sb \<Rightarrow> Inr (sa @ sb)))
      else
        (case to_number a of Inl e \<Rightarrow> Inl e | Inr na \<Rightarrow>
           (case to_number b of Inl e \<Rightarrow> Inl e | Inr nb \<Rightarrow>
              (case (na, nb) of
                 (Some x, Some y) \<Rightarrow>
                   if safe_integer (x + y) then Inr (int_to_string (x + y)) else Inl Unmodelled
               | _ \<Rightarrow> Inr ''NaN''))))"

text \<open>The two registries are plain objects too: a key that \<^verbatim>\<open>Object.prototype\<close>
  answers is outside the model; a key that is absent reads as \<^verbatim>\<open>undefined\<close>
  (\<open>None\<close>), and every use in the source reads a property of the result at once.\<close>

definition get_component :: "world \<Rightarrow> string \<Rightarrow> error + component" where
  "get_component w n =
     (if n \<in> set object_prototype_names then Inl Unmodelled
      else case components w n of None \<Rightarrow> Inl TypeError | Some c \<Rightarrow> Inr c)"

definition get_entry :: "world \<Rightarrow> string \<Rightarrow> error + entry" where
  "get_entry w k =
     (if k \<in> set object_prototype_names then Inl Unmodelled
      else case elements w k of None \<Rightarrow> Inl TypeError | Some e \<Rightarrow> Inr e)"

subsection \<open>The interpolation engine: \<^verbatim>\<open>convertTextVariables\<close>\<close>

text \<open>The first property read on a component definition (the object literal of
  \<^verbatim>\<open>createComponent\<close>, plus \<^verbatim>\<open>skeleton\<close>). The functions and the skeleton it
  holds are not values of the model.\<close>

definition component_prop :: "component \<Rightarrow> string \<Rightarrow> error + jsval" where
  "component_prop c p =
     (if p = ''name'' then Inr (JStr (c_name c))
      else if p = ''state'' then Inr (c_state c)
      else if p = ''methods'' then Inr (c_methods c)
      else if p = ''attributes'' then Inr (c_attributes c)
      else if p = ''watch'' then Inr (c_watch c)
      else if p \<in> set [''render'', ''hooks'', ''skeleton''] then Inl Unmodelled
      else if p \<in> set object_prototype_names then Inl Unmodelled
      else Inr JUndefined)"

text \<open>The first property read on a registry entry \<^verbatim>\<open>{state, dom}\<close>.\<close>

definition entry_prop :: "entry \<Rightarrow> string \<Rightarrow> error + jsval" where
  "entry_prop e p =
     (if p = ''state'' then Inr (e_state e)
      else if p = ''dom'' then Inr (JNode (e_dom e))
      else if p \<in> set object_prototype_names then Inl Unmodelled
      else Inr JUndefined)"

text \<open>\<^verbatim>\<open>let tempObj = root; for (...) tempObj = tempObj[properties[i]]\<close>, the root being
  a component definition or a registry entry, or \<^verbatim>\<open>undefined\<close> when the registry has
  none.\<close>

definition resolve_in_component :: "world \<Rightarrow> string \<Rightarrow> string list \<Rightarrow> error + jsval" where
  "resolve_in_component w n properties =
     (case properties of
        [] \<Rightarrow> Inl Unmodelled
      | p # ps \<Rightarrow>
          (case get_component w n of
             Inl e \<Rightarrow> Inl e
           | Inr c \<Rightarrow> (case component_prop c p of Inl e \<Rightarrow> Inl e | Inr v \<Rightarrow> get_path w v ps)))"

definition resolve_in_entry :: "world \<Rightarrow> string \<Rightarrow> string list \<Rightarrow> error + jsval" where
  "resolve_in_entry w k properties =
     (case properties of
        [] \<Rightarrow> Inl Unmodelled
      | p # ps \<Rightarrow>
          (case get_entry w k of
             Inl e \<Rightarrow> Inl e
           | Inr en \<Rightarrow> (case entry_prop en p of Inl e \<Rightarrow> Inl e | Inr v \<Rightarrow> get_path w v ps)))"

text \<open>\<^verbatim>\<open>text.replace(pattern, tempObj)\<close>: a function would be called as the replacer;
  any other value is converted by \<^verbatim>\<open>ToString\<close>, match or no match.\<close>

definition replace_with :: "world \<Rightarrow> string \<Rightarrow> string \<Rightarrow> jsval \<Rightarrow> error + string" where
  "replace_with w text pat v =
     (case v of
        JFun f \<Rightarrow> Inl Unmodelled
      | _ \<Rightarrow> (case to_string w v of Inl e \<Rightarrow> Inl e | Inr rep \<Rightarrow> Inr (js_replace text pat rep)))"

text \<open>The \<^verbatim>\<open>while\<close> loop of the render-time branch (lines 432 to 447). Both indices
  are reset to 0 at the end of the body, so the text is the whole loop state. The second
  conjunct of the condition is the truthiness of \<^verbatim>\<open>endIndex\<close>.\<close>

partial_function (option) interpolate :: "world \<Rightarrow> string \<Rightarrow> string \<Rightarrow> (error + string) option" where
  "interpolate w elementKey text =
     (let startIndex = indexOf text ''{{'' 0 in
      if startIndex > -1 then
        (let endIndex = indexOf text ''}}'' (startIndex + 2) in
         if endIndex \<noteq> 0 then
           (let variable = substring text (startIndex + 2) endIndex;
                properties = split_on CHR ''.'' variable
            in case resolve_in_entry w elementKey properties of
                 Inl e \<Rightarrow> Some (Inl e)
               | Inr tempObj \<Rightarrow>
                   (case replace_with w text (''{{'' @ variable @ ''}}'') tempObj of
                      Inl e \<Rightarrow> Some (Inl e)
                    | Inr text' \<Rightarrow> interpolate w elementKey text'))
         else Some (Inr text))
      else Some (Inr text))"

declare interpolate.simps [code]

text \<open>\<^verbatim>\<open>convertTextVariables(text, componentName, componentKey)\<close>. A missing argument
  is \<open>JUndefined\<close>. \<^verbatim>\<open>text.indexOf\<close> exists on strings only.\<close>

definition convertTextVariables :: "world \<Rightarrow> jsval \<Rightarrow> jsval \<Rightarrow> jsval \<Rightarrow> jsval result" where
  "convertTextVariables w text componentName componentKey =
     (case toString_call w componentKey of
        Inl e \<Rightarrow> throws e
      | Inr componentKey' \<Rightarrow>
          if componentKey' = [] then
            (case text of
               JStr t \<Rightarrow>
                 (let startIndex = indexOf t ''{{'' 0;
                      endIndex = indexOf t ''}}'' (startIndex + 2);
                      variable = substring t (startIndex + 2) endIndex;
                      properties = split_on CHR ''.'' variable
                  in case to_string w componentName of
                       Inl e \<Rightarrow> throws e
                     | Inr n \<Rightarrow> lift (resolve_in_component w n properties))
             | JUndefined \<Rightarrow> throws TypeError
             | JNull \<Rightarrow> throws TypeError
             | JBool b \<Rightarrow> throws TypeError
             | JNum n \<Rightarrow> throws TypeError
             | _ \<Rightarrow> throws Unmodelled)
          else
            (case js_plus_key w componentName (JStr componentKey') of
               Inl e \<Rightarrow> throws e
             | Inr elementKey \<Rightarrow>
                 (case text of
                    JStr t \<Rightarrow>
                      (case interpolate w elementKey t of
                         None \<Rightarrow> None
                       | Some (Inl e) \<Rightarrow> Some (Inl e)
                       | Some (Inr t') \<Rightarrow> returns (JStr t'))
                  | JUndefined \<Rightarrow> throws TypeError
                  | JNull \<Rightarrow> throws TypeError
                  | JBool b \<Rightarrow> throws TypeError
                  | JNum n \<Rightarrow> throws TypeError
                  | _ \<Rightarrow> throws Unmodelled)))"

section \<open>The host platform's node operations\<close>

text \<open>Nodes have identity: a node is a number, the store maps it to its content. A
  reference that the store does not know stands for \<^verbatim>\<open>null\<close>. The source only ever
  appends nodes it has just created, so \<^verbatim>\<open>appendChild\<close> has no cycle to refuse.\<close>

fun put :: "(string \<times> 'a) list \<Rightarrow> string \<Rightarrow> 'a \<Rightarrow> (string \<times> 'a) list" where
  "put [] k v = [(k, v)]"
| "put ((k', v') # kvs) k v = (if k' = k then (k, v) # kvs else (k', v') # put kvs k v)"

definition createElement :: "string \<Rightarrow> world \<Rightarrow> nat \<times> world" where
  "createElement t w =
     (next_node w,
      w\<lparr>nodes := (nodes w)(next_node w \<mapsto> Element t [] [] None []),
        next_node := Suc (next_node w)\<rparr>)"

definition createTextNode :: "string \<Rightarrow> world \<Rightarrow> nat \<times> world" where
  "createTextNode v w =
     (next_node w,
      w\<lparr>nodes := (nodes w)(next_node w \<mapsto> Text v None),
        next_node := Suc (next_node w)\<rparr>)"

definition setAttribute :: "nat option \<Rightarrow> string \<Rightarrow> string \<Rightarrow> world \<Rightarrow> error + world" where
  "setAttribute dom' k v w =
     (case dom' of
        None \<Rightarrow> Inl TypeError
      | Some d \<Rightarrow>
          (case nodes w d of
             None \<Rightarrow> Inl TypeError
           | Some (Text s p) \<Rightarrow> Inl TypeError
           | Some (Element t as cs p ls) \<Rightarrow>
               Inr (w\<lparr>nodes := (nodes w)(d \<mapsto> Element t (put as k v) cs p ls)\<rparr>)))"

definition getAttribute :: "nat \<Rightarrow> string \<Rightarrow> world \<Rightarrow> string option" where
  "getAttribute d k w =
     (case nodes w d of Some (Element t as cs p ls) \<Rightarrow> map_of as k | _ \<Rightarrow> None)"

definition addEventListener :: "nat \<Rightarrow> string \<Rightarrow> listener \<Rightarrow> world \<Rightarrow> error + world" where
  "addEventListener d ev l w =
     (case nodes w d of
        Some (Element t as cs p ls) \<Rightarrow>
          Inr (w\<lparr>nodes := (nodes w)(d \<mapsto> Element t as cs p (ls @ [(ev, l)]))\<rparr>)
      | Some (Text s p) \<Rightarrow> Inl Unmodelled
      | None \<Rightarrow> Inl TypeError)"

text \<open>\<^verbatim>\<open>dom.nodeValue = v\<close>: setting it on an element does nothing.\<close>

definition set_nodeValue :: "nat option \<Rightarrow> string \<Rightarrow> world \<Rightarrow> error + world" where
  "set_nodeValue dom' v w =
     (case dom' of
        None \<Rightarrow> Inl TypeError
      | Some d \<Rightarrow>
          (case nodes w d of
             None \<Rightarrow> Inl TypeError
           | Some (Text s p) \<Rightarrow> Inr (w\<lparr>nodes := (nodes w)(d \<mapsto> Text v p)\<rparr>)
           | Some (Element t as cs p ls) \<Rightarrow> Inr w))"

text \<open>\<^verbatim>\<open>dom.childNodes\<close>, read from the live node; a text node has none.\<close>

definition child_nodes :: "nat option \<Rightarrow> world \<Rightarrow> error + nat list" where
  "child_nodes dom' w =
     (case dom' of
        None \<Rightarrow> Inl TypeError
      | Some d \<Rightarrow>
          (case nodes w d of
             None \<Rightarrow> Inl TypeError
           | Some (Text s p) \<Rightarrow> Inr []
           | Some (Element t as cs p ls) \<Rightarrow> Inr cs))"

definition firstChild :: "nat \<Rightarrow> world \<Rightarrow> error + nat option" where
  "firstChild d w =
     (case child_nodes (Some d) w of
        Inl e \<Rightarrow> Inl e
      | Inr cs \<Rightarrow> Inr (case cs of [] \<Rightarrow> None | c # _ \<Rightarrow> Some c))"

definition set_parent :: "nat option \<Rightarrow> hnode \<Rightarrow> hnode" where
  "set_parent p n =
     (case n of Element t as cs _ ls \<Rightarrow> Element t as cs p ls | Text s _ \<Rightarrow> Text s p)"

definition set_children :: "nat list \<Rightarrow> hnode \<Rightarrow> hnode" where
  "set_children cs n =
     (case n of Element t as _ p ls \<Rightarrow> Element t as cs p ls | Text s p \<Rightarrow> Text s p)"

text \<open>Take a node out of the child list of its parent, if it has one.\<close>

definition detach :: "nat \<Rightarrow> world \<Rightarrow> world" where
  "detach c w =
     (case nodes w c of
        None \<Rightarrow> w
      | Some n \<Rightarrow>
          (case parentNode n of
             None \<Rightarrow> w
           | Some p \<Rightarrow>
               (case nodes w p of
                  None \<Rightarrow> w\<lparr>nodes := (nodes w)(c \<mapsto> set_parent None n)\<rparr>
                | Some pn \<Rightarrow>
                    w\<lparr>nodes := (nodes w)(p \<mapsto> set_children (removeAll c (childNodes pn)) pn,
                                          c \<mapsto> set_parent None n)\<rparr>)))"

definition appendChild :: "nat \<Rightarrow> nat \<Rightarrow> world \<Rightarrow> error + world" where
  "appendChild dom' c w =
     (case nodes w dom' of
        None \<Rightarrow> Inl TypeError
      | Some (Text s p) \<Rightarrow> Inl (Thrown ''HierarchyRequestError'')
      | Some (Element t as cs p ls) \<Rightarrow>
          (case nodes w c of
             None \<Rightarrow> Inl TypeError
           | Some n \<Rightarrow>
               (let w1 = detach c w in
                case (nodes w1 dom', nodes w1 c) of
                  (Some dn, Some cn) \<Rightarrow>
                    Inr (w1\<lparr>nodes := (nodes w1)(dom' \<mapsto> set_children (childNodes dn @ [c]) dn,
                                                 c \<mapsto> set_parent (Some dom') cn)\<rparr>)
                | _ \<Rightarrow> Inl Unmodelled)))"

text \<open>\<^verbatim>\<open>dom.parentNode.removeChild(dom)\<close>.\<close>

definition remove_from_parent :: "nat \<Rightarrow> world \<Rightarrow> error + world" where
  "remove_from_parent d w =
     (case nodes w d of
        None \<Rightarrow> Inl TypeError
      | Some n \<Rightarrow>
          (case parentNode n of
             None \<Rightarrow> Inl TypeError
           | Some p \<Rightarrow>
               (case nodes w p of
                  None \<Rightarrow> Inl TypeError
                | Some pn \<Rightarrow>
                    if d \<in> set (childNodes pn) then Inr (detach d w)
                    else Inl (Thrown ''NotFoundError''))))"

section \<open>The skeleton builder: \<^verbatim>\<open>createSkeleton\<close>\<close>

text \<open>The loop over \<^verbatim>\<open>child.attributes\<close> (lines 352 to 361). The call of
  \<^verbatim>\<open>convertTextVariables\<close> passes two arguments: the key is \<^verbatim>\<open>undefined\<close>.\<close>

fun skeleton_attrs ::
  "world \<Rightarrow> (string \<times> string \<times> bool) list \<Rightarrow> jsval \<Rightarrow> (string \<times> jsval) list
     \<Rightarrow> (string \<times> jsval) list result" where
  "skeleton_attrs w [] componentName attrs = returns attrs"
| "skeleton_attrs w ((name, val, specified) # rest) componentName attrs =
     (if specified then
        (if startsWith name ''on'' then
           (case convertTextVariables w (JStr val) componentName JUndefined of
              None \<Rightarrow> None
            | Some (Inl e) \<Rightarrow> throws e
            | Some (Inr func) \<Rightarrow> skeleton_attrs w rest componentName (put attrs name func))
         else skeleton_attrs w rest componentName (put attrs name (JStr val)))
      else skeleton_attrs w rest componentName attrs)"

fun createSkeleton :: "world \<Rightarrow> markup \<Rightarrow> jsval \<Rightarrow> skeleton option result"
and skeleton_children :: "world \<Rightarrow> markup list \<Rightarrow> jsval \<Rightarrow> skeleton list result" where
  "createSkeleton w (MText v) componentName =
     (let nodeValue = trim v in
      if nodeValue \<noteq> [] then returns (Some (SText nodeValue)) else returns None)"
| "createSkeleton w (MElem t as cs) componentName =
     (case skeleton_attrs w as componentName [] of
        None \<Rightarrow> None
      | Some (Inl e) \<Rightarrow> throws e
      | Some (Inr attrs) \<Rightarrow>
          (case skeleton_children w cs componentName of
             None \<Rightarrow> None
           | Some (Inl e) \<Rightarrow> throws e
           | Some (Inr children) \<Rightarrow> returns (Some (SNode t attrs children))))"
| "skeleton_children w [] componentName = returns []"
| "skeleton_children w (c # cs) componentName =
     (case createSkeleton w c componentName of
        None \<Rightarrow> None
      | Some (Inl e) \<Rightarrow> throws e
      | Some (Inr childSkeleton) \<Rightarrow>
          (case skeleton_children w cs componentName of
             None \<Rightarrow> None
           | Some (Inl e) \<Rightarrow> throws e
           | Some (Inr children) \<Rightarrow>
               returns (case childSkeleton of None \<Rightarrow> children | Some sk \<Rightarrow> sk # children)))"

section \<open>Bound contexts and hooks\<close>

text \<open>The object \<^verbatim>\<open>getThisParameter\<close> returns. \<^verbatim>\<open>dom\<close> and \<^verbatim>\<open>state\<close> are read
  when the object is made. Its \<^verbatim>\<open>setState\<close> is a closure over the two arguments and
  \<^verbatim>\<open>elementKey\<close>, which the record keeps as \<open>ctx_elementKey\<close>.\<close>

record ctx =
  ctx_name :: jsval
  ctx_key :: jsval
  ctx_dom :: "nat option"
  ctx_state :: jsval
  ctx_elementKey :: string

text \<open>A hook is user code called with a bound context as \<^verbatim>\<open>this\<close>: any function of
  the world that returns, throws or does not return. The \<^verbatim>\<open>hooks\<close> object of a
  definition is kept beside the world, by component name; \<open>None\<close> is a definition
  without \<^verbatim>\<open>hooks\<close>.\<close>

type_synonym hook = "ctx \<Rightarrow> world \<Rightarrow> world result"

record hooks =
  created :: "hook option"
  connected :: "hook option"
  disconnected :: "hook option"
  updated :: "hook option"

type_synonym hook_table = "string \<Rightarrow> hooks option"

definition getThisParameter :: "world \<Rightarrow> jsval \<Rightarrow> jsval \<Rightarrow> error + ctx" where
  "getThisParameter w componentName componentKey =
     (case js_plus_key w componentName componentKey of
        Inl e \<Rightarrow> Inl e
      | Inr elementKey \<Rightarrow>
          (case get_entry w elementKey of
             Inl e \<Rightarrow> Inl e
           | Inr en \<Rightarrow>
               (case firstChild (e_dom en) w of
                  Inl e \<Rightarrow> Inl e
                | Inr fc \<Rightarrow>
                    Inr \<lparr>ctx_name = componentName, ctx_key = componentKey, ctx_dom = fc,
                         ctx_state = e_state en, ctx_elementKey = elementKey\<rparr>)))"

text \<open>\<^verbatim>\<open>Lucid.app.components[componentName]\<close>, the name converted to a property key.\<close>

definition component_of :: "world \<Rightarrow> jsval \<Rightarrow> error + string \<times> component" where
  "component_of w componentName =
     (case to_string w componentName of
        Inl e \<Rightarrow> Inl e
      | Inr n \<Rightarrow> (case get_component w n of Inl e \<Rightarrow> Inl e | Inr c \<Rightarrow> Inr (n, c)))"

text \<open>\<^verbatim>\<open>c.hooks && c.hooks.h && c.hooks.h.call(getThisParameter(componentName,
  componentKey))\<close>: the context is only built when the hook is there.\<close>

definition call_hook ::
  "hook_table \<Rightarrow> (hooks \<Rightarrow> hook option) \<Rightarrow> jsval \<Rightarrow> jsval \<Rightarrow> world \<Rightarrow> world result" where
  "call_hook H h componentName componentKey w =
     (case component_of w componentName of
        Inl e \<Rightarrow> throws e
      | Inr (n, c) \<Rightarrow>
          (case H n of
             None \<Rightarrow> returns w
           | Some hs \<Rightarrow>
               (case h hs of
                  None \<Rightarrow> returns w
                | Some f \<Rightarrow>
                    (case getThisParameter w componentName componentKey of
                       Inl e \<Rightarrow> throws e
                     | Inr this \<Rightarrow> f this w))))"

section \<open>The mount engine: \<^verbatim>\<open>connectComponent\<close>\<close>

text \<open>The loop over \<^verbatim>\<open>skeleton.attrs\<close> (lines 205 to 215).\<close>

fun connect_attrs ::
  "nat \<Rightarrow> (string \<times> jsval) list \<Rightarrow> jsval \<Rightarrow> jsval \<Rightarrow> world \<Rightarrow> world result" where
  "connect_attrs elem [] componentName componentKey w = returns w"
| "connect_attrs elem ((key, v) # rest) componentName componentKey w =
     (if startsWith key ''on'' then
        (case addEventListener elem (drop 2 key)
                \<lparr>l_handler = v, l_name = componentName, l_key = componentKey\<rparr> w of
           Inl e \<Rightarrow> throws e
         | Inr w' \<Rightarrow> connect_attrs elem rest componentName componentKey w')
      else
        (case convertTextVariables w v componentName componentKey of
           None \<Rightarrow> None
         | Some (Inl e) \<Rightarrow> throws e
         | Some (Inr result) \<Rightarrow>
             (case to_string w result of
                Inl e \<Rightarrow> throws e
              | Inr r \<Rightarrow>
                  (case setAttribute (Some elem) key r w of
                     Inl e \<Rightarrow> throws e
                   | Inr w' \<Rightarrow> connect_attrs elem rest componentName componentKey w'))))"

fun connectComponent :: "nat \<Rightarrow> skeleton \<Rightarrow> jsval \<Rightarrow> jsval \<Rightarrow> world \<Rightarrow> world result"
and connect_children :: "nat \<Rightarrow> skeleton list \<Rightarrow> jsval \<Rightarrow> jsval \<Rightarrow> world \<Rightarrow> world result" where
  "connectComponent dom' (SText s) componentName componentKey w =
     (case convertTextVariables w (JStr s) componentName componentKey of
        None \<Rightarrow> None
      | Some (Inl e) \<Rightarrow> throws e
      | Some (Inr v) \<Rightarrow>
          (case to_string w v of
             Inl e \<Rightarrow> throws e
           | Inr t \<Rightarrow>
               (let (textNode, w1) = createTextNode t w in lift (appendChild dom' textNode w1))))"
| "connectComponent dom' (SNode t attrs children) componentName componentKey w =
     (let (elem, w1) = createElement t w in
      case connect_attrs elem (for_in attrs) componentName componentKey w1 of
        None \<Rightarrow> None
      | Some (Inl e) \<Rightarrow> throws e
      | Some (Inr w2) \<Rightarrow>
          (case connect_children elem children componentName componentKey w2 of
             None \<Rightarrow> None
           | Some (Inl e) \<Rightarrow> throws e
           | Some (Inr w3) \<Rightarrow> lift (appendChild dom' elem w3)))"
| "connect_children elem [] componentName componentKey w = returns w"
| "connect_children elem (c # cs) componentName componentKey w =
     (case connectComponent elem c componentName componentKey w of
        None \<Rightarrow> None
      | Some (Inl e) \<Rightarrow> throws e
      | Some (Inr w') \<Rightarrow> connect_children elem cs componentName componentKey w')"

text \<open>A skeleton that is \<^verbatim>\<open>undefined\<close> (a render output without an element) fails at
  \<^verbatim>\<open>skeleton.tag\<close>.\<close>

definition connectComponent_opt ::
  "nat \<Rightarrow> skeleton option \<Rightarrow> jsval \<Rightarrow> jsval \<Rightarrow> world \<Rightarrow> world result" where
  "connectComponent_opt dom' skeleton componentName componentKey w =
     (case skeleton of
        None \<Rightarrow> throws TypeError
      | Some sk \<Rightarrow> connectComponent dom' sk componentName componentKey w)"

section \<open>The update engine: \<^verbatim>\<open>updateComponent\<close>\<close>

text \<open>The loop over \<^verbatim>\<open>skeleton.attrs\<close> (lines 253 to 260). The interpolation runs
  before \<^verbatim>\<open>dom.setAttribute\<close> is looked up.\<close>

text \<open>\<^verbatim>\<open>nodeValue\<close> is a nullable string of the host: assigning \<^verbatim>\<open>null\<close> or
  \<^verbatim>\<open>undefined\<close> stores the empty string; any other value is converted by
  \<^verbatim>\<open>ToString\<close>.\<close>

fun nodeValue_string :: "world \<Rightarrow> jsval \<Rightarrow> error + string" where
  "nodeValue_string w JUndefined = Inr []"
| "nodeValue_string w JNull = Inr []"
| "nodeValue_string w v = to_string w v"

fun is_function :: "jsval \<Rightarrow> bool" where
  "is_function (JFun f) = True"
| "is_function v = False"

fun update_attrs ::
  "nat option \<Rightarrow> (string \<times> jsval) list \<Rightarrow> jsval \<Rightarrow> jsval \<Rightarrow> world \<Rightarrow> world result" where
  "update_attrs dom' [] componentName componentKey w = returns w"
| "update_attrs dom' ((key, v) # rest) componentName componentKey w =
     (if \<not> is_function v then
        (case convertTextVariables w v componentName componentKey of
           None \<Rightarrow> None
         | Some (Inl e) \<Rightarrow> throws e
         | Some (Inr result) \<Rightarrow>
             (case to_string w result of
                Inl e \<Rightarrow> throws e
              | Inr r \<Rightarrow>
                  (case setAttribute dom' key r w of
                     Inl e \<Rightarrow> throws e
                   | Inr w' \<Rightarrow> update_attrs dom' rest componentName componentKey w')))
      else update_attrs dom' rest componentName componentKey w)"

text \<open>\<open>update_children dom i sks\<close> is the loop of lines 262 to 264 from index \<open>i\<close> on,
  \<open>sks\<close> being \<^verbatim>\<open>skeleton.children\<close> from \<open>i\<close> on. \<^verbatim>\<open>dom.childNodes\<close> is read anew at
  every test. Past the end of \<^verbatim>\<open>skeleton.children\<close> (the list is empty) the skeleton
  passed down is \<^verbatim>\<open>undefined\<close>, and the call fails at \<^verbatim>\<open>skeleton.attrs\<close>.\<close>

fun updateComponent :: "nat option \<Rightarrow> skeleton \<Rightarrow> jsval \<Rightarrow> jsval \<Rightarrow> world \<Rightarrow> world result"
and update_children ::
  "nat option \<Rightarrow> nat \<Rightarrow> skeleton list \<Rightarrow> jsval \<Rightarrow> jsval \<Rightarrow> world \<Rightarrow> world result" where
  "updateComponent dom' (SText s) componentName componentKey w =
     (case convertTextVariables w (JStr s) componentName componentKey of
        None \<Rightarrow> None
      | Some (Inl e) \<Rightarrow> throws e
      | Some (Inr v) \<Rightarrow>
          (case nodeValue_string w v of
             Inl e \<Rightarrow> throws e
           | Inr t \<Rightarrow> lift (set_nodeValue dom' t w)))"
| "updateComponent dom' (SNode t attrs children) componentName componentKey w =
     (case update_attrs dom' (for_in attrs) componentName componentKey w of
        None \<Rightarrow> None
      | Some (Inl e) \<Rightarrow> throws e
      | Some (Inr w1) \<Rightarrow> update_children dom' 0 children componentName componentKey w1)"
| "update_children dom' i [] componentName componentKey w =
     (case child_nodes dom' w of
        Inl e \<Rightarrow> throws e
      | Inr cs \<Rightarrow> if i < length cs then throws TypeError else returns w)"
| "update_children dom' i (sk # rest) componentName componentKey w =
     (case child_nodes dom' w of
        Inl e \<Rightarrow> throws e
      | Inr cs \<Rightarrow>
          if i < length cs then
            (case updateComponent (Some (cs ! i)) sk componentName componentKey w of
               None \<Rightarrow> None
             | Some (Inl e) \<Rightarrow> throws e
             | Some (Inr w') \<Rightarrow>
                 update_children dom' (Suc i) rest componentName componentKey w')
          else returns w)"

definition updateComponent_opt ::
  "nat option \<Rightarrow> skeleton option \<Rightarrow> jsval \<Rightarrow> jsval \<Rightarrow> world \<Rightarrow> world result" where
  "updateComponent_opt dom' skeleton componentName componentKey w =
     (case skeleton of
        None \<Rightarrow> throws TypeError
      | Some sk \<Rightarrow> updateComponent dom' sk componentName componentKey w)"

section \<open>The lifecycle layer\<close>

text \<open>\<^verbatim>\<open>createComponent(name, properties)\<close>: the fields of \<^verbatim>\<open>properties\<close> are stored
  as they are, \<^verbatim>\<open>state\<close> included; there is no \<^verbatim>\<open>skeleton\<close> yet.\<close>

record properties =
  p_state :: jsval
  p_methods :: jsval
  p_render :: "markup list"
  p_attributes :: jsval
  p_watch :: jsval

definition createComponent :: "string \<Rightarrow> properties \<Rightarrow> component" where
  "createComponent name props =
     \<lparr>c_name = name, c_state = p_state props, c_methods = p_methods props,
      c_render = p_render props, c_attributes = p_attributes props, c_watch = p_watch props,
      c_skeleton = None\<rparr>"

fun is_element :: "markup \<Rightarrow> bool" where
  "is_element (MElem t as cs) = True"
| "is_element (MText v) = False"

text \<open>Lines 156 to 166, and again lines 292 to 302: when the definition has no skeleton,
  build one out of the first element node of its render output.\<close>

definition init_skeleton :: "jsval \<Rightarrow> world \<Rightarrow> world result" where
  "init_skeleton componentName w =
     (case component_of w componentName of
        Inl e \<Rightarrow> throws e
      | Inr (n, c) \<Rightarrow>
          if c_skeleton c = None then
            (case find is_element (c_render c) of
               None \<Rightarrow> returns w
             | Some child \<Rightarrow>
                 (case createSkeleton w child componentName of
                    None \<Rightarrow> None
                  | Some (Inl e) \<Rightarrow> throws e
                  | Some (Inr sk) \<Rightarrow>
                      returns (w\<lparr>components := (components w)(n \<mapsto> c\<lparr>c_skeleton := sk\<rparr>)\<rparr>)))
          else returns w)"

text \<open>\<^verbatim>\<open>Lucid.app.page.elements[elementKey] = {state: ..., dom: elem}\<close>.\<close>

definition put_entry :: "string \<Rightarrow> entry \<Rightarrow> world \<Rightarrow> error + world" where
  "put_entry elementKey en w =
     (if elementKey \<in> set object_prototype_names then Inl Unmodelled
      else Inr (w\<lparr>elements := (elements w)(elementKey \<mapsto> en)\<rparr>))"

text \<open>Lines 173 to 176 and 304 to 310: the entry takes the \<^verbatim>\<open>state\<close> of the
  definition, the reference itself.\<close>

definition register_instance :: "jsval \<Rightarrow> jsval \<Rightarrow> nat \<Rightarrow> world \<Rightarrow> error + world" where
  "register_instance componentName componentKey elem w =
     (case js_plus_key w componentName componentKey of
        Inl e \<Rightarrow> Inl e
      | Inr elementKey \<Rightarrow>
          (case component_of w componentName of
             Inl e \<Rightarrow> Inl e
           | Inr (n, c) \<Rightarrow> put_entry elementKey \<lparr>e_state = c_state c, e_dom = elem\<rparr> w))"

text \<open>\<^verbatim>\<open>renderComponent(dom, componentName, componentKey)\<close>, lines 154 to 186.\<close>

definition renderComponent ::
  "hook_table \<Rightarrow> nat \<Rightarrow> jsval \<Rightarrow> jsval \<Rightarrow> world \<Rightarrow> world result" where
  "renderComponent H dom' componentName componentKey w =
     bind (init_skeleton componentName w) (\<lambda>w1.
       let (elem, w2) = createElement ''div'' w1 in
       bind (lift (to_string w2 componentName)) (\<lambda>n.
       bind (lift (setAttribute (Some elem) ''lucid-component'' n w2)) (\<lambda>w3.
       bind (lift (to_string w3 componentKey)) (\<lambda>k.
       bind (lift (setAttribute (Some elem) ''lucid-key'' k w3)) (\<lambda>w4.
       bind (lift (register_instance componentName componentKey elem w4)) (\<lambda>w5.
       bind (call_hook H created componentName componentKey w5) (\<lambda>w6.
       bind (lift (component_of w6 componentName)) (\<lambda>(n', c).
       bind (connectComponent_opt elem (c_skeleton c) componentName componentKey w6) (\<lambda>w7.
       bind (lift (appendChild dom' elem w7)) (\<lambda>w8.
       call_hook H connected componentName componentKey w8))))))))))"

text \<open>\<^verbatim>\<open>disconnectComponent(componentName, componentKey)\<close>, lines 228 to 239.\<close>

definition disconnectComponent :: "hook_table \<Rightarrow> jsval \<Rightarrow> jsval \<Rightarrow> world \<Rightarrow> world result" where
  "disconnectComponent H componentName componentKey w =
     bind (lift (js_plus_key w componentName componentKey)) (\<lambda>elementKey.
     bind (lift (get_entry w elementKey)) (\<lambda>en.
     bind (lift (remove_from_parent (e_dom en) w)) (\<lambda>w1.
     bind (call_hook H disconnected componentName componentKey w1) (\<lambda>w2.
       returns (w2\<lparr>elements := (elements w2)(elementKey := None)\<rparr>)))))"

text \<open>\<^verbatim>\<open>setState(newState)\<close> of a bound context \<open>this\<close>, lines 387 to 398.\<close>

definition setState :: "hook_table \<Rightarrow> ctx \<Rightarrow> jsval \<Rightarrow> world \<Rightarrow> world result" where
  "setState H this newState w =
     bind (lift (get_entry w (ctx_elementKey this))) (\<lambda>en.
       let w1 = w\<lparr>elements := (elements w)(ctx_elementKey this \<mapsto> en\<lparr>e_state := newState\<rparr>)\<rparr> in
       bind (lift (get_entry w1 (ctx_elementKey this))) (\<lambda>en1.
       bind (lift (firstChild (e_dom en1) w1)) (\<lambda>fc.
       bind (lift (component_of w1 (ctx_name this))) (\<lambda>(n, c).
       bind (updateComponent_opt fc (c_skeleton c) (ctx_name this) (ctx_key this) w1) (\<lambda>w2.
       bind (lift (component_of w2 (ctx_name this))) (\<lambda>(n', c').
         case H n' of
           None \<Rightarrow> returns w2
         | Some hs \<Rightarrow> (case updated hs of None \<Rightarrow> returns w2 | Some f \<Rightarrow> f this w2)))))))"

section \<open>Page-level mounting: \<^verbatim>\<open>connectPage\<close>\<close>

text \<open>The loop of lines 282 and 283.\<close>

fun page_attrs :: "nat \<Rightarrow> (string \<times> jsval) list \<Rightarrow> world \<Rightarrow> error + world" where
  "page_attrs elem [] w = Inr w"
| "page_attrs elem ((key, v) # rest) w =
     (case to_string w v of
        Inl e \<Rightarrow> Inl e
      | Inr r \<Rightarrow>
          (case setAttribute (Some elem) key r w of
             Inl e \<Rightarrow> Inl e
           | Inr w' \<Rightarrow> page_attrs elem rest w'))"

text \<open>\<^verbatim>\<open>getAttribute\<close> gives a string or \<^verbatim>\<open>null\<close>; \<^verbatim>\<open>null\<close> and the empty string
  are the falsy ones.\<close>

definition attr_value :: "string option \<Rightarrow> jsval" where
  "attr_value a = (case a of None \<Rightarrow> JNull | Some s \<Rightarrow> JStr s)"

definition truthy_attr :: "string option \<Rightarrow> bool" where
  "truthy_attr a = (case a of None \<Rightarrow> False | Some s \<Rightarrow> s \<noteq> [])"

text \<open>Lines 290 to 321, the body of \<^verbatim>\<open>if (componentName || componentKey)\<close>.\<close>

definition mount_placeholder ::
  "hook_table \<Rightarrow> nat \<Rightarrow> jsval \<Rightarrow> jsval \<Rightarrow> world \<Rightarrow> world result" where
  "mount_placeholder H elem componentName componentKey w =
     bind (init_skeleton componentName w) (\<lambda>w1.
     bind (lift (js_plus_key w1 componentName componentKey)) (\<lambda>elementKey.
     bind (lift (register_instance componentName componentKey elem w1)) (\<lambda>w2.
     bind (call_hook H created componentName componentKey w2) (\<lambda>w3.
     bind (lift (get_entry w3 elementKey)) (\<lambda>en.
     bind (lift (component_of w3 componentName)) (\<lambda>(n, c).
     bind (connectComponent_opt (e_dom en) (c_skeleton c) componentName componentKey w3) (\<lambda>w4.
       call_hook H connected componentName componentKey w4)))))))"

fun connectPage :: "hook_table \<Rightarrow> nat \<Rightarrow> skeleton \<Rightarrow> world \<Rightarrow> world result"
and connectPage_children :: "hook_table \<Rightarrow> nat \<Rightarrow> skeleton list \<Rightarrow> world \<Rightarrow> world result" where
  "connectPage H dom' (SText s) w =
     (let (textNode, w1) = createTextNode s w in lift (appendChild dom' textNode w1))"
| "connectPage H dom' (SNode t attrs children) w =
     (let (elem, w1) = createElement t w in
      case page_attrs elem (for_in attrs) w1 of
        Inl e \<Rightarrow> throws e
      | Inr w2 \<Rightarrow>
          (let componentName = getAttribute elem ''lucid-component'' w2;
               componentKey = getAttribute elem ''lucid-key'' w2
           in case (if truthy_attr componentName \<or> truthy_attr componentKey
                    then mount_placeholder H elem (attr_value componentName)
                           (attr_value componentKey) w2
                    else returns w2) of
                None \<Rightarrow> None
              | Some (Inl e) \<Rightarrow> throws e
              | Some (Inr w3) \<Rightarrow>
                  (case connectPage_children H elem children w3 of
                     None \<Rightarrow> None
                   | Some (Inl e) \<Rightarrow> throws e
                   | Some (Inr w4) \<Rightarrow> lift (appendChild dom' elem w4))))"
| "connectPage_children H elem [] w = returns w"
| "connectPage_children H elem (c # cs) w =
     (case connectPage H elem c w of
        None \<Rightarrow> None
      | Some (Inl e) \<Rightarrow> throws e
      | Some (Inr w') \<Rightarrow> connectPage_children H elem cs w')"

section \<open>A counter component and the worlds of the scenarios\<close>

text \<open>A definition named \<^verbatim>\<open>counter\<close> whose render output is one \<^verbatim>\<open>span\<close> around the
  text \<open>t\<close>, with the state object at address 0 of the heap.\<close>

definition counter :: "string \<Rightarrow> component" where
  "counter t =
     createComponent ''counter''
       \<lparr>p_state = JObj 0, p_methods = JUndefined,
        p_render = [MElem ''SPAN'' [] [MText t]],
        p_attributes = JUndefined, p_watch = JUndefined\<rparr>"

text \<open>The application before anything is mounted: node 0 is the container; the heap
  holds \<^verbatim>\<open>{count: 0}\<close> at 0, \<^verbatim>\<open>{count: 5}\<close> at 1 and an empty object at 2, which the
  hooks of the scenarios use as their shared log.\<close>

definition app :: "string \<Rightarrow> world" where
  "app t =
     \<lparr>components = [''counter'' \<mapsto> counter t], elements = Map.empty,
      nodes = [0 \<mapsto> Element ''BODY'' [] [] None []], next_node = 1,
      heap = [0 \<mapsto> [(''count'', JNum 0)], 1 \<mapsto> [(''count'', JNum 5)], 2 \<mapsto> []]\<rparr>"

definition no_hooks :: hook_table where
  "no_hooks = (\<lambda>n. None)"

text \<open>Mount instance \<^verbatim>\<open>1\<close> of \<^verbatim>\<open>counter\<close> into the container, take its bound context,
  call \<^verbatim>\<open>setState({count: 5})\<close>. The result shows the first child of the wrapper before
  and after, the \<^verbatim>\<open>span\<close> (node 2) before and after, the text node (node 3) after, and
  the number of nodes ever created before and after.\<close>

definition mount_then_setState ::
  "string \<Rightarrow> (nat option \<times> nat option \<times> hnode option \<times> hnode option \<times> hnode option \<times> nat \<times> nat) result" where
  "mount_then_setState t =
     bind (renderComponent no_hooks 0 (JStr ''counter'') (JStr ''1'') (app t)) (\<lambda>w.
     bind (lift (getThisParameter w (JStr ''counter'') (JStr ''1''))) (\<lambda>this.
     bind (setState no_hooks this (JObj 1) w) (\<lambda>w'.
     bind (lift (getThisParameter w' (JStr ''counter'') (JStr ''1''))) (\<lambda>this'.
       returns (ctx_dom this, ctx_dom this', nodes w 2, nodes w' 2, nodes w' 3,
                next_node w, next_node w')))))"

text \<open>A world in which instance \<^verbatim>\<open>1\<close> of \<^verbatim>\<open>counter\<close> is registered.\<close>

definition registered :: world where
  "registered =
     (app ''x'')\<lparr>elements := [''counter1'' \<mapsto> \<lparr>e_state = JObj 0, e_dom = 1\<rparr>],
                nodes := [0 \<mapsto> Element ''BODY'' [] [1] None [],
                          1 \<mapsto> Element ''div'' [] [] (Some 0) []],
                next_node := 2\<rparr>"

text \<open>The same world after the definition of \<^verbatim>\<open>counter\<close> has been taken out of the
  definition registry.\<close>

definition orphaned :: world where
  "orphaned = registered\<lparr>components := Map.empty\<rparr>"

text \<open>A page skeleton: a placeholder for instance \<^verbatim>\<open>1\<close> of \<^verbatim>\<open>counter\<close> with the given
  page-level children of its own.\<close>

definition placeholder :: "skeleton list \<Rightarrow> skeleton" where
  "placeholder children =
     SNode ''DIV'' [(''lucid-component'', JStr ''counter''), (''lucid-key'', JStr ''1'')] children"

definition mount_placeholder_with_child :: "(hnode option \<times> hnode option \<times> hnode option) result" where
  "mount_placeholder_with_child =
     bind (connectPage no_hooks 0 (placeholder [SText ''own child'']) (app ''{{state.count}}''))
       (\<lambda>w. returns (nodes w 1, nodes w 2, nodes w 4))"

text \<open>Hooks that write into the shared log, under their own name, whether the host root
  of their instance (the \<^verbatim>\<open>dom\<close> of its registry entry) has a parent at that moment.\<close>

definition root_attached :: "ctx \<Rightarrow> world \<Rightarrow> bool" where
  "root_attached this w =
     (case elements w (ctx_elementKey this) of
        None \<Rightarrow> False
      | Some en \<Rightarrow> (case nodes w (e_dom en) of None \<Rightarrow> False | Some n \<Rightarrow> parentNode n \<noteq> None))"

definition log_hook :: "string \<Rightarrow> hook" where
  "log_hook label this w =
     returns (w\<lparr>heap := (heap w)(2 \<mapsto>
                put (case heap w 2 of None \<Rightarrow> [] | Some ps \<Rightarrow> ps) label
                    (JBool (root_attached this w)))\<rparr>)"

definition logging_hooks :: hook_table where
  "logging_hooks =
     (\<lambda>n. if n = ''counter''
          then Some \<lparr>created = Some (log_hook ''created''), connected = Some (log_hook ''connected''),
                     disconnected = None, updated = None\<rparr>
          else None)"

definition log_of :: "world result \<Rightarrow> (string \<times> jsval) list option result" where
  "log_of r = bind r (\<lambda>w. returns (heap w 2))"

text \<open>An \<^verbatim>\<open>updated\<close> hook that writes into the shared log what it finds when it runs: the
  state that the registry entry of its instance holds, and the value of the text node of
  the scenario (node 3).\<close>

definition observe_hook :: hook where
  "observe_hook this w =
     returns (w\<lparr>heap := (heap w)(2 \<mapsto>
       [(''state'', case elements w (ctx_elementKey this) of
                      None \<Rightarrow> JUndefined | Some en \<Rightarrow> e_state en),
        (''text'', case nodes w 3 of Some (Text v p) \<Rightarrow> JStr v | _ \<Rightarrow> JUndefined)])\<rparr>)"

definition observing_hooks :: hook_table where
  "observing_hooks =
     (\<lambda>n. if n = ''counter''
          then Some \<lparr>created = None, connected = None, disconnected = None,
                     updated = Some observe_hook\<rparr>
          else None)"

text \<open>Two definitions whose names and instance keys can collide: \<^verbatim>\<open>a\<close> with the state
  object at address 0 and \<^verbatim>\<open>ab\<close> with the state object at address 1, both rendering one
  \<^verbatim>\<open>span\<close> around \<^verbatim>\<open>{{state.count}}\<close>. The pairs \<^verbatim>\<open>('a', 'bc')\<close> and
  \<^verbatim>\<open>('ab', 'c')\<close> have the element key \<^verbatim>\<open>abc\<close>.\<close>

definition spanning :: "string \<Rightarrow> nat \<Rightarrow> component" where
  "spanning name a =
     createComponent name
       \<lparr>p_state = JObj a, p_methods = JUndefined,
        p_render = [MElem ''SPAN'' [] [MText ''{{state.count}}'']],
        p_attributes = JUndefined, p_watch = JUndefined\<rparr>"

definition two_components :: world where
  "two_components =
     (app ''x'')\<lparr>components := [''a'' \<mapsto> spanning ''a'' 0, ''ab'' \<mapsto> spanning ''ab'' 1]\<rparr>"


section \<open>Notions used in the statements\<close>

text \<open>\<open>w'\<close> differs from \<open>w\<close> in the host's nodes at most: both registries and the
  heap are the same.\<close>

definition nodes_only :: "world \<Rightarrow> world \<Rightarrow> bool" where
  "nodes_only w w' \<longleftrightarrow>
     components w' = components w \<and> elements w' = elements w \<and> heap w' = heap w"

text \<open>No node was created, and every node has the children it had, in the same order.\<close>

definition same_children :: "world \<Rightarrow> world \<Rightarrow> bool" where
  "same_children w w' \<longleftrightarrow>
     next_node w' = next_node w \<and> (\<forall>d. child_nodes d w' = child_nodes d w)"


text \<open>Values whose conversion to a string does not read the heap.\<close>

fun primitive :: "jsval \<Rightarrow> bool" where
  "primitive JUndefined = True"
| "primitive JNull = True"
| "primitive (JBool b) = True"
| "primitive (JNum n) = True"
| "primitive (JStr s) = True"
| "primitive v = False"

text \<open>Hooks that leave both registries as they find them (they may change nodes and
  heap objects, and they may throw).\<close>

definition keeps_registries :: "hook option \<Rightarrow> bool" where
  "keeps_registries h \<longleftrightarrow>
     (\<forall>f this w w'. h = Some f \<longrightarrow> f this w = returns w' \<longrightarrow>
        components w' = components w \<and> elements w' = elements w)"

definition hooks_keep_registries :: "hook_table \<Rightarrow> bool" where
  "hooks_keep_registries H \<longleftrightarrow>
     (\<forall>n hs. H n = Some hs \<longrightarrow>
        keeps_registries (created hs) \<and> keeps_registries (connected hs) \<and>
        keeps_registries (disconnected hs) \<and> keeps_registries (updated hs))"

text \<open>The two mounts of the source: \<^verbatim>\<open>renderComponent\<close> into some node, with the
  wrapper it creates as the host root of the instance, or the placeholder branch of
  \<^verbatim>\<open>connectPage\<close>, with the placeholder element as the host root.\<close>

definition mounted_by :: "hook_table \<Rightarrow> jsval \<Rightarrow> jsval \<Rightarrow> world \<Rightarrow> world \<Rightarrow> nat \<Rightarrow> bool" where
  "mounted_by H componentName componentKey w w' root \<longleftrightarrow>
     (\<exists>d. renderComponent H d componentName componentKey w = returns w' \<and> root = next_node w) \<or>
     mount_placeholder H root componentName componentKey w = returns w'"

text \<open>The call returned (it neither threw nor ran forever).\<close>

definition returned :: "'a result \<Rightarrow> bool" where
  "returned r = (case r of Some (Inr x) \<Rightarrow> True | _ \<Rightarrow> False)"


text \<open>What two bound contexts say about the instance: its rendered root, its state, and
  the element key their \<^verbatim>\<open>setState\<close> writes to.\<close>

definition ctx_instance :: "error + ctx \<Rightarrow> error + nat option \<times> jsval \<times> string" where
  "ctx_instance r = (case r of Inl e \<Rightarrow> Inl e | Inr t \<Rightarrow> Inr (ctx_dom t, ctx_state t, ctx_elementKey t))"

text \<open>The host hands out node identities in order: no node exists at or above
  \<open>next_node\<close>.\<close>

definition fresh_above :: "world \<Rightarrow> bool" where
  "fresh_above w \<longleftrightarrow> (\<forall>i. next_node w \<le> i \<longrightarrow> nodes w i = None)"

text \<open>From \<open>w\<close> to \<open>w'\<close> the element \<open>d\<close> got the nodes \<open>new\<close> as further children, in
  this order and behind the children it had, and is otherwise as it was; the nodes \<open>new\<close>
  were made in between; every other node that existed in \<open>w\<close> is as it was.\<close>

definition appended :: "world \<Rightarrow> world \<Rightarrow> nat \<Rightarrow> nat list \<Rightarrow> bool" where
  "appended w w' d new \<longleftrightarrow>
     fresh_above w \<and> fresh_above w' \<and> next_node w \<le> next_node w' \<and>
     (\<forall>i. i < next_node w \<longrightarrow> i \<noteq> d \<longrightarrow> nodes w' i = nodes w i) \<and>
     (case (nodes w d, nodes w' d) of
        (Some (Element t as cs p ls), Some n') \<Rightarrow> n' = Element t as (cs @ new) p ls
      | _ \<Rightarrow> False) \<and>
     (\<forall>c \<in> set new. next_node w \<le> c \<and> c < next_node w')"

text \<open>The node \<open>n\<close> is the root that \<^verbatim>\<open>connectComponent\<close> builds for a skeleton under
  the parent \<open>p\<close>: a text node for a string; for an element skeleton an element with its
  tag and as many children as the skeleton has.\<close>

fun mounts :: "skeleton \<Rightarrow> nat \<Rightarrow> hnode option \<Rightarrow> bool" where
  "mounts (SText s) p n = (case n of Some (Text v q) \<Rightarrow> q = Some p | _ \<Rightarrow> False)"
| "mounts (SNode t as cs) p n =
     (case n of
        Some (Element t' as' cs' q ls) \<Rightarrow> t' = t \<and> q = Some p \<and> length cs' = length cs
      | _ \<Rightarrow> False)"

text \<open>The node \<open>n\<close> is the root that \<^verbatim>\<open>connectPage\<close> builds for a page skeleton under
  the parent \<open>p\<close>: the text node with the string itself; for an element skeleton an
  element with its tag and at least as many children as the skeleton has (a placeholder
  has the root of its instance as well).\<close>

fun page_mounts :: "skeleton \<Rightarrow> nat \<Rightarrow> hnode option \<Rightarrow> bool" where
  "page_mounts (SText s) p n = (n = Some (Text s (Some p)))"
| "page_mounts (SNode t as cs) p n =
     (case n of
        Some (Element t' as' cs' q ls) \<Rightarrow> t' = t \<and> q = Some p \<and> length cs \<le> length cs'
      | _ \<Rightarrow> False)"

text \<open>Mount hooks that leave the host's nodes as they find them (they may change heap
  objects, and they may throw).\<close>

definition keeps_nodes :: "hook option \<Rightarrow> bool" where
  "keeps_nodes h \<longleftrightarrow>
     (\<forall>f this w w'. h = Some f \<longrightarrow> f this w = returns w' \<longrightarrow>
        nodes w' = nodes w \<and> next_node w' = next_node w)"

definition hooks_keep_nodes :: "hook_table \<Rightarrow> bool" where
  "hooks_keep_nodes H \<longleftrightarrow>
     (\<forall>n hs. H n = Some hs \<longrightarrow> keeps_nodes (created hs) \<and> keeps_nodes (connected hs))"

section \<open>Properties\<close>

subsection \<open>Results\<close>

lemma bind_eq_returns: "bind m f = returns y \<longleftrightarrow> (\<exists>x. m = returns x \<and> f x = returns y)"
proof (cases m)
  case None
  then show ?thesis by simp
next
  case (Some r)
  then show ?thesis by (cases r) simp_all
qed

lemma returned_iff: "returned r \<longleftrightarrow> (\<exists>x. r = returns x)"
  by (auto simp: returned_def split: option.splits sum.splits)


subsection \<open>The order of \<^verbatim>\<open>for ... in\<close>\<close>

lemma for_in_Nil [simp]: "for_in [] = []"
  by (simp add: for_in_def)

lemma set_for_in [simp]: "set (for_in kvs) = set kvs"
  by (auto simp: for_in_def)

lemma length_for_in [simp]: "length (for_in kvs) = length kvs"
  using sum_length_filter_compl [of "\<lambda>kv. array_index (fst kv) \<noteq> None" kvs]
  by (simp add: for_in_def)

lemma distinct_for_in: "distinct (map fst kvs) \<Longrightarrow> distinct (map fst (for_in kvs))"
proof -
  assume d: "distinct (map fst kvs)"
  then have "distinct kvs" and i: "inj_on fst (set kvs)"
    by (simp_all add: distinct_map)
  then have "distinct (for_in kvs)"
    by (auto simp: for_in_def)
  with i show ?thesis by (simp add: distinct_map)
qed

lemma map_of_for_in: "distinct (map fst kvs) \<Longrightarrow> map_of (for_in kvs) = map_of kvs"
  by (simp add: map_of_inject_set distinct_for_in)

subsection \<open>Interpolation\<close>

text \<open>One pass of the loop on \<^verbatim>\<open>{{abc\<close>, for any continuation \<open>f\<close>: the search for the
  closing marker gives \<open>-1\<close>, which is truthy; the variable is the text before index 2, the
  entry has no such property, the pattern does not occur, and the text is unchanged.\<close>

lemma unterminated_pass:
  assumes "get_entry w ek = Inr en"
  shows "(let startIndex = indexOf ''{{abc'' ''{{'' 0 in
      if startIndex > -1 then
        (let endIndex = indexOf ''{{abc'' ''}}'' (startIndex + 2) in
         if endIndex \<noteq> 0 then
           (let variable = substring ''{{abc'' (startIndex + 2) endIndex;
                properties = split_on CHR ''.'' variable
            in case resolve_in_entry w ek properties of
                 Inl e \<Rightarrow> Some (Inl e)
               | Inr tempObj \<Rightarrow>
                   (case replace_with w ''{{abc'' (''{{'' @ variable @ ''}}'') tempObj of
                      Inl e \<Rightarrow> Some (Inl e)
                    | Inr text' \<Rightarrow> f w ek text'))
         else Some (Inr ''{{abc''))
      else Some (Inr ''{{abc'')) = f w ek ''{{abc''"
  using assms
  by (simp add: indexOf_def clamp_index_def substring_def resolve_in_entry_def
      object_prototype_names_def entry_prop_def replace_with_def js_replace_def Let_def)

lemma interpolate_unterminated_no_result:
  assumes "interpolate w0 ek0 t0 = Some y0"
  shows "\<not> (t0 = ''{{abc'' \<and> (\<exists>en. get_entry w0 ek0 = Inr en))"
proof (rule interpolate.raw_induct
    [where P = "\<lambda>w ek t y. \<not> (t = ''{{abc'' \<and> (\<exists>en. get_entry w ek = Inr en))", OF _ assms],
    goal_cases)
  case (1 f w ek t y)
  show ?case
  proof
    assume a: "t = ''{{abc'' \<and> (\<exists>en. get_entry w ek = Inr en)"
    then obtain en where en: "get_entry w ek = Inr en" by blast
    from 1(2) a have "f w ek ''{{abc'' = Some y"
      by (simp only: unterminated_pass [OF en])
    from 1(1) [OF this] a show False by blast
  qed
qed

lemma interpolate_unterminated:
  assumes "get_entry w ek = Inr en"
  shows "interpolate w ek ''{{abc'' = None"
proof (cases "interpolate w ek ''{{abc''")
  case None
  then show ?thesis .
next
  case (Some y)
  from interpolate_unterminated_no_result [OF Some] assms show ?thesis by blast
qed

text \<open>
  C2. The claim: on a string with an opening marker and no closing marker, render-time
  interpolation terminates. The code, on such a string: for the registered instance
  \<^verbatim>\<open>1\<close> of \<^verbatim>\<open>counter\<close>, \<^verbatim>\<open>convertTextVariables("{{abc", "counter", "1")\<close> does not
  return.
\<close>

theorem unterminated_placeholder_never_returns:
  "convertTextVariables registered (JStr ''{{abc'') (JStr ''counter'') (JStr ''1'') = None"
proof -
  have "get_entry registered ''counter1'' = Inr \<lparr>e_state = JObj 0, e_dom = 1\<rparr>"
    by (simp add: get_entry_def registered_def object_prototype_names_def)
  from interpolate_unterminated [OF this]
  show ?thesis
    by (simp add: convertTextVariables_def js_plus_key_def)
qed

text \<open>The second conjunct of the loop condition never stops the loop: the search for the
  closing marker starts at index 2 or later, so its result is \<open>-1\<close> or at least 2, and
  both are truthy.\<close>

lemma find_from_range: "find_from pat s i = -1 \<or> int i \<le> find_from pat s i"
  by (induction s arbitrary: i) (auto, force)

lemma endIndex_is_truthy: "0 \<le> startIndex \<Longrightarrow> indexOf t ''}}'' (startIndex + 2) \<noteq> 0"
proof -
  assume a: "0 \<le> startIndex"
  show ?thesis
  proof (cases "2 \<le> length t")
    case True
    with a have "2 \<le> clamp_index t (startIndex + 2)"
      by (simp add: clamp_index_def)
    with find_from_range [of "''}}''" "drop (clamp_index t (startIndex + 2)) t"
        "clamp_index t (startIndex + 2)"]
    show ?thesis by (auto simp: indexOf_def Let_def)
  next
    case False
    then have "drop (clamp_index t (startIndex + 2)) t = [] \<or>
               (\<exists>c. drop (clamp_index t (startIndex + 2)) t = [c])"
      by (cases t; cases "tl t") (auto simp: drop_Cons' clamp_index_def)
    then show ?thesis
      by (auto simp: indexOf_def Let_def)
  qed
qed

text \<open>The same through the public entry point: mounting an instance of a component whose
  render output is \<^verbatim>\<open><span>{{abc</span>\<close> does not return.\<close>

lemma mount_with_unterminated_placeholder_never_returns:
  "renderComponent no_hooks 0 (JStr ''counter'') (JStr ''1'') (app ''{{abc'') = None"
proof -
  have g: "get_entry w ''counter1'' = Inr en" if "elements w ''counter1'' = Some en" for w en
    using that by (simp add: get_entry_def object_prototype_names_def)
  show ?thesis
    by (simp add: renderComponent_def init_skeleton_def component_of_def get_component_def
        object_prototype_names_def app_def counter_def createComponent_def trim_def is_space_def
        createElement_def setAttribute_def register_instance_def js_plus_key_def put_entry_def
        call_hook_def no_hooks_def connectComponent_opt_def convertTextVariables_def
        interpolate_unterminated [OF g])
qed

text \<open>
  C3. The claim: without an instance key, \<^verbatim>\<open>convertTextVariables\<close> resolves the first
  placeholder in the definition's namespace and returns the value. The code, whenever the
  key argument is missing: line 412 calls \<^verbatim>\<open>toString\<close> on \<^verbatim>\<open>undefined\<close>, and the call
  throws a \<^verbatim>\<open>TypeError\<close>, whatever the text and the component.
\<close>

theorem definition_time_mode_throws:
  "convertTextVariables w text componentName JUndefined = throws TypeError"
  by (simp add: convertTextVariables_def)

text \<open>Building the skeleton of an element with an event attribute fails at that
  attribute, since \<^verbatim>\<open>createSkeleton\<close> passes no key (line 355).\<close>

lemma event_attribute_breaks_createSkeleton:
  "startsWith name ''on'' \<Longrightarrow>
   createSkeleton w (MElem t ((name, v, True) # as) cs) componentName = throws TypeError"
  by (simp add: convertTextVariables_def)

subsection \<open>The scenarios, evaluated\<close>

text \<open>
  C1, as amended. Paths are resolved from the registry entry \<^verbatim>\<open>{state, dom}\<close>, so the
  field is written \<^verbatim>\<open>{{state.count}}\<close>. For a render output
  \<^verbatim>\<open><span>{{state.count}}</span>\<close> and the initial state \<^verbatim>\<open>{count: 0}\<close>, mounting
  and then \<^verbatim>\<open>setState({count: 5})\<close> leave the text node with the value \<^verbatim>\<open>5\<close>; the
  first child of the wrapper is node 2 before and after, node 2 is the same \<^verbatim>\<open>span\<close> with
  the same child, and no node was created by the update.
\<close>

theorem mount_then_setState_state_count:
  "mount_then_setState ''{{state.count}}'' =
     returns (Some 2, Some 2,
              Some (Element ''SPAN'' [] [3] (Some 1) []), Some (Element ''SPAN'' [] [3] (Some 1) []),
              Some (Text ''5'' (Some 2)), 4, 4)"
  by code_simp

text \<open>
  C1, the claim as stated: with the render output \<^verbatim>\<open><span>{{count}}</span>\<close> the text
  node holds \<^verbatim>\<open>5\<close> after \<^verbatim>\<open>setState({count: 5})\<close>. The entry has no property
  \<^verbatim>\<open>count\<close>: the text node holds \<^verbatim>\<open>undefined\<close>.
\<close>

theorem mount_then_setState_count:
  "mount_then_setState ''{{count}}'' =
     returns (Some 2, Some 2,
              Some (Element ''SPAN'' [] [3] (Some 1) []), Some (Element ''SPAN'' [] [3] (Some 1) []),
              Some (Text ''undefined'' (Some 2)), 4, 4)"
  by code_simp

text \<open>
  C4, the claim as stated: the page-level children of a placeholder are not recursed into.
  A placeholder with one page-level text child of its own: after \<^verbatim>\<open>connectPage\<close> the
  placeholder element (node 1) has two children, the root of the mounted instance (node 2)
  and then its own text child (node 4).
\<close>

theorem placeholder_children_are_mounted:
  "mount_placeholder_with_child =
     returns (Some (Element ''DIV'' [(''lucid-component'', ''counter''), (''lucid-key'', ''1'')]
                      [2, 4] (Some 0) []),
              Some (Element ''SPAN'' [] [3] (Some 1) []),
              Some (Text ''own child'' (Some 1)))"
  by code_simp

text \<open>The test of line 290 is a disjunction: an element with a \<^verbatim>\<open>lucid-key\<close> and no
  \<^verbatim>\<open>lucid-component\<close> enters the placeholder branch too, and fails there on the missing
  definition named \<^verbatim>\<open>null\<close>.\<close>

lemma key_alone_enters_placeholder_branch:
  "connectPage no_hooks 0 (SNode ''DIV'' [(''lucid-key'', JStr ''1'')] []) (app ''x'') =
     throws TypeError"
  by (simp add: for_in_def array_index_def createElement_def setAttribute_def getAttribute_def
      app_def truthy_attr_def attr_value_def mount_placeholder_def init_skeleton_def
      component_of_def get_component_def object_prototype_names_def)

text \<open>
  C6. The claim: \<^verbatim>\<open>connected\<close> fires only after the instance's host root has been
  inserted into the host tree. The code, on the page-level path: for a placeholder of
  \<^verbatim>\<open>counter\<close> in the page skeleton, both hooks run while the host root has no parent
  (\<^verbatim>\<open>connectPage\<close> appends the element at line 326, after the hook of line 320).
\<close>

theorem connected_before_insertion_on_page_path:
  "log_of (connectPage logging_hooks 0 (placeholder []) (app ''{{state.count}}'')) =
     returns (Some [(''created'', JBool False), (''connected'', JBool False)])"
  by code_simp

text \<open>The sibling path, \<^verbatim>\<open>renderComponent\<close>, appends the host root first (line 182).\<close>

lemma connected_after_insertion_on_render_path:
  "log_of (renderComponent logging_hooks 0 (JStr ''counter'') (JStr ''1'') (app ''{{state.count}}'')) =
     returns (Some [(''created'', JBool False), (''connected'', JBool True)])"
  by code_simp

text \<open>
  C8, the claim as stated: a mount with a component name absent from the registry fails
  with a \<^verbatim>\<open>RegistryMissError\<close>. Mounting the unregistered name \<^verbatim>\<open>missing\<close> throws the
  \<^verbatim>\<open>TypeError\<close> of the property read at line 156.
\<close>

theorem mount_of_missing_component_throws_TypeError:
  "renderComponent no_hooks 0 (JStr ''missing'') (JStr ''1'') (app ''x'') = throws TypeError"
  by (simp add: renderComponent_def init_skeleton_def component_of_def get_component_def
      object_prototype_names_def app_def)

subsection \<open>What the node operations leave alone\<close>

lemma nodes_only_refl: "nodes_only w w"
  by (simp add: nodes_only_def)

lemma nodes_only_trans: "nodes_only w w1 \<Longrightarrow> nodes_only w1 w2 \<Longrightarrow> nodes_only w w2"
  by (simp add: nodes_only_def)

lemma same_children_refl: "same_children w w"
  by (simp add: same_children_def)

lemma same_children_trans: "same_children w w1 \<Longrightarrow> same_children w1 w2 \<Longrightarrow> same_children w w2"
  by (simp add: same_children_def)

lemma setAttribute_nodes_only: "setAttribute d k v w = Inr w' \<Longrightarrow> nodes_only w w'"
  by (auto simp: setAttribute_def nodes_only_def split: option.splits hnode.splits)

lemma setAttribute_same_children: "setAttribute d k v w = Inr w' \<Longrightarrow> same_children w w'"
  by (auto simp: setAttribute_def same_children_def child_nodes_def
      split: option.splits hnode.splits if_splits)

lemma set_nodeValue_nodes_only: "set_nodeValue d v w = Inr w' \<Longrightarrow> nodes_only w w'"
  by (auto simp: set_nodeValue_def nodes_only_def split: option.splits hnode.splits)

lemma set_nodeValue_same_children: "set_nodeValue d v w = Inr w' \<Longrightarrow> same_children w w'"
  by (auto simp: set_nodeValue_def same_children_def child_nodes_def
      split: option.splits hnode.splits if_splits)

subsection \<open>What the update engine can throw\<close>


















subsection \<open>The update engine changes values only\<close>

lemma update_attrs_frame:
  "update_attrs d attrs n k w = returns w' \<Longrightarrow> nodes_only w w' \<and> same_children w w'"
proof (induction d attrs n k w rule: update_attrs.induct)
  case (1 d n k w)
  then show ?case by (simp add: nodes_only_refl same_children_refl)
next
  case (2 d key v rest n k w)
  show ?case
  proof (cases "is_function v")
    case True
    with 2 show ?thesis by simp
  next
    case False
    with 2(3) obtain result r w1 where
      c: "convertTextVariables w v n k = returns result" and
      t: "to_string w result = Inr r" and
      s: "setAttribute d key r w = Inr w1" and
      u: "update_attrs d rest n k w1 = returns w'"
      by (auto split: option.splits sum.splits)
    from 2(1) [OF False c refl t s u] setAttribute_nodes_only [OF s] setAttribute_same_children [OF s]
    show ?thesis by (blast intro: nodes_only_trans same_children_trans)
  qed
qed

lemma update_frame:
  "updateComponent d sk n k w = returns w' \<Longrightarrow> nodes_only w w' \<and> same_children w w'"
  "update_children d i sks n k w = returns w' \<Longrightarrow> nodes_only w w' \<and> same_children w w'"
proof (induction d sk n k w and d i sks n k w arbitrary: w' and w'
    rule: updateComponent_update_children.induct)
  case (1 d s n k w)
  then obtain v t where "set_nodeValue d t w = Inr w'"
    by (auto split: option.splits sum.splits)
  then show ?case by (simp add: set_nodeValue_nodes_only set_nodeValue_same_children)
next
  case (2 d t attrs children n k w)
  from 2(2) obtain w1 where a: "update_attrs d (for_in attrs) n k w = returns w1"
    and c: "update_children d 0 children n k w1 = returns w'"
    by (auto split: option.splits sum.splits)
  from update_attrs_frame [OF a] 2(1) [OF a refl c] show ?case
    by (blast intro: nodes_only_trans same_children_trans)
next
  case (3 d i n k w)
  then show ?case
    by (auto simp: nodes_only_refl same_children_refl split: sum.splits if_splits)
next
  case (4 d i sk rest n k w)
  from 4(3) obtain cs where cs: "child_nodes d w = Inr cs"
    by (auto split: sum.splits)
  show ?case
  proof (cases "i < length cs")
    case False
    with 4(3) cs show ?thesis by (simp add: nodes_only_refl same_children_refl)
  next
    case True
    with 4(3) cs obtain w1 where
      u: "updateComponent (Some (cs ! i)) sk n k w = returns w1"
      and r: "update_children d (Suc i) rest n k w1 = returns w'"
      by (auto split: option.splits sum.splits)
    from 4(1) [OF cs True u] 4(2) [OF cs True u refl r] show ?thesis
      by (blast intro: nodes_only_trans same_children_trans)
  qed
qed






subsection \<open>\<^verbatim>\<open>setState\<close>\<close>

lemma to_string_heap: "heap w' = heap w \<Longrightarrow> to_string w' v = to_string w v"
  by (cases v) simp_all

lemma component_of_heap:
  assumes "components w' = components w" and "heap w' = heap w"
  shows "component_of w' v = component_of w v"
proof -
  have g: "get_component w' = get_component w"
    using assms(1) by (auto simp: get_component_def fun_eq_iff)
  have t: "to_string w' v = to_string w v"
    by (rule to_string_heap [OF assms(2)])
  show ?thesis unfolding component_of_def g t ..
qed

lemma component_of_nodes_only: "nodes_only w w' \<Longrightarrow> component_of w' v = component_of w v"
  by (rule component_of_heap) (simp_all add: nodes_only_def)

lemma updateComponent_opt_frame:
  "updateComponent_opt d sk n k w = returns w' \<Longrightarrow> nodes_only w w' \<and> same_children w w'"
  by (cases sk) (auto simp: updateComponent_opt_def dest: update_frame(1))

text \<open>
  C5. For a bound context whose instance is registered (entry \<open>en\<close>) and whose component
  is registered (definition \<open>c\<close>), \<^verbatim>\<open>setState(newState)\<close> is: the update engine, run on
  the first child \<open>fc\<close> of the entry's host root with the cached skeleton of \<open>c\<close>, in
  the world in which the entry already holds \<open>newState\<close> itself, with the host root it had;
  and then, on the world the update engine returns, the \<^verbatim>\<open>updated\<close> hook with this very
  context, when there is one. If the update engine throws or does not return, so does
  \<^verbatim>\<open>setState\<close>, and the hook is not run. When the hook runs, the entry still holds
  \<open>newState\<close>.
\<close>

theorem setState_order:
  assumes "get_entry w (ctx_elementKey this) = Inr en"
    and "firstChild (e_dom en) w = Inr fc"
    and "component_of w (ctx_name this) = Inr (n, c)"
  shows "setState H this newState w =
           bind (updateComponent_opt fc (c_skeleton c) (ctx_name this) (ctx_key this)
                   (w\<lparr>elements := (elements w)(ctx_elementKey this \<mapsto>
                                      en\<lparr>e_state := newState\<rparr>)\<rparr>))
             (\<lambda>w2. case H n of
                      None \<Rightarrow> returns w2
                    | Some hs \<Rightarrow> (case updated hs of None \<Rightarrow> returns w2 | Some f \<Rightarrow> f this w2))
         \<and> (\<forall>w2. updateComponent_opt fc (c_skeleton c) (ctx_name this) (ctx_key this)
                   (w\<lparr>elements := (elements w)(ctx_elementKey this \<mapsto>
                                      en\<lparr>e_state := newState\<rparr>)\<rparr>) = returns w2
                \<longrightarrow> elements w2 (ctx_elementKey this) = Some (en\<lparr>e_state := newState\<rparr>))"
proof -
  let ?e = "en\<lparr>e_state := newState\<rparr>"
  let ?w1 = "w\<lparr>elements := (elements w)(ctx_elementKey this \<mapsto> ?e)\<rparr>"
  let ?u = "updateComponent_opt fc (c_skeleton c) (ctx_name this) (ctx_key this) ?w1"
  from assms(1) have np: "ctx_elementKey this \<notin> set object_prototype_names"
    by (auto simp: get_entry_def split: if_splits)
  then have g1: "get_entry ?w1 (ctx_elementKey this) = Inr ?e"
    by (simp add: get_entry_def)
  have f1: "firstChild (e_dom en) ?w1 = Inr fc"
    using assms(2) by (simp add: firstChild_def child_nodes_def)
  have c1: "component_of ?w1 (ctx_name this) = Inr (n, c)"
    using assms(3) component_of_heap [of ?w1 w "ctx_name this"] by simp
  have after: "component_of w2 (ctx_name this) = Inr (n, c) \<and>
               elements w2 (ctx_elementKey this) = Some ?e" if "?u = returns w2" for w2
  proof -
    from updateComponent_opt_frame [OF that] have no: "nodes_only ?w1 w2" by blast
    from component_of_nodes_only [OF no] c1 no show ?thesis
      by (simp add: nodes_only_def)
  qed
  have "setState H this newState w =
          bind ?u (\<lambda>w2. bind (lift (component_of w2 (ctx_name this))) (\<lambda>(n', c').
             case H n' of
               None \<Rightarrow> returns w2
             | Some hs \<Rightarrow> (case updated hs of None \<Rightarrow> returns w2 | Some f \<Rightarrow> f this w2)))"
    using assms(1) g1 f1 c1 by (simp add: setState_def)
  also have "\<dots> = bind ?u (\<lambda>w2. case H n of
                      None \<Rightarrow> returns w2
                    | Some hs \<Rightarrow> (case updated hs of None \<Rightarrow> returns w2 | Some f \<Rightarrow> f this w2))"
  proof (cases ?u)
    case None
    then show ?thesis by simp
  next
    case (Some r)
    show ?thesis
    proof (cases r)
      case (Inl err)
      with Some show ?thesis by simp
    next
      case (Inr w2)
      with Some have "?u = returns w2" by simp
      from after [OF this] this show ?thesis by simp
    qed
  qed
  finally have eq: "setState H this newState w =
      bind ?u (\<lambda>w2. case H n of
                 None \<Rightarrow> returns w2
               | Some hs \<Rightarrow> (case updated hs of None \<Rightarrow> returns w2 | Some f \<Rightarrow> f this w2))" .
  show ?thesis
  proof (intro conjI allI impI)
    show "setState H this newState w =
      bind ?u (\<lambda>w2. case H n of
                 None \<Rightarrow> returns w2
               | Some hs \<Rightarrow> (case updated hs of None \<Rightarrow> returns w2 | Some f \<Rightarrow> f this w2))"
      by (rule eq)
  next
    fix w2
    assume "?u = returns w2"
    from after [OF this] show "elements w2 (ctx_elementKey this) = Some ?e" ..
  qed
qed

theorem setState_order_witness:
  "\<exists>w w2 w'.
     renderComponent observing_hooks 0 (JStr ''counter'') (JStr ''1'') (app ''{{state.count}}'') =
       returns w \<and>
     get_entry w ''counter1'' = Inr \<lparr>e_state = JObj 0, e_dom = 1\<rparr> \<and>
     firstChild 1 w = Inr (Some 2) \<and>
     component_of w (JStr ''counter'') =
       Inr (''counter'', (counter ''{{state.count}}'')
              \<lparr>c_skeleton := Some (SNode ''SPAN'' [] [SText ''{{state.count}}''])\<rparr>) \<and>
     nodes w 3 = Some (Text ''0'' (Some 2)) \<and>
     updateComponent_opt (Some 2) (Some (SNode ''SPAN'' [] [SText ''{{state.count}}'']))
       (JStr ''counter'') (JStr ''1'')
       (w\<lparr>elements := (elements w)(''counter1'' \<mapsto> \<lparr>e_state = JObj 1, e_dom = 1\<rparr>)\<rparr>) =
       returns w2 \<and>
     elements w2 ''counter1'' = Some \<lparr>e_state = JObj 1, e_dom = 1\<rparr> \<and>
     nodes w2 3 = Some (Text ''5'' (Some 2)) \<and>
     setState observing_hooks
       \<lparr>ctx_name = JStr ''counter'', ctx_key = JStr ''1'', ctx_dom = Some 2, ctx_state = JObj 0,
        ctx_elementKey = ''counter1''\<rparr> (JObj 1) w = returns w' \<and>
     observe_hook
       \<lparr>ctx_name = JStr ''counter'', ctx_key = JStr ''1'', ctx_dom = Some 2, ctx_state = JObj 0,
        ctx_elementKey = ''counter1''\<rparr> w2 = returns w' \<and>
     heap w' 2 = Some [(''state'', JObj 1), (''text'', JStr ''5'')]"
proof -
  let ?n = "JStr ''counter''" and ?k = "JStr ''1''"
  let ?ctx = "\<lparr>ctx_name = ?n, ctx_key = ?k, ctx_dom = Some 2, ctx_state = JObj 0,
                ctx_elementKey = ''counter1''\<rparr>"
  let ?sk = "SNode ''SPAN'' [] [SText ''{{state.count}}'']"
  let ?c = "(counter ''{{state.count}}'')\<lparr>c_skeleton := Some ?sk\<rparr>"
  let ?en = "\<lparr>e_state = JObj 0, e_dom = 1\<rparr>"
  let ?mount = "renderComponent observing_hooks 0 ?n ?k (app ''{{state.count}}'')"
  have "returned (bind ?mount (setState observing_hooks ?ctx (JObj 1)))"
    by code_simp
  then obtain w w' where m: "?mount = returns w"
    and s: "setState observing_hooks ?ctx (JObj 1) w = returns w'"
    by (auto simp: returned_iff bind_eq_returns)
  have "bind ?mount (\<lambda>w. returns (get_entry w ''counter1'', firstChild 1 w,
          component_of w ?n, nodes w 3)) =
        returns (Inr ?en, Inr (Some 2), Inr (''counter'', ?c), Some (Text ''0'' (Some 2)))"
    by code_simp
  with m have h1: "get_entry w (ctx_elementKey ?ctx) = Inr ?en"
    and h2: "firstChild (e_dom ?en) w = Inr (Some 2)"
    and h3: "component_of w (ctx_name ?ctx) = Inr (''counter'', ?c)"
    and n3: "nodes w 3 = Some (Text ''0'' (Some 2))"
    by simp_all
  let ?w1 = "w\<lparr>elements := (elements w)(''counter1'' \<mapsto> \<lparr>e_state = JObj 1, e_dom = 1\<rparr>)\<rparr>"
  note t = setState_order [OF h1 h2 h3, of observing_hooks "JObj 1"]
  from t s obtain w2 where
    u: "updateComponent_opt (Some 2) (Some ?sk) ?n ?k ?w1 = returns w2" and
    h: "observe_hook ?ctx w2 = returns w'"
    by (auto simp: bind_eq_returns observing_hooks_def)
  from t u have e2: "elements w2 ''counter1'' = Some \<lparr>e_state = JObj 1, e_dom = 1\<rparr>"
    by simp
  have "bind ?mount (\<lambda>w. bind (updateComponent_opt (Some 2) (Some ?sk) ?n ?k
          (w\<lparr>elements := (elements w)(''counter1'' \<mapsto> \<lparr>e_state = JObj 1, e_dom = 1\<rparr>)\<rparr>))
          (\<lambda>w2. returns (nodes w2 3))) = returns (Some (Text ''5'' (Some 2)))"
    by code_simp
  with m u have n2: "nodes w2 3 = Some (Text ''5'' (Some 2))"
    by simp
  from h e2 n2 have l: "heap w' 2 = Some [(''state'', JObj 1), (''text'', JStr ''5'')]"
    by (auto simp: observe_hook_def)
  from m h1 h2 h3 n3 u e2 n2 s h l show ?thesis
    by (intro exI [of _ w] exI [of _ w2] exI [of _ w']) simp
qed

subsection \<open>The attributes of a page element\<close>

lemma map_of_put: "map_of (put as k v) k' = (if k' = k then Some v else map_of as k')"
  by (induction as) auto

lemma page_attrs_node:
  assumes "page_attrs elem attrs w = Inr w'"
    and "nodes w elem = Some (Element t as cs p ls)"
  shows "\<exists>as'. nodes w' elem = Some (Element t as' cs p ls) \<and>
           (\<forall>k. k \<notin> fst ` set attrs \<longrightarrow> map_of as' k = map_of as k) \<and>
           (\<forall>k v. distinct (map fst attrs) \<longrightarrow> map_of attrs k = Some (JStr v)
               \<longrightarrow> map_of as' k = Some v)"
  using assms
proof (induction attrs arbitrary: w as)
  case Nil
  then show ?case by simp
next
  case (Cons a rest)
  obtain k0 v0 where a: "a = (k0, v0)" by (cases a)
  from Cons.prems(1) a obtain r w1 where
    r: "to_string w v0 = Inr r" and
    s: "setAttribute (Some elem) k0 r w = Inr w1" and
    rest: "page_attrs elem rest w1 = Inr w'"
    by (auto split: sum.splits)
  from s Cons.prems(2) have n1: "nodes w1 elem = Some (Element t (put as k0 r) cs p ls)"
    by (auto simp: setAttribute_def)
  from Cons.IH [OF rest n1] obtain as' where
    n': "nodes w' elem = Some (Element t as' cs p ls)" and
    other: "\<forall>k. k \<notin> fst ` set rest \<longrightarrow> map_of as' k = map_of (put as k0 r) k" and
    given: "\<forall>k v. distinct (map fst rest) \<longrightarrow> map_of rest k = Some (JStr v)
               \<longrightarrow> map_of as' k = Some v"
    by blast
  have "\<forall>k. k \<notin> fst ` set (a # rest) \<longrightarrow> map_of as' k = map_of as k"
    using other a by (simp add: map_of_put)
  moreover have "\<forall>k v. distinct (map fst (a # rest)) \<longrightarrow> map_of (a # rest) k = Some (JStr v)
               \<longrightarrow> map_of as' k = Some v"
  proof (intro allI impI)
    fix k v
    assume d: "distinct (map fst (a # rest))" and m: "map_of (a # rest) k = Some (JStr v)"
    show "map_of as' k = Some v"
    proof (cases "k = k0")
      case True
      with m a r have "r = v" by simp
      moreover from d a True have "k \<notin> fst ` set rest" by simp
      ultimately show ?thesis using other True by (simp add: map_of_put)
    next
      case False
      with m a have "map_of rest k = Some (JStr v)" by simp
      with given d show ?thesis by simp
    qed
  qed
  ultimately show ?case using n' by blast
qed

subsection \<open>What a mount does to the registries\<close>

lemma createElement_nodes_only: "nodes_only w (snd (createElement t w))"
  by (simp add: createElement_def nodes_only_def)

lemma createTextNode_nodes_only: "nodes_only w (snd (createTextNode t w))"
  by (simp add: createTextNode_def nodes_only_def)

lemma detach_nodes_only: "nodes_only w (detach c w)"
  by (simp add: detach_def nodes_only_def split: option.splits)

lemma appendChild_nodes_only: "appendChild d c w = Inr w' \<Longrightarrow> nodes_only w w'"
proof -
  assume a: "appendChild d c w = Inr w'"
  have "nodes_only (detach c w) w'"
    using a by (auto simp: appendChild_def nodes_only_def Let_def split: option.splits hnode.splits)
  with detach_nodes_only [of w c] show ?thesis by (rule nodes_only_trans)
qed

lemma addEventListener_nodes_only: "addEventListener d ev l w = Inr w' \<Longrightarrow> nodes_only w w'"
  by (auto simp: addEventListener_def nodes_only_def split: option.splits hnode.splits)

lemma connect_attrs_nodes_only:
  "connect_attrs elem attrs n k w = returns w' \<Longrightarrow> nodes_only w w'"
proof (induction elem attrs n k w rule: connect_attrs.induct)
  case (1 elem n k w)
  then show ?case by (simp add: nodes_only_refl)
next
  case (2 elem key v rest n k w)
  show ?case
  proof (cases "startsWith key ''on''")
    case True
    with 2(3) obtain w1 where
      a: "addEventListener elem (drop 2 key) \<lparr>l_handler = v, l_name = n, l_key = k\<rparr> w = Inr w1"
      and r: "connect_attrs elem rest n k w1 = returns w'"
      by (auto split: sum.splits)
    from 2(1) [OF True a r] addEventListener_nodes_only [OF a] show ?thesis
      by (blast intro: nodes_only_trans)
  next
    case False
    with 2(3) obtain result r w1 where
      c: "convertTextVariables w v n k = returns result" and
      t: "to_string w result = Inr r" and
      s: "setAttribute (Some elem) key r w = Inr w1" and
      u: "connect_attrs elem rest n k w1 = returns w'"
      by (auto split: option.splits sum.splits)
    from 2(2) [OF False c refl t s u] setAttribute_nodes_only [OF s] show ?thesis
      by (blast intro: nodes_only_trans)
  qed
qed

lemma connect_nodes_only:
  "connectComponent d sk n k w = returns w' \<Longrightarrow> nodes_only w w'"
  "connect_children elem sks n k w = returns w' \<Longrightarrow> nodes_only w w'"
proof (induction d sk n k w and elem sks n k w arbitrary: w' and w'
    rule: connectComponent_connect_children.induct)
  case (1 d s n k w)
  then obtain t textNode w1 where
    c: "createTextNode t w = (textNode, w1)" and
    a: "appendChild d textNode w1 = Inr w'"
    by (auto split: option.splits sum.splits prod.splits)
  from createTextNode_nodes_only [of w t] c have "nodes_only w w1" by simp
  from this appendChild_nodes_only [OF a] show ?case
    by (rule nodes_only_trans)
next
  case (2 d t attrs children n k w)
  obtain elem w1 where e: "createElement t w = (elem, w1)"
    by (cases "createElement t w")
  with 2(2) obtain w2 w3 where
    a: "connect_attrs elem (for_in attrs) n k w1 = returns w2" and
    c: "connect_children elem children n k w2 = returns w3" and
    p: "appendChild d elem w3 = Inr w'"
    by (auto split: option.splits sum.splits)
  from createElement_nodes_only [of w t] e have "nodes_only w w1" by simp
  with connect_attrs_nodes_only [OF a]
    2(1) [OF e [symmetric] refl a refl c] appendChild_nodes_only [OF p]
  show ?case by (blast intro: nodes_only_trans)
next
  case (3 elem n k w)
  then show ?case by (simp add: nodes_only_refl)
next
  case (4 elem c cs n k w)
  from 4(3) obtain w1 where
    a: "connectComponent elem c n k w = returns w1" and
    r: "connect_children elem cs n k w1 = returns w'"
    by (auto split: option.splits sum.splits)
  from 4(1) [OF a] 4(2) [OF a refl r] show ?case by (rule nodes_only_trans)
qed

lemma connectComponent_opt_nodes_only:
  "connectComponent_opt d sk n k w = returns w' \<Longrightarrow> nodes_only w w'"
  by (cases sk) (auto simp: connectComponent_opt_def dest: connect_nodes_only(1))

lemma to_string_primitive: "primitive v \<Longrightarrow> to_string w' v = to_string w v"
  by (cases v) simp_all

lemma js_plus_key_primitive:
  assumes "primitive a" and "primitive b"
  shows "js_plus_key w' a b = js_plus_key w a b"
proof -
  have ta: "to_string w' a = to_string w a" by (rule to_string_primitive [OF assms(1)])
  have tb: "to_string w' b = to_string w b" by (rule to_string_primitive [OF assms(2)])
  show ?thesis unfolding js_plus_key_def ta tb ..
qed

lemma call_hook_keeps:
  assumes "call_hook H h n k w = returns w'"
    and "\<And>m hs. H m = Some hs \<Longrightarrow> keeps_registries (h hs)"
  shows "components w' = components w \<and> elements w' = elements w"
proof (cases "component_of w n")
  case (Inl e)
  with assms(1) show ?thesis by (simp add: call_hook_def)
next
  case (Inr nc)
  obtain m c where nc: "nc = (m, c)" by (cases nc)
  show ?thesis
  proof (cases "H m")
    case None
    with assms(1) Inr nc show ?thesis by (simp add: call_hook_def)
  next
    case (Some hs)
    show ?thesis
    proof (cases "h hs")
      case None
      with assms(1) Inr nc Some show ?thesis by (simp add: call_hook_def)
    next
      case f: (Some f)
      with assms(1) Inr nc Some obtain this where "f this w = returns w'"
        by (auto simp: call_hook_def split: sum.splits)
      with assms(2) [OF Some] f show ?thesis
        unfolding keeps_registries_def by blast
    qed
  qed
qed

lemma init_skeleton_effect:
  assumes "init_skeleton cn w = returns w1"
  shows "\<exists>n c sk. component_of w cn = Inr (n, c) \<and>
           components w1 = (components w)(n \<mapsto> c\<lparr>c_skeleton := sk\<rparr>) \<and>
           elements w1 = elements w \<and> heap w1 = heap w \<and> nodes w1 = nodes w \<and>
           next_node w1 = next_node w"
proof (cases "component_of w cn")
  case (Inl e)
  with assms show ?thesis by (simp add: init_skeleton_def)
next
  case (Inr nc)
  obtain n c where nc: "nc = (n, c)" by (cases nc)
  from Inr nc have cw: "components w n = Some c"
    by (auto simp: component_of_def get_component_def split: sum.splits if_splits option.splits)
  then have same: "components w = (components w)(n \<mapsto> c\<lparr>c_skeleton := c_skeleton c\<rparr>)"
    by (auto simp: fun_eq_iff)
  show ?thesis
  proof (cases "c_skeleton c = None")
    case False
    with assms Inr nc have "w1 = w" by (simp add: init_skeleton_def)
    with Inr nc same show ?thesis by blast
  next
    case True
    show ?thesis
    proof (cases "find is_element (c_render c)")
      case None
      with assms Inr nc True have "w1 = w" by (simp add: init_skeleton_def)
      with Inr nc same show ?thesis by blast
    next
      case (Some child)
      with assms Inr nc True obtain sk where
        "w1 = w\<lparr>components := (components w)(n \<mapsto> c\<lparr>c_skeleton := sk\<rparr>)\<rparr>"
        by (auto simp: init_skeleton_def split: option.splits sum.splits)
      with Inr nc show ?thesis by auto
    qed
  qed
qed

lemma register_instance_effect:
  assumes "register_instance cn ck elem w = Inr w'"
  shows "\<exists>ek n c. js_plus_key w cn ck = Inr ek \<and> component_of w cn = Inr (n, c) \<and>
           ek \<notin> set object_prototype_names \<and>
           w' = w\<lparr>elements := (elements w)(ek \<mapsto> \<lparr>e_state = c_state c, e_dom = elem\<rparr>)\<rparr>"
  using assms
  by (auto simp: register_instance_def put_entry_def split: sum.splits if_splits)

lemma renderComponent_registers:
  assumes H: "hooks_keep_registries H" and pn: "primitive cn" and pk: "primitive ck"
    and r: "renderComponent H d cn ck w = returns w'"
  shows "\<exists>n c sk ek. component_of w cn = Inr (n, c) \<and> js_plus_key w cn ck = Inr ek \<and>
           ek \<notin> set object_prototype_names \<and>
           elements w' = (elements w)(ek \<mapsto> \<lparr>e_state = c_state c, e_dom = next_node w\<rparr>) \<and>
           components w' = (components w)(n \<mapsto> c\<lparr>c_skeleton := sk\<rparr>)"
proof -
  from r obtain w1 w3 w4 w5 w6 w7 w8 n k n' c' where
    i: "init_skeleton cn w = returns w1" and
    s1: "setAttribute (Some (next_node w1)) ''lucid-component'' n (snd (createElement ''div'' w1)) = Inr w3" and
    s2: "setAttribute (Some (next_node w1)) ''lucid-key'' k w3 = Inr w4" and
    rg: "register_instance cn ck (next_node w1) w4 = Inr w5" and
    h1: "call_hook H created cn ck w5 = returns w6" and
    co: "component_of w6 cn = Inr (n', c')" and
    cc: "connectComponent_opt (next_node w1) (c_skeleton c') cn ck w6 = returns w7" and
    ap: "appendChild d (next_node w1) w7 = Inr w8" and
    h2: "call_hook H connected cn ck w8 = returns w'"
    by (auto simp: renderComponent_def bind_eq_returns createElement_def split: prod.splits)
  from init_skeleton_effect [OF i] obtain n0 c sk where
    c0: "component_of w cn = Inr (n0, c)" and
    c1: "components w1 = (components w)(n0 \<mapsto> c\<lparr>c_skeleton := sk\<rparr>)" and
    e1: "elements w1 = elements w" and nn: "next_node w1 = next_node w"
    by blast
  have "nodes_only w1 w4"
    using createElement_nodes_only [of w1 "''div''"] setAttribute_nodes_only [OF s1]
      setAttribute_nodes_only [OF s2]
    by (blast intro: nodes_only_trans)
  then have c4: "components w4 = components w1" and e4: "elements w4 = elements w1"
    by (simp_all add: nodes_only_def)
  from register_instance_effect [OF rg] obtain ek n4 cmp where
    k4: "js_plus_key w4 cn ck = Inr ek" and
    co4: "component_of w4 cn = Inr (n4, cmp)" and
    np: "ek \<notin> set object_prototype_names" and
    w5: "w5 = w4\<lparr>elements := (elements w4)(ek \<mapsto> \<lparr>e_state = c_state cmp, e_dom = next_node w1\<rparr>)\<rparr>"
    by blast
  from k4 js_plus_key_primitive [OF pn pk, of w4 w] have k0: "js_plus_key w cn ck = Inr ek"
    by simp
  from c0 have tn: "to_string w cn = Inr n0" and cn0: "get_component w n0 = Inr c"
    by (auto simp: component_of_def split: sum.splits)
  from cn0 have n0p: "n0 \<notin> set object_prototype_names"
    by (auto simp: get_component_def split: if_splits)
  from tn to_string_primitive [OF pn, of w4 w] have "to_string w4 cn = Inr n0" by simp
  with co4 c4 c1 n0p have cmp: "cmp = c\<lparr>c_skeleton := sk\<rparr>"
    by (simp add: component_of_def get_component_def)
  from H have kc: "\<And>m hs. H m = Some hs \<Longrightarrow> keeps_registries (created hs)"
    and kn: "\<And>m hs. H m = Some hs \<Longrightarrow> keeps_registries (connected hs)"
    by (auto simp: hooks_keep_registries_def)
  from call_hook_keeps [OF h1 kc] have r6: "components w6 = components w5" "elements w6 = elements w5"
    by simp_all
  from connectComponent_opt_nodes_only [OF cc] appendChild_nodes_only [OF ap]
  have "nodes_only w6 w8" by (rule nodes_only_trans)
  then have r8: "components w8 = components w6" "elements w8 = elements w6"
    by (simp_all add: nodes_only_def)
  from call_hook_keeps [OF h2 kn] have r9: "components w' = components w8" "elements w' = elements w8"
    by simp_all
  have "elements w' = (elements w)(ek \<mapsto> \<lparr>e_state = c_state c, e_dom = next_node w\<rparr>)"
    using r9 r8 r6 w5 e4 e1 nn cmp by simp
  moreover have "components w' = (components w)(n0 \<mapsto> c\<lparr>c_skeleton := sk\<rparr>)"
    using r9 r8 r6 w5 c4 c1 by simp
  ultimately show ?thesis using c0 k0 np by blast
qed

lemma mount_placeholder_registers:
  assumes H: "hooks_keep_registries H" and pn: "primitive cn" and pk: "primitive ck"
    and r: "mount_placeholder H elem cn ck w = returns w'"
  shows "\<exists>n c sk ek. component_of w cn = Inr (n, c) \<and> js_plus_key w cn ck = Inr ek \<and>
           ek \<notin> set object_prototype_names \<and>
           elements w' = (elements w)(ek \<mapsto> \<lparr>e_state = c_state c, e_dom = elem\<rparr>) \<and>
           components w' = (components w)(n \<mapsto> c\<lparr>c_skeleton := sk\<rparr>)"
proof -
  from r have "\<exists>w1 w2 w3 w4 (en :: entry) (c' :: component).
      init_skeleton cn w = returns w1 \<and>
      register_instance cn ck elem w1 = Inr w2 \<and>
      call_hook H created cn ck w2 = returns w3 \<and>
      connectComponent_opt (e_dom en) (c_skeleton c') cn ck w3 = returns w4 \<and>
      call_hook H connected cn ck w4 = returns w'"
    by (fastforce simp: mount_placeholder_def bind_eq_returns)
  then obtain w1 w2 w3 w4 and en :: entry and c' :: component where
    i: "init_skeleton cn w = returns w1" and
    rg: "register_instance cn ck elem w1 = Inr w2" and
    h1: "call_hook H created cn ck w2 = returns w3" and
    cc: "connectComponent_opt (e_dom en) (c_skeleton c') cn ck w3 = returns w4" and
    h2: "call_hook H connected cn ck w4 = returns w'"
    by blast
  from init_skeleton_effect [OF i] obtain n0 c sk where
    c0: "component_of w cn = Inr (n0, c)" and
    c1: "components w1 = (components w)(n0 \<mapsto> c\<lparr>c_skeleton := sk\<rparr>)" and
    e1: "elements w1 = elements w"
    by blast
  from register_instance_effect [OF rg] obtain ek n1 cmp where
    k1: "js_plus_key w1 cn ck = Inr ek" and
    co1: "component_of w1 cn = Inr (n1, cmp)" and
    np: "ek \<notin> set object_prototype_names" and
    w2: "w2 = w1\<lparr>elements := (elements w1)(ek \<mapsto> \<lparr>e_state = c_state cmp, e_dom = elem\<rparr>)\<rparr>"
    by blast
  from k1 js_plus_key_primitive [OF pn pk, of w1 w] have k0: "js_plus_key w cn ck = Inr ek"
    by simp
  from c0 have tn: "to_string w cn = Inr n0" and cn0: "get_component w n0 = Inr c"
    by (auto simp: component_of_def split: sum.splits)
  from cn0 have n0p: "n0 \<notin> set object_prototype_names"
    by (auto simp: get_component_def split: if_splits)
  from tn to_string_primitive [OF pn, of w1 w] have "to_string w1 cn = Inr n0" by simp
  with co1 c1 n0p have cmp: "cmp = c\<lparr>c_skeleton := sk\<rparr>"
    by (simp add: component_of_def get_component_def)
  from H have kc: "\<And>m hs. H m = Some hs \<Longrightarrow> keeps_registries (created hs)"
    and kn: "\<And>m hs. H m = Some hs \<Longrightarrow> keeps_registries (connected hs)"
    by (auto simp: hooks_keep_registries_def)
  from call_hook_keeps [OF h1 kc] have r3: "components w3 = components w2" "elements w3 = elements w2"
    by simp_all
  from connectComponent_opt_nodes_only [OF cc]
  have r4: "components w4 = components w3" "elements w4 = elements w3"
    by (simp_all add: nodes_only_def)
  from call_hook_keeps [OF h2 kn] have r5: "components w' = components w4" "elements w' = elements w4"
    by simp_all
  have "elements w' = (elements w)(ek \<mapsto> \<lparr>e_state = c_state c, e_dom = elem\<rparr>)"
    using r5 r4 r3 w2 e1 cmp by simp
  moreover have "components w' = (components w)(n0 \<mapsto> c\<lparr>c_skeleton := sk\<rparr>)"
    using r5 r4 r3 w2 c1 by simp
  ultimately show ?thesis using c0 k0 np by blast
qed

lemma mounted_by_registers:
  assumes "hooks_keep_registries H" and "primitive cn" and "primitive ck"
    and "mounted_by H cn ck w w' root"
  shows "\<exists>n c sk ek. component_of w cn = Inr (n, c) \<and> js_plus_key w cn ck = Inr ek \<and>
           ek \<notin> set object_prototype_names \<and>
           elements w' = (elements w)(ek \<mapsto> \<lparr>e_state = c_state c, e_dom = root\<rparr>) \<and>
           components w' = (components w)(n \<mapsto> c\<lparr>c_skeleton := sk\<rparr>)"
proof -
  from assms(4) consider
    d where "renderComponent H d cn ck w = returns w'" and "root = next_node w"
    | "mount_placeholder H root cn ck w = returns w'"
    by (auto simp: mounted_by_def)
  then show ?thesis
  proof cases
    case 1
    from renderComponent_registers [OF assms(1) assms(2) assms(3) 1(1)] 1(2)
    show ?thesis by simp
  next
    case 2
    from mount_placeholder_registers [OF assms(1) assms(2) assms(3) 2]
    show ?thesis .
  qed
qed

lemma logging_hooks_keep_registries: "hooks_keep_registries logging_hooks"
  by (auto simp: hooks_keep_registries_def keeps_registries_def logging_hooks_def log_hook_def
      split: if_splits)

subsection \<open>Names and keys that the registries do not have\<close>

lemma page_attrs_nodes_only: "page_attrs elem attrs w = Inr w' \<Longrightarrow> nodes_only w w'"
proof (induction attrs arbitrary: w)
  case Nil
  then show ?case by (simp add: nodes_only_refl)
next
  case (Cons a rest)
  obtain k0 v0 where a: "a = (k0, v0)" by (cases a)
  from Cons.prems a obtain r w1 where
    s: "setAttribute (Some elem) k0 r w = Inr w1" and
    rest: "page_attrs elem rest w1 = Inr w'"
    by (auto split: sum.splits)
  from setAttribute_nodes_only [OF s] Cons.IH [OF rest] show ?case
    by (rule nodes_only_trans)
qed

lemma component_of_absent:
  "to_string w cn = Inr n \<Longrightarrow> n \<notin> set object_prototype_names \<Longrightarrow> components w n = None
     \<Longrightarrow> component_of w cn = Inl TypeError"
  by (simp add: component_of_def get_component_def)

text \<open>
  C8, as amended. There is no \<^verbatim>\<open>RegistryMissError\<close> and no registry check. With a
  component name that the definition registry does not have, every mount fails with the
  \<^verbatim>\<open>TypeError\<close> of the property read on \<^verbatim>\<open>undefined\<close>: \<^verbatim>\<open>renderComponent\<close>
  (line 156), the placeholder branch of \<^verbatim>\<open>connectPage\<close> (line 292), and so
  \<^verbatim>\<open>connectPage\<close> itself on an element whose attributes name such a component. For a name
  and key whose element key the instance registry does not have, so do a disconnect (line
  230), the making of a bound context (line 385) and \<^verbatim>\<open>setState\<close> (line 389). For a
  registered instance whose component name the definition registry does not have, so do
  \<^verbatim>\<open>setState\<close> (line 393 at the latest) and, once the host root has been taken out of
  its parent, a disconnect (line 236).
\<close>

theorem registry_miss_throws_TypeError:
  "(to_string w componentName = Inr n \<and> n \<notin> set object_prototype_names \<and> components w n = None
      \<longrightarrow> renderComponent H d componentName componentKey w = throws TypeError \<and>
          mount_placeholder H elem componentName componentKey w = throws TypeError) \<and>
   (page_attrs (next_node w) (for_in attrs) (snd (createElement t w)) = Inr w2 \<and>
    (truthy_attr (getAttribute (next_node w) ''lucid-component'' w2) \<or>
     truthy_attr (getAttribute (next_node w) ''lucid-key'' w2)) \<and>
    to_string w (attr_value (getAttribute (next_node w) ''lucid-component'' w2)) = Inr n \<and>
    n \<notin> set object_prototype_names \<and> components w n = None
      \<longrightarrow> connectPage H d (SNode t attrs children) w = throws TypeError) \<and>
   (js_plus_key w componentName componentKey = Inr ek \<and> ek \<notin> set object_prototype_names \<and>
    elements w ek = None
      \<longrightarrow> disconnectComponent H componentName componentKey w = throws TypeError \<and>
          getThisParameter w componentName componentKey = Inl TypeError \<and>
          setState H (this\<lparr>ctx_elementKey := ek\<rparr>) newState w = throws TypeError) \<and>
   (to_string w (ctx_name this) = Inr n \<and> n \<notin> set object_prototype_names \<and>
    components w n = None \<and> get_entry w (ctx_elementKey this) = Inr en
      \<longrightarrow> setState H this newState w = throws TypeError) \<and>
   (to_string w componentName = Inr n \<and> n \<notin> set object_prototype_names \<and>
    components w n = None \<and> js_plus_key w componentName componentKey = Inr ek \<and>
    get_entry w ek = Inr en \<and> remove_from_parent (e_dom en) w = Inr w1
      \<longrightarrow> disconnectComponent H componentName componentKey w = throws TypeError)"
proof (intro conjI impI; (elim conjE)?)
  assume a: "to_string w componentName = Inr n" "n \<notin> set object_prototype_names"
    "components w n = None"
  from component_of_absent [OF a]
  show "renderComponent H d componentName componentKey w = throws TypeError"
    by (simp add: renderComponent_def init_skeleton_def)
  from component_of_absent [OF a]
  show "mount_placeholder H elem componentName componentKey w = throws TypeError"
    by (simp add: mount_placeholder_def init_skeleton_def)
next
  let ?e = "next_node w"
  let ?cn = "attr_value (getAttribute ?e ''lucid-component'' w2)"
  assume p: "page_attrs ?e (for_in attrs) (snd (createElement t w)) = Inr w2"
    and tr: "truthy_attr (getAttribute ?e ''lucid-component'' w2) \<or>
             truthy_attr (getAttribute ?e ''lucid-key'' w2)"
    and a: "to_string w ?cn = Inr n" "n \<notin> set object_prototype_names" "components w n = None"
  from createElement_nodes_only [of w t] page_attrs_nodes_only [OF p]
  have no: "nodes_only w w2" by (rule nodes_only_trans)
  from component_of_nodes_only [OF no, of ?cn] component_of_absent [OF a]
  have "component_of w2 ?cn = Inl TypeError" by simp
  then have "mount_placeholder H ?e ?cn (attr_value (getAttribute ?e ''lucid-key'' w2)) w2
               = throws TypeError"
    by (simp add: mount_placeholder_def init_skeleton_def)
  with p tr show "connectPage H d (SNode t attrs children) w = throws TypeError"
    by (simp add: createElement_def)
next
  assume "js_plus_key w componentName componentKey = Inr ek"
    "ek \<notin> set object_prototype_names" "elements w ek = None"
  then show "disconnectComponent H componentName componentKey w = throws TypeError"
    "getThisParameter w componentName componentKey = Inl TypeError"
    "setState H (this\<lparr>ctx_elementKey := ek\<rparr>) newState w = throws TypeError"
    by (simp_all add: disconnectComponent_def getThisParameter_def setState_def get_entry_def)
next
  let ?ek = "ctx_elementKey this"
  let ?w1 = "w\<lparr>elements := (elements w)(?ek \<mapsto> en\<lparr>e_state := newState\<rparr>)\<rparr>"
  assume a: "to_string w (ctx_name this) = Inr n" "n \<notin> set object_prototype_names"
    "components w n = None" and g: "get_entry w ?ek = Inr en"
  from g have np: "?ek \<notin> set object_prototype_names"
    by (auto simp: get_entry_def split: if_splits)
  then have g1: "get_entry ?w1 ?ek = Inr (en\<lparr>e_state := newState\<rparr>)"
    by (simp add: get_entry_def)
  have c1: "component_of ?w1 (ctx_name this) = Inl TypeError"
    using component_of_absent [OF a] component_of_heap [of ?w1 w "ctx_name this"] by simp
  have "firstChild (e_dom en) ?w1 = Inl TypeError \<or> (\<exists>fc. firstChild (e_dom en) ?w1 = Inr fc)"
    by (auto simp: firstChild_def child_nodes_def split: option.splits hnode.splits)
  with g g1 c1 show "setState H this newState w = throws TypeError"
    by (auto simp: setState_def)
next
  assume a: "to_string w componentName = Inr n" "n \<notin> set object_prototype_names"
    "components w n = None" and k: "js_plus_key w componentName componentKey = Inr ek"
    and g: "get_entry w ek = Inr en" and r: "remove_from_parent (e_dom en) w = Inr w1"
  have "nodes_only w w1"
    using r detach_nodes_only [of w "e_dom en"]
    by (auto simp: remove_from_parent_def split: option.splits if_splits)
  from component_of_nodes_only [OF this, of componentName] component_of_absent [OF a]
  have "component_of w1 componentName = Inl TypeError" by simp
  with k g r show "disconnectComponent H componentName componentKey w = throws TypeError"
    by (simp add: disconnectComponent_def call_hook_def)
qed

theorem registry_miss_throws_TypeError_witness:
  "(to_string (app ''x'') (JStr ''missing'') = Inr ''missing'' \<and>
    ''missing'' \<notin> set object_prototype_names \<and> components (app ''x'') ''missing'' = None) \<and>
   renderComponent no_hooks 0 (JStr ''missing'') (JStr ''7'') (app ''x'') = throws TypeError \<and>
   mount_placeholder no_hooks 0 (JStr ''missing'') (JStr ''7'') (app ''x'') = throws TypeError \<and>
   (\<exists>w2. page_attrs (next_node (app ''x''))
            (for_in [(''lucid-component'', JStr ''missing''), (''lucid-key'', JStr ''7'')])
            (snd (createElement ''DIV'' (app ''x''))) = Inr w2 \<and>
         truthy_attr (getAttribute (next_node (app ''x'')) ''lucid-component'' w2) \<and>
         to_string (app ''x'')
           (attr_value (getAttribute (next_node (app ''x'')) ''lucid-component'' w2)) =
           Inr ''missing'') \<and>
   connectPage no_hooks 0
     (SNode ''DIV'' [(''lucid-component'', JStr ''missing''), (''lucid-key'', JStr ''7'')] [])
     (app ''x'') = throws TypeError \<and>
   (js_plus_key (app ''x'') (JStr ''missing'') (JStr ''7'') = Inr ''missing7'' \<and>
    ''missing7'' \<notin> set object_prototype_names \<and> elements (app ''x'') ''missing7'' = None) \<and>
   disconnectComponent no_hooks (JStr ''missing'') (JStr ''7'') (app ''x'') = throws TypeError \<and>
   getThisParameter (app ''x'') (JStr ''missing'') (JStr ''7'') = Inl TypeError \<and>
   setState no_hooks
     \<lparr>ctx_name = JStr ''missing'', ctx_key = JStr ''7'', ctx_dom = None, ctx_state = JUndefined,
      ctx_elementKey = ''missing7''\<rparr> JNull (app ''x'') = throws TypeError \<and>
   (to_string orphaned (JStr ''counter'') = Inr ''counter'' \<and>
    ''counter'' \<notin> set object_prototype_names \<and> components orphaned ''counter'' = None \<and>
    js_plus_key orphaned (JStr ''counter'') (JStr ''1'') = Inr ''counter1'' \<and>
    get_entry orphaned ''counter1'' = Inr \<lparr>e_state = JObj 0, e_dom = 1\<rparr> \<and>
    (\<exists>w1. remove_from_parent 1 orphaned = Inr w1)) \<and>
   setState no_hooks
     \<lparr>ctx_name = JStr ''counter'', ctx_key = JStr ''1'', ctx_dom = None, ctx_state = JObj 0,
      ctx_elementKey = ''counter1''\<rparr> (JObj 1) orphaned = throws TypeError \<and>
   disconnectComponent no_hooks (JStr ''counter'') (JStr ''1'') orphaned = throws TypeError"
proof -
  let ?attrs = "[(''lucid-component'', JStr ''missing''), (''lucid-key'', JStr ''7'')]"
  let ?m = "\<lparr>ctx_name = JStr ''missing'', ctx_key = JStr ''7'', ctx_dom = None,
             ctx_state = JUndefined, ctx_elementKey = ''missing7''\<rparr>"
  let ?c = "\<lparr>ctx_name = JStr ''counter'', ctx_key = JStr ''1'', ctx_dom = None,
             ctx_state = JObj 0, ctx_elementKey = ''counter1''\<rparr>"
  let ?en = "\<lparr>e_state = JObj 0, e_dom = 1\<rparr>"
  have h1: "to_string (app ''x'') (JStr ''missing'') = Inr ''missing'' \<and>
    ''missing'' \<notin> set object_prototype_names \<and> components (app ''x'') ''missing'' = None"
    by (simp add: object_prototype_names_def app_def)
  have h2: "\<exists>w2. page_attrs (next_node (app ''x'')) (for_in ?attrs)
            (snd (createElement ''DIV'' (app ''x''))) = Inr w2 \<and>
         truthy_attr (getAttribute (next_node (app ''x'')) ''lucid-component'' w2) \<and>
         to_string (app ''x'')
           (attr_value (getAttribute (next_node (app ''x'')) ''lucid-component'' w2)) =
           Inr ''missing''"
    by (simp add: for_in_def array_index_def createElement_def setAttribute_def getAttribute_def
        app_def truthy_attr_def attr_value_def)
  have h3: "js_plus_key (app ''x'') (JStr ''missing'') (JStr ''7'') = Inr ''missing7'' \<and>
    ''missing7'' \<notin> set object_prototype_names \<and> elements (app ''x'') ''missing7'' = None"
    by (simp add: js_plus_key_def object_prototype_names_def app_def)
  have h4: "to_string orphaned (JStr ''counter'') = Inr ''counter'' \<and>
    ''counter'' \<notin> set object_prototype_names \<and> components orphaned ''counter'' = None \<and>
    js_plus_key orphaned (JStr ''counter'') (JStr ''1'') = Inr ''counter1''"
    by (simp add: js_plus_key_def object_prototype_names_def orphaned_def)
  have h5: "get_entry orphaned ''counter1'' = Inr ?en"
    by (simp add: get_entry_def orphaned_def registered_def object_prototype_names_def)
  have h6: "\<exists>w1. remove_from_parent 1 orphaned = Inr w1"
    by (simp add: remove_from_parent_def orphaned_def registered_def)
  from h2 obtain w2 where p: "page_attrs (next_node (app ''x'')) (for_in ?attrs)
            (snd (createElement ''DIV'' (app ''x''))) = Inr w2 \<and>
         truthy_attr (getAttribute (next_node (app ''x'')) ''lucid-component'' w2) \<and>
         to_string (app ''x'')
           (attr_value (getAttribute (next_node (app ''x'')) ''lucid-component'' w2)) =
           Inr ''missing''" ..
  from h6 obtain w1 where r: "remove_from_parent 1 orphaned = Inr w1" ..
  note a = registry_miss_throws_TypeError
    [where w = "app ''x''" and componentName = "JStr ''missing''" and n = "''missing''"
       and H = no_hooks and d = 0 and componentKey = "JStr ''7''" and elem = 0
       and attrs = ?attrs and t = "''DIV''" and ?w2.0 = w2 and children = "[]"
       and ek = "''missing7''" and this = ?m and newState = JNull]
  note b = registry_miss_throws_TypeError
    [where w = orphaned and componentName = "JStr ''counter''" and n = "''counter''"
       and H = no_hooks and componentKey = "JStr ''1''" and ek = "''counter1''"
       and this = ?c and newState = "JObj 1" and en = ?en and ?w1.0 = w1]
  from a h1 h3 p have
    "renderComponent no_hooks 0 (JStr ''missing'') (JStr ''7'') (app ''x'') = throws TypeError"
    "mount_placeholder no_hooks 0 (JStr ''missing'') (JStr ''7'') (app ''x'') = throws TypeError"
    "connectPage no_hooks 0 (SNode ''DIV'' ?attrs []) (app ''x'') = throws TypeError"
    "disconnectComponent no_hooks (JStr ''missing'') (JStr ''7'') (app ''x'') = throws TypeError"
    "getThisParameter (app ''x'') (JStr ''missing'') (JStr ''7'') = Inl TypeError"
    "setState no_hooks ?m JNull (app ''x'') = throws TypeError"
    by simp_all
  moreover from b h4 h5 r have
    "setState no_hooks ?c (JObj 1) orphaned = throws TypeError"
    "disconnectComponent no_hooks (JStr ''counter'') (JStr ''1'') orphaned = throws TypeError"
    by simp_all
  ultimately show ?thesis using h1 h2 h3 h4 h5 h6 by simp
qed

subsection \<open>Element keys\<close>

lemma getThisParameter_key:
  assumes "primitive n" and "primitive k" and "js_plus_key w n k = Inr ek"
  shows "ctx_instance (getThisParameter v n k) =
           (case get_entry v ek of
              Inl e \<Rightarrow> Inl e
            | Inr en \<Rightarrow> (case firstChild (e_dom en) v of
                          Inl e \<Rightarrow> Inl e
                        | Inr fc \<Rightarrow> Inr (fc, e_state en, ek)))"
proof -
  from assms(3) js_plus_key_primitive [OF assms(1,2), of v w]
  have "js_plus_key v n k = Inr ek" by simp
  then show ?thesis
    by (simp add: getThisParameter_def ctx_instance_def split: sum.splits)
qed

lemma setState_entry:
  assumes H: "hooks_keep_registries H"
    and s: "setState H t newState v = returns v'"
  shows "\<exists>en. elements v (ctx_elementKey t) = Some en \<and>
           elements v' (ctx_elementKey t) = Some (en\<lparr>e_state := newState\<rparr>)"
proof -
  let ?ek = "ctx_elementKey t"
  from s obtain en where g: "get_entry v ?ek = Inr en"
    by (auto simp: setState_def bind_eq_returns)
  let ?v1 = "v\<lparr>elements := (elements v)(?ek \<mapsto> en\<lparr>e_state := newState\<rparr>)\<rparr>"
  from s g have "\<exists>fc (c::component) v2 n'.
      updateComponent_opt fc (c_skeleton c) (ctx_name t) (ctx_key t) ?v1 = returns v2 \<and>
      (case H n' of
         None \<Rightarrow> returns v2
       | Some hs \<Rightarrow> (case updated hs of None \<Rightarrow> returns v2 | Some f \<Rightarrow> f t v2)) = returns v'"
    by (fastforce simp: setState_def bind_eq_returns Let_def)
  then obtain fc and c :: component and v2 n' where
    u: "updateComponent_opt fc (c_skeleton c) (ctx_name t) (ctx_key t) ?v1 = returns v2" and
    h: "(case H n' of
           None \<Rightarrow> returns v2
         | Some hs \<Rightarrow> (case updated hs of None \<Rightarrow> returns v2 | Some f \<Rightarrow> f t v2)) = returns v'"
    by blast
  from updateComponent_opt_frame [OF u] have e2: "elements v2 = elements ?v1"
    by (simp add: nodes_only_def)
  have "elements v' = elements v2"
  proof (cases "H n'")
    case None
    with h show ?thesis by simp
  next
    case (Some hs)
    show ?thesis
    proof (cases "updated hs")
      case None
      with h Some show ?thesis by simp
    next
      case f: (Some f)
      with h Some have "f t v2 = returns v'" by simp
      moreover from H Some have "keeps_registries (updated hs)"
        by (auto simp: hooks_keep_registries_def)
      ultimately show ?thesis using f unfolding keeps_registries_def by blast
    qed
  qed
  with e2 have "elements v' ?ek = Some (en\<lparr>e_state := newState\<rparr>)" by simp
  moreover from g have "elements v ?ek = Some en"
    by (auto simp: get_entry_def split: if_splits option.splits)
  ultimately show ?thesis by blast
qed

lemma disconnectComponent_clears:
  assumes "disconnectComponent H n k v = returns v'" and "js_plus_key v n k = Inr ek"
  shows "elements v' ek = None"
  using assms by (auto simp: disconnectComponent_def bind_eq_returns)

text \<open>
  C9. Let two pairs of name and key have the same element key \<open>ek\<close> (names and keys being
  strings, numbers or other primitive values), let the registry hold an entry \<open>e1\<close> under
  \<open>ek\<close>, say of the first pair, and let hooks leave the registries alone. A mount of the
  second pair that returns, by \<^verbatim>\<open>renderComponent\<close> or as a placeholder of the page,
  leaves under \<open>ek\<close> the entry of the second instance, and no longer \<open>e1\<close>: the state of
  its definition and the host root of this mount (a node other than the host root of
  \<open>e1\<close>). From then on, in any world: the bound contexts of the two pairs show the same
  rendered root, the same state and the same element key; a \<^verbatim>\<open>setState\<close> through a
  context of the first pair writes the state of the one entry under \<open>ek\<close>; a disconnect
  of the first pair clears that entry.
\<close>

theorem colliding_pairs_share_one_entry:
  assumes "hooks_keep_registries H"
    and "primitive n1" and "primitive k1" and "primitive n2" and "primitive k2"
    and "js_plus_key w n1 k1 = Inr ek" and "js_plus_key w n2 k2 = Inr ek"
    and "elements w ek = Some e1" and "e_dom e1 \<noteq> root"
    and "mounted_by H n2 k2 w w' root"
  shows "(\<exists>n c. component_of w n2 = Inr (n, c) \<and>
            elements w' ek = Some \<lparr>e_state = c_state c, e_dom = root\<rparr>) \<and>
         elements w' ek \<noteq> Some e1 \<and>
         (\<forall>v. ctx_instance (getThisParameter v n1 k1) = ctx_instance (getThisParameter v n2 k2)) \<and>
         (\<forall>v v' t s. getThisParameter v n1 k1 = Inr t \<longrightarrow> setState H t s v = returns v' \<longrightarrow>
            (\<exists>en. elements v ek = Some en \<and> elements v' ek = Some (en\<lparr>e_state := s\<rparr>))) \<and>
         (\<forall>v v'. disconnectComponent H n1 k1 v = returns v' \<longrightarrow> elements v' ek = None)"
proof (intro conjI allI impI)
  from mounted_by_registers [OF assms(1) assms(4) assms(5) assms(10)] assms(7)
  show "\<exists>n c. component_of w n2 = Inr (n, c) \<and>
            elements w' ek = Some \<lparr>e_state = c_state c, e_dom = root\<rparr>"
    by auto
next
  from mounted_by_registers [OF assms(1) assms(4) assms(5) assms(10)] assms(7)
  obtain c :: component where
    "elements w' ek = Some \<lparr>e_state = c_state c, e_dom = root\<rparr>"
    by auto
  with assms(9) show "elements w' ek \<noteq> Some e1" by auto
next
  fix v
  show "ctx_instance (getThisParameter v n1 k1) = ctx_instance (getThisParameter v n2 k2)"
    by (simp only: getThisParameter_key [OF assms(2) assms(3) assms(6)]
        getThisParameter_key [OF assms(4) assms(5) assms(7)])
next
  fix v v' t s
  assume g: "getThisParameter v n1 k1 = Inr t" and s: "setState H t s v = returns v'"
  from assms(6) js_plus_key_primitive [OF assms(2) assms(3), of v w]
  have "js_plus_key v n1 k1 = Inr ek" by simp
  with g have "ctx_elementKey t = ek"
    by (auto simp: getThisParameter_def split: sum.splits)
  with setState_entry [OF assms(1) s]
  show "\<exists>en. elements v ek = Some en \<and> elements v' ek = Some (en\<lparr>e_state := s\<rparr>)"
    by simp
next
  fix v v'
  assume d: "disconnectComponent H n1 k1 v = returns v'"
  from assms(6) js_plus_key_primitive [OF assms(2) assms(3), of v w]
  have "js_plus_key v n1 k1 = Inr ek" by simp
  from disconnectComponent_clears [OF d this] show "elements v' ek = None" .
qed


theorem colliding_pairs_share_one_entry_witness:
  "hooks_keep_registries logging_hooks \<and>
   primitive (JStr ''a'') \<and> primitive (JStr ''bc'') \<and>
   primitive (JStr ''ab'') \<and> primitive (JStr ''c'') \<and>
   (\<exists>w w' t v v'.
      renderComponent logging_hooks 0 (JStr ''a'') (JStr ''bc'') two_components = returns w \<and>
      js_plus_key w (JStr ''a'') (JStr ''bc'') = Inr ''abc'' \<and>
      js_plus_key w (JStr ''ab'') (JStr ''c'') = Inr ''abc'' \<and>
      elements w ''abc'' = Some \<lparr>e_state = JObj 0, e_dom = 1\<rparr> \<and>
      e_dom \<lparr>e_state = JObj 0, e_dom = 1\<rparr> \<noteq> 4 \<and>
      mounted_by logging_hooks (JStr ''ab'') (JStr ''c'') w w' 4 \<and>
      elements w' ''abc'' = Some \<lparr>e_state = JObj 1, e_dom = 4\<rparr> \<and>
      ctx_instance (getThisParameter w' (JStr ''a'') (JStr ''bc'')) =
        ctx_instance (getThisParameter w' (JStr ''ab'') (JStr ''c'')) \<and>
      getThisParameter w' (JStr ''a'') (JStr ''bc'') = Inr t \<and>
      ctx_dom t = Some 5 \<and> ctx_state t = JObj 1 \<and>
      setState logging_hooks t (JObj 0) w' = returns v \<and>
      elements v ''abc'' = Some \<lparr>e_state = JObj 0, e_dom = 4\<rparr> \<and>
      disconnectComponent logging_hooks (JStr ''a'') (JStr ''bc'') v = returns v' \<and>
      elements v' ''abc'' = None)"
proof -
  let ?H = logging_hooks
  let ?n1 = "JStr ''a''" and ?k1 = "JStr ''bc''" and ?n2 = "JStr ''ab''" and ?k2 = "JStr ''c''"
  let ?e1 = "\<lparr>e_state = JObj 0, e_dom = 1\<rparr>"
  let ?mount = "renderComponent ?H 0 ?n1 ?k1 two_components"
  have "returned
     (bind ?mount (\<lambda>w.
      bind (renderComponent ?H 0 ?n2 ?k2 w) (\<lambda>w'.
      bind (lift (getThisParameter w' ?n1 ?k1)) (\<lambda>t.
      bind (setState ?H t (JObj 0) w') (\<lambda>v.
        disconnectComponent ?H ?n1 ?k1 v)))))"
    by code_simp
  then obtain w w' t v v' where
    m1: "?mount = returns w" and
    m2: "renderComponent ?H 0 ?n2 ?k2 w = returns w'" and
    g: "getThisParameter w' ?n1 ?k1 = Inr t" and
    s: "setState ?H t (JObj 0) w' = returns v" and
    d: "disconnectComponent ?H ?n1 ?k1 v = returns v'"
    by (auto simp: returned_iff bind_eq_returns)
  have p: "primitive ?n1" "primitive ?k1" "primitive ?n2" "primitive ?k2"
    by simp_all
  have k1: "js_plus_key w ?n1 ?k1 = Inr ''abc''"
    by (simp add: js_plus_key_def)
  have k2: "js_plus_key w ?n2 ?k2 = Inr ''abc''"
    by (simp add: js_plus_key_def)
  have "bind ?mount (\<lambda>w. returns (elements w ''abc'', next_node w,
          case component_of w ?n2 of Inl e \<Rightarrow> None | Inr (n, c) \<Rightarrow> Some (c_state c))) =
        returns (Some ?e1, 4, Some (JObj 1))"
    by code_simp
  with m1 have e: "elements w ''abc'' = Some ?e1" and n: "next_node w = 4"
    and c: "(case component_of w ?n2 of Inl e \<Rightarrow> None | Inr (n, c) \<Rightarrow> Some (c_state c)) =
              Some (JObj 1)"
    by simp_all
  have lt: "e_dom ?e1 \<noteq> 4"
    by simp
  from m2 n have mb: "mounted_by ?H ?n2 ?k2 w w' 4"
    by (auto simp: mounted_by_def)
  note th = colliding_pairs_share_one_entry
    [OF logging_hooks_keep_registries p(1) p(2) p(3) p(4) k1 k2 e lt mb]
  from th c have e': "elements w' ''abc'' = Some \<lparr>e_state = JObj 1, e_dom = 4\<rparr>"
    by auto
  from th have same: "ctx_instance (getThisParameter w' ?n1 ?k1) =
      ctx_instance (getThisParameter w' ?n2 ?k2)"
    by blast
  from th g s have "\<exists>en. elements w' ''abc'' = Some en \<and>
      elements v ''abc'' = Some (en\<lparr>e_state := JObj 0\<rparr>)"
    by blast
  with e' have ev: "elements v ''abc'' = Some \<lparr>e_state = JObj 0, e_dom = 4\<rparr>"
    by auto
  from th d have ev': "elements v' ''abc'' = None"
    by blast
  have "bind ?mount (\<lambda>w. bind (renderComponent ?H 0 ?n2 ?k2 w) (\<lambda>w'.
          returns (ctx_instance (getThisParameter w' ?n1 ?k1)))) =
        returns (Inr (Some 5, JObj 1, ''abc''))"
    by code_simp
  with m1 m2 g have t: "ctx_dom t = Some 5" "ctx_state t = JObj 1"
    by (simp_all add: ctx_instance_def)
  from m1 k1 k2 e lt mb e' same g t s ev d ev' have
    "\<exists>w w' t v v'.
      ?mount = returns w \<and>
      js_plus_key w ?n1 ?k1 = Inr ''abc'' \<and>
      js_plus_key w ?n2 ?k2 = Inr ''abc'' \<and>
      elements w ''abc'' = Some ?e1 \<and>
      e_dom ?e1 \<noteq> 4 \<and>
      mounted_by ?H ?n2 ?k2 w w' 4 \<and>
      elements w' ''abc'' = Some \<lparr>e_state = JObj 1, e_dom = 4\<rparr> \<and>
      ctx_instance (getThisParameter w' ?n1 ?k1) = ctx_instance (getThisParameter w' ?n2 ?k2) \<and>
      getThisParameter w' ?n1 ?k1 = Inr t \<and>
      ctx_dom t = Some 5 \<and> ctx_state t = JObj 1 \<and>
      setState ?H t (JObj 0) w' = returns v \<and>
      elements v ''abc'' = Some \<lparr>e_state = JObj 0, e_dom = 4\<rparr> \<and>
      disconnectComponent ?H ?n1 ?k1 v = returns v' \<and>
      elements v' ''abc'' = None"
    by (intro exI [of _ w] exI [of _ w'] exI [of _ t] exI [of _ v] exI [of _ v']) simp
  with logging_hooks_keep_registries p show ?thesis by simp
qed

subsection \<open>The state object of a definition\<close>

lemma resolve_state_field:
  assumes "elements v ek = Some en" and "ek \<notin> set object_prototype_names"
    and "e_state en = JObj a" and "heap v a = Some props"
  shows "resolve_in_entry v ek [''state'', p] = own_or_undefined props p"
  using assms
  by (simp add: resolve_in_entry_def get_entry_def entry_prop_def split: sum.splits)

text \<open>
  C10. \<^verbatim>\<open>createComponent\<close> keeps the \<^verbatim>\<open>state\<close> value it is given. Let hooks leave the
  registries alone, and let two instances of one definition be mounted one after the
  other, each by \<^verbatim>\<open>renderComponent\<close> or as a placeholder of the page, under different
  element keys. Then both registry entries hold the \<^verbatim>\<open>state\<close> value of the definition
  itself; a bound context of either instance shows that value as its \<^verbatim>\<open>state\<close>; and
  when the value is a reference to an object \<open>a\<close>, whatever properties an in-place
  mutation gives to \<open>a\<close>, the path \<^verbatim>\<open>state.p\<close> resolves to the mutated property for the
  one instance and for the other.
\<close>

theorem instances_share_the_state_object:
  assumes "hooks_keep_registries H"
    and "primitive cn" and "primitive k1" and "primitive k2"
    and "mounted_by H cn k1 w w1 r1"
    and "mounted_by H cn k2 w1 w2 r2"
    and "js_plus_key w cn k1 \<noteq> js_plus_key w cn k2"
  shows "c_state (createComponent name props) = p_state props \<and>
         (\<exists>n c ek1 ek2 e1 e2.
           component_of w cn = Inr (n, c) \<and>
           js_plus_key w cn k1 = Inr ek1 \<and> js_plus_key w cn k2 = Inr ek2 \<and>
           elements w2 ek1 = Some e1 \<and> elements w2 ek2 = Some e2 \<and>
           e_state e1 = c_state c \<and> e_state e2 = c_state c \<and>
           (\<forall>t. getThisParameter w2 cn k1 = Inr t \<or> getThisParameter w2 cn k2 = Inr t
                \<longrightarrow> ctx_state t = c_state c) \<and>
           (\<forall>a props p. c_state c = JObj a \<longrightarrow>
              resolve_in_entry (w2\<lparr>heap := (heap w2)(a \<mapsto> props)\<rparr>) ek1 [''state'', p]
                = own_or_undefined props p \<and>
              resolve_in_entry (w2\<lparr>heap := (heap w2)(a \<mapsto> props)\<rparr>) ek2 [''state'', p]
                = own_or_undefined props p))"
proof -
  from mounted_by_registers [OF assms(1) assms(2) assms(3) assms(5)]
  obtain n c sk ek1 where
    c0: "component_of w cn = Inr (n, c)" and
    k1: "js_plus_key w cn k1 = Inr ek1" and
    p1: "ek1 \<notin> set object_prototype_names" and
    e1: "elements w1 = (elements w)(ek1 \<mapsto> \<lparr>e_state = c_state c, e_dom = r1\<rparr>)" and
    c1: "components w1 = (components w)(n \<mapsto> c\<lparr>c_skeleton := sk\<rparr>)"
    by blast
  from mounted_by_registers [OF assms(1) assms(2) assms(4) assms(6)]
  obtain n' c' sk' ek2 where
    c0': "component_of w1 cn = Inr (n', c')" and
    k2': "js_plus_key w1 cn k2 = Inr ek2" and
    p2: "ek2 \<notin> set object_prototype_names" and
    e2: "elements w2 = (elements w1)(ek2 \<mapsto> \<lparr>e_state = c_state c', e_dom = r2\<rparr>)"
    by blast
  from k2' js_plus_key_primitive [OF assms(2) assms(4), of w1 w]
  have k2: "js_plus_key w cn k2 = Inr ek2" by simp
  with k1 assms(7) have ne: "ek1 \<noteq> ek2" by auto
  from c0 have tn: "to_string w cn = Inr n" and gc: "get_component w n = Inr c"
    by (auto simp: component_of_def split: sum.splits)
  from gc have np: "n \<notin> set object_prototype_names"
    by (auto simp: get_component_def split: if_splits)
  from tn to_string_primitive [OF assms(2), of w1 w] have "to_string w1 cn = Inr n" by simp
  with c0' c1 np have "c' = c\<lparr>c_skeleton := sk\<rparr>"
    by (simp add: component_of_def get_component_def)
  then have s': "c_state c' = c_state c" by simp
  let ?e1 = "\<lparr>e_state = c_state c, e_dom = r1\<rparr>"
  let ?e2 = "\<lparr>e_state = c_state c, e_dom = r2\<rparr>"
  from e1 e2 ne s' have g1: "elements w2 ek1 = Some ?e1" and g2: "elements w2 ek2 = Some ?e2"
    by simp_all
  have ctx: "ctx_state t = c_state c"
    if "getThisParameter w2 cn k1 = Inr t \<or> getThisParameter w2 cn k2 = Inr t" for t
  proof -
    from k1 js_plus_key_primitive [OF assms(2) assms(3), of w2 w]
    have j1: "js_plus_key w2 cn k1 = Inr ek1" by simp
    from k2 js_plus_key_primitive [OF assms(2) assms(4), of w2 w]
    have j2: "js_plus_key w2 cn k2 = Inr ek2" by simp
    from that j1 j2 g1 g2 p1 p2 show ?thesis
      by (auto simp: getThisParameter_def get_entry_def split: sum.splits)
  qed
  have mut: "resolve_in_entry (w2\<lparr>heap := (heap w2)(a \<mapsto> props)\<rparr>) ek1 [''state'', p]
                = own_or_undefined props p \<and>
             resolve_in_entry (w2\<lparr>heap := (heap w2)(a \<mapsto> props)\<rparr>) ek2 [''state'', p]
                = own_or_undefined props p"
    if "c_state c = JObj a" for a props p
    using that g1 g2 p1 p2
    by (simp add: resolve_state_field [where en = ?e1] resolve_state_field [where en = ?e2])
  have "c_state (createComponent name props) = p_state props"
    by (simp add: createComponent_def)
  moreover from c0 k1 k2 g1 g2 ctx mut have "\<exists>n c ek1 ek2 e1 e2.
           component_of w cn = Inr (n, c) \<and>
           js_plus_key w cn k1 = Inr ek1 \<and> js_plus_key w cn k2 = Inr ek2 \<and>
           elements w2 ek1 = Some e1 \<and> elements w2 ek2 = Some e2 \<and>
           e_state e1 = c_state c \<and> e_state e2 = c_state c \<and>
           (\<forall>t. getThisParameter w2 cn k1 = Inr t \<or> getThisParameter w2 cn k2 = Inr t
                \<longrightarrow> ctx_state t = c_state c) \<and>
           (\<forall>a props p. c_state c = JObj a \<longrightarrow>
              resolve_in_entry (w2\<lparr>heap := (heap w2)(a \<mapsto> props)\<rparr>) ek1 [''state'', p]
                = own_or_undefined props p \<and>
              resolve_in_entry (w2\<lparr>heap := (heap w2)(a \<mapsto> props)\<rparr>) ek2 [''state'', p]
                = own_or_undefined props p)"
    by (intro exI [of _ n] exI [of _ c] exI [of _ ek1] exI [of _ ek2] exI [of _ ?e1]
        exI [of _ ?e2]) simp
  ultimately show ?thesis ..
qed

theorem instances_share_the_state_object_witness:
  "hooks_keep_registries logging_hooks \<and>
   primitive (JStr ''counter'') \<and> primitive (JStr ''1'') \<and> primitive (JStr ''2'') \<and>
   js_plus_key (app ''{{state.count}}'') (JStr ''counter'') (JStr ''1'') \<noteq>
   js_plus_key (app ''{{state.count}}'') (JStr ''counter'') (JStr ''2'') \<and>
   (\<exists>w1 w2.
      mounted_by logging_hooks (JStr ''counter'') (JStr ''1'') (app ''{{state.count}}'') w1 1 \<and>
      mounted_by logging_hooks (JStr ''counter'') (JStr ''2'') w1 w2 0 \<and>
      map_option e_state (elements w2 ''counter1'') = Some (JObj 0) \<and>
      map_option e_state (elements w2 ''counter2'') = Some (JObj 0) \<and>
      resolve_in_entry (w2\<lparr>heap := (heap w2)(0 \<mapsto> [(''count'', JNum 7)])\<rparr>)
        ''counter1'' [''state'', ''count''] = Inr (JNum 7) \<and>
      resolve_in_entry (w2\<lparr>heap := (heap w2)(0 \<mapsto> [(''count'', JNum 7)])\<rparr>)
        ''counter2'' [''state'', ''count''] = Inr (JNum 7))"
proof -
  let ?w = "app ''{{state.count}}''"
  have "returned
     (bind (renderComponent logging_hooks 0 (JStr ''counter'') (JStr ''1'') ?w)
        (mount_placeholder logging_hooks 0 (JStr ''counter'') (JStr ''2'')))"
    by code_simp
  then obtain w1 w2 where
    m1: "renderComponent logging_hooks 0 (JStr ''counter'') (JStr ''1'') ?w = returns w1" and
    m2: "mount_placeholder logging_hooks 0 (JStr ''counter'') (JStr ''2'') w1 = returns w2"
    by (auto simp: returned_iff bind_eq_returns)
  have n: "next_node ?w = 1" by (simp add: app_def)
  from m1 n have b1: "mounted_by logging_hooks (JStr ''counter'') (JStr ''1'') ?w w1 1"
    by (auto simp: mounted_by_def)
  from m2 have b2: "mounted_by logging_hooks (JStr ''counter'') (JStr ''2'') w1 w2 0"
    by (simp add: mounted_by_def)
  have p: "primitive (JStr ''counter'')" "primitive (JStr ''1'')" "primitive (JStr ''2'')"
    by simp_all
  have k1: "js_plus_key ?w (JStr ''counter'') (JStr ''1'') = Inr ''counter1''"
    by (simp add: js_plus_key_def)
  have k2: "js_plus_key ?w (JStr ''counter'') (JStr ''2'') = Inr ''counter2''"
    by (simp add: js_plus_key_def)
  from k1 k2 have ne: "js_plus_key ?w (JStr ''counter'') (JStr ''1'') \<noteq>
      js_plus_key ?w (JStr ''counter'') (JStr ''2'')"
    by simp
  have c: "component_of ?w (JStr ''counter'') = Inr (''counter'', counter ''{{state.count}}'')"
    by (simp add: component_of_def get_component_def app_def object_prototype_names_def)
  have s: "c_state (counter ''{{state.count}}'') = JObj 0"
    by (simp add: counter_def createComponent_def)
  from instances_share_the_state_object
    [OF logging_hooks_keep_registries p(1) p(2) p(3) b1 b2 ne, THEN conjunct2]
  obtain e1 e2 where
    g1: "elements w2 ''counter1'' = Some e1" and g2: "elements w2 ''counter2'' = Some e2" and
    s1: "e_state e1 = JObj 0" and s2: "e_state e2 = JObj 0" and
    mut: "\<forall>a props p. JObj 0 = JObj a \<longrightarrow>
              resolve_in_entry (w2\<lparr>heap := (heap w2)(a \<mapsto> props)\<rparr>) ''counter1'' [''state'', p]
                = own_or_undefined props p \<and>
              resolve_in_entry (w2\<lparr>heap := (heap w2)(a \<mapsto> props)\<rparr>) ''counter2'' [''state'', p]
                = own_or_undefined props p"
    using c s k1 k2 by auto
  from mut have
    "resolve_in_entry (w2\<lparr>heap := (heap w2)(0 \<mapsto> [(''count'', JNum 7)])\<rparr>)
        ''counter1'' [''state'', ''count''] = own_or_undefined [(''count'', JNum 7)] ''count'' \<and>
     resolve_in_entry (w2\<lparr>heap := (heap w2)(0 \<mapsto> [(''count'', JNum 7)])\<rparr>)
        ''counter2'' [''state'', ''count''] = own_or_undefined [(''count'', JNum 7)] ''count''"
    by blast
  then have r:
    "resolve_in_entry (w2\<lparr>heap := (heap w2)(0 \<mapsto> [(''count'', JNum 7)])\<rparr>)
        ''counter1'' [''state'', ''count''] = Inr (JNum 7) \<and>
     resolve_in_entry (w2\<lparr>heap := (heap w2)(0 \<mapsto> [(''count'', JNum 7)])\<rparr>)
        ''counter2'' [''state'', ''count''] = Inr (JNum 7)"
    by (simp add: own_or_undefined_def)
  from g1 g2 s1 s2 have
    "map_option e_state (elements w2 ''counter1'') = Some (JObj 0) \<and>
     map_option e_state (elements w2 ''counter2'') = Some (JObj 0)"
    by simp
  with r b1 b2 logging_hooks_keep_registries p ne show ?thesis by blast
qed

subsection \<open>What a mount does to the host's nodes\<close>

lemma fresh_above_less: "fresh_above w \<Longrightarrow> nodes w d = Some n \<Longrightarrow> d < next_node w"
  by (rule ccontr) (simp add: fresh_above_def)

lemma appended_node:
  assumes "appended w w' d new" and "nodes w d = Some (Element t as cs p ls)"
  shows "nodes w' d = Some (Element t as (cs @ new) p ls)"
  using assms by (auto simp: appended_def split: option.splits hnode.splits)

lemma appended_other:
  "appended w w' d new \<Longrightarrow> i < next_node w \<Longrightarrow> i \<noteq> d \<Longrightarrow> nodes w' i = nodes w i"
  by (simp add: appended_def)

lemma appended_fresh: "appended w w' d new \<Longrightarrow> fresh_above w'"
  by (simp add: appended_def)

lemma appended_next: "appended w w' d new \<Longrightarrow> next_node w \<le> next_node w'"
  by (simp add: appended_def)

lemma appended_range:
  "appended w w' d new \<Longrightarrow> c \<in> set new \<Longrightarrow> next_node w \<le> c \<and> c < next_node w'"
  by (simp add: appended_def)

lemma appended_refl:
  "fresh_above w \<Longrightarrow> nodes w d = Some (Element t as cs p ls) \<Longrightarrow> appended w w d []"
  by (simp add: appended_def)

lemma appended_trans:
  assumes a: "appended w w1 d new1" and b: "appended w1 w' d new2"
  shows "appended w w' d (new1 @ new2)"
proof -
  from a obtain t as cs p ls where n: "nodes w d = Some (Element t as cs p ls)"
    by (auto simp: appended_def split: option.splits hnode.splits)
  from a have fw: "fresh_above w" by (simp add: appended_def)
  from fresh_above_less [OF fw n] have dl: "d < next_node w" .
  note n1 = appended_node [OF a n]
  note n' = appended_node [OF b n1]
  have "\<forall>i. i < next_node w \<longrightarrow> i \<noteq> d \<longrightarrow> nodes w' i = nodes w i"
  proof (intro allI impI)
    fix i assume i: "i < next_node w" "i \<noteq> d"
    with appended_next [OF a] have "i < next_node w1" by simp
    from appended_other [OF b this i(2)] appended_other [OF a i]
    show "nodes w' i = nodes w i" by simp
  qed
  moreover have "\<forall>c \<in> set (new1 @ new2). next_node w \<le> c \<and> c < next_node w'"
    using appended_range [OF a] appended_range [OF b] appended_next [OF a] appended_next [OF b]
    by fastforce
  ultimately show ?thesis
    using fw appended_fresh [OF b] appended_next [OF a] appended_next [OF b] n n'
    by (simp add: appended_def)
qed

lemma appended_cong:
  assumes "appended v v' d new"
    and "nodes w = nodes v" "next_node w = next_node v"
    and "nodes w' = nodes v'" "next_node w' = next_node v'"
  shows "appended w w' d new"
  using assms by (simp add: appended_def fresh_above_def)

lemma appendChild_fresh:
  assumes "appendChild d c w = Inr w'"
    and "nodes w d = Some (Element t as cs p ls)"
    and "nodes w c = Some n" and "parentNode n = None" and "c \<noteq> d"
  shows "nodes w' = (nodes w)(d \<mapsto> Element t as (cs @ [c]) p ls, c \<mapsto> set_parent (Some d) n)"
    and "next_node w' = next_node w"
  using assms
  by (auto simp: appendChild_def detach_def set_children_def Let_def)

text \<open>A node made by this call, filled in, and then appended to \<open>d\<close>.\<close>

lemma append_new_node:
  assumes fw: "fresh_above w" and d: "nodes w d = Some (Element t as cs p ls)"
    and f3: "fresh_above w3" and lt: "next_node w < next_node w3"
    and same: "\<And>i. i < next_node w \<Longrightarrow> nodes w3 i = nodes w i"
    and n: "nodes w3 (next_node w) = Some n" and pn: "parentNode n = None"
    and a: "appendChild d (next_node w) w3 = Inr w'"
  shows "appended w w' d [next_node w]"
    and "nodes w' (next_node w) = Some (set_parent (Some d) n)"
    and "\<And>i. i \<noteq> d \<Longrightarrow> i \<noteq> next_node w \<Longrightarrow> nodes w' i = nodes w3 i"
    and "next_node w' = next_node w3"
proof -
  from fresh_above_less [OF fw d] have dl: "d < next_node w" .
  then have ne: "next_node w \<noteq> d" by simp
  from same [OF dl] d have d3: "nodes w3 d = Some (Element t as cs p ls)" by simp
  note r = appendChild_fresh [OF a d3 n pn ne]
  from r(1) ne show "nodes w' (next_node w) = Some (set_parent (Some d) n)" by simp
  from r(1) show "\<And>i. i \<noteq> d \<Longrightarrow> i \<noteq> next_node w \<Longrightarrow> nodes w' i = nodes w3 i" by simp
  from r(2) show "next_node w' = next_node w3" .
  have "fresh_above w'"
    using f3 r dl lt by (auto simp: fresh_above_def)
  moreover have "\<forall>i. i < next_node w \<longrightarrow> i \<noteq> d \<longrightarrow> nodes w' i = nodes w i"
    using r(1) same by auto
  moreover have "nodes w' d = Some (Element t as (cs @ [next_node w]) p ls)"
    using r(1) ne by simp
  ultimately show "appended w w' d [next_node w]"
    using fw d lt r(2) by (simp add: appended_def)
qed

lemma connect_attrs_effect:
  assumes "connect_attrs elem attrs n k w = returns w'"
    and "nodes w elem = Some (Element t as cs p ls)"
  shows "\<exists>as' ls'. nodes w' = (nodes w)(elem \<mapsto> Element t as' cs p ls') \<and>
           next_node w' = next_node w"
  using assms
proof (induction elem attrs n k w arbitrary: as ls rule: connect_attrs.induct)
  case (1 elem n k w)
  from 1(1) have eq: "w' = w" by simp
  from 1(2) have "nodes w = (nodes w)(elem \<mapsto> Element t as cs p ls)"
    by (simp add: fun_upd_idem)
  then show ?case unfolding eq by blast
next
  case (2 elem key v rest n k w)
  show ?case
  proof (cases "startsWith key ''on''")
    case True
    with 2(3) obtain w1 where
      a: "addEventListener elem (drop 2 key) \<lparr>l_handler = v, l_name = n, l_key = k\<rparr> w = Inr w1"
      and r: "connect_attrs elem rest n k w1 = returns w'"
      by (auto split: sum.splits)
    from a 2(4) have n1: "nodes w1 = (nodes w)(elem \<mapsto> Element t as cs p
        (ls @ [(drop 2 key, \<lparr>l_handler = v, l_name = n, l_key = k\<rparr>)]))"
      and x1: "next_node w1 = next_node w"
      by (auto simp: addEventListener_def)
    from n1 have "nodes w1 elem = Some (Element t as cs p
        (ls @ [(drop 2 key, \<lparr>l_handler = v, l_name = n, l_key = k\<rparr>)]))"
      by simp
    from 2(1) [OF True a r this] obtain as' ls' where
      n': "nodes w' = (nodes w1)(elem \<mapsto> Element t as' cs p ls')" and
      x': "next_node w' = next_node w1"
      by blast
    from n' have "nodes w' = (nodes w)(elem \<mapsto> Element t as' cs p ls')"
      unfolding n1 by simp
    moreover from x' x1 have "next_node w' = next_node w" by simp
    ultimately show ?thesis by blast
  next
    case False
    with 2(3) obtain result r w1 where
      c: "convertTextVariables w v n k = returns result" and
      ts: "to_string w result = Inr r" and
      s: "setAttribute (Some elem) key r w = Inr w1" and
      u: "connect_attrs elem rest n k w1 = returns w'"
      by (auto split: option.splits sum.splits)
    from s 2(4) have n1: "nodes w1 = (nodes w)(elem \<mapsto> Element t (put as key r) cs p ls)"
      and x1: "next_node w1 = next_node w"
      by (auto simp: setAttribute_def)
    from n1 have "nodes w1 elem = Some (Element t (put as key r) cs p ls)" by simp
    from 2(2) [OF False c refl ts s u this] obtain as' ls' where
      n': "nodes w' = (nodes w1)(elem \<mapsto> Element t as' cs p ls')" and
      x': "next_node w' = next_node w1"
      by blast
    from n' have "nodes w' = (nodes w)(elem \<mapsto> Element t as' cs p ls')"
      unfolding n1 by simp
    moreover from x' x1 have "next_node w' = next_node w" by simp
    ultimately show ?thesis by blast
  qed
qed

lemma connect_effect:
  "connectComponent d sk n k w = returns w' \<Longrightarrow> fresh_above w \<Longrightarrow>
     nodes w d = Some (Element t as cs p ls) \<Longrightarrow>
     appended w w' d [next_node w] \<and> mounts sk d (nodes w' (next_node w))"
  "connect_children d sks n k w = returns w' \<Longrightarrow> fresh_above w \<Longrightarrow>
     nodes w d = Some (Element t as cs p ls) \<Longrightarrow>
     \<exists>new. appended w w' d new \<and> list_all2 (\<lambda>c sk. mounts sk d (nodes w' c)) new sks"
proof (induction d sk n k w and d sks n k w arbitrary: w' t as cs p ls and w' t as cs p ls
    rule: connectComponent_connect_children.induct)
  case (1 d s n k w)
  from 1(1) obtain tx where
    a: "appendChild d (next_node w) (snd (createTextNode tx w)) = Inr w'"
    by (auto simp: createTextNode_def split: option.splits sum.splits)
  let ?w1 = "snd (createTextNode tx w)"
  have f1: "fresh_above ?w1"
    using 1(2) by (simp add: fresh_above_def createTextNode_def)
  have lt: "next_node w < next_node ?w1"
    by (simp add: createTextNode_def)
  have same: "\<And>i. i < next_node w \<Longrightarrow> nodes ?w1 i = nodes w i"
    by (simp add: createTextNode_def)
  have n: "nodes ?w1 (next_node w) = Some (Text tx None)"
    by (simp add: createTextNode_def)
  from append_new_node(1,2) [OF 1(2) 1(3) f1 lt same n _ a]
  show ?case by (simp add: set_parent_def)
next
  case (2 d t0 attrs children n k w)
  let ?e = "next_node w"
  let ?w1 = "snd (createElement t0 w)"
  have e: "(?e, ?w1) = createElement t0 w"
    by (simp add: createElement_def)
  from 2(2) obtain w2 w3 where
    a: "connect_attrs ?e (for_in attrs) n k ?w1 = returns w2" and
    c: "connect_children ?e children n k w2 = returns w3" and
    ap: "appendChild d ?e w3 = Inr w'"
    by (auto simp: createElement_def split: option.splits sum.splits)
  have n1: "nodes ?w1 ?e = Some (Element t0 [] [] None [])"
    by (simp add: createElement_def)
  from connect_attrs_effect [OF a n1] obtain as' ls' where
    n2: "nodes w2 = (nodes ?w1)(?e \<mapsto> Element t0 as' [] None ls')" and
    x2: "next_node w2 = next_node ?w1"
    by blast
  have x1: "next_node ?w1 = Suc ?e"
    by (simp add: createElement_def)
  have f2: "fresh_above w2"
    using 2(3) n2 x2 by (simp add: fresh_above_def createElement_def)
  from n2 have e2: "nodes w2 ?e = Some (Element t0 as' [] None ls')" by simp
  from 2(1) [OF e refl a refl c f2 e2] obtain new where
    g: "appended w2 w3 ?e new" and
    l: "list_all2 (\<lambda>c sk. mounts sk ?e (nodes w3 c)) new children"
    by blast
  from appended_node [OF g e2] have e3: "nodes w3 ?e = Some (Element t0 as' new None ls')"
    by simp
  have lt: "next_node w < next_node w3"
    using appended_next [OF g] x2 x1 by simp
  have same: "nodes w3 i = nodes w i" if "i < next_node w" for i
  proof -
    from that x2 x1 have "i < next_node w2" "i \<noteq> ?e" by simp_all
    from appended_other [OF g this] n2 that show ?thesis
      by (simp add: createElement_def)
  qed
  from append_new_node(1,2) [OF 2(3) 2(4) appended_fresh [OF g] lt same e3 _ ap]
    list_all2_lengthD [OF l]
  show ?case by (simp add: set_parent_def)
next
  case (3 elem n k w)
  then have "w' = w" by simp
  with appended_refl [OF 3(2) 3(3)] show ?case by auto
next
  case (4 elem c cs0 n k w)
  from 4(3) obtain w1 where
    a: "connectComponent elem c n k w = returns w1" and
    r: "connect_children elem cs0 n k w1 = returns w'"
    by (auto split: option.splits sum.splits)
  from 4(1) [OF a 4(4) 4(5)] have
    g1: "appended w w1 elem [next_node w]" and m1: "mounts c elem (nodes w1 (next_node w))"
    by simp_all
  note e1 = appended_node [OF g1 4(5)]
  from 4(2) [OF a refl r appended_fresh [OF g1] e1] obtain new where
    g2: "appended w1 w' elem new" and
    l: "list_all2 (\<lambda>c sk. mounts sk elem (nodes w' c)) new cs0"
    by blast
  from appended_range [OF g1, of "next_node w"] have "next_node w < next_node w1" by simp
  moreover from fresh_above_less [OF 4(4) 4(5)] have "next_node w \<noteq> elem" by simp
  ultimately have "nodes w' (next_node w) = nodes w1 (next_node w)"
    by (rule appended_other [OF g2])
  with m1 l have "list_all2 (\<lambda>c sk. mounts sk elem (nodes w' c)) (next_node w # new) (c # cs0)"
    by simp
  with appended_trans [OF g1 g2] show ?case
    by (intro exI [of _ "next_node w # new"]) simp
qed

lemma call_hook_nodes:
  assumes "call_hook H h n k w = returns w'"
    and "\<And>m hs. H m = Some hs \<Longrightarrow> keeps_nodes (h hs)"
  shows "nodes w' = nodes w \<and> next_node w' = next_node w"
proof (cases "component_of w n")
  case (Inl e)
  with assms(1) show ?thesis by (simp add: call_hook_def)
next
  case (Inr nc)
  obtain m c where nc: "nc = (m, c)" by (cases nc)
  show ?thesis
  proof (cases "H m")
    case None
    with assms(1) Inr nc show ?thesis by (simp add: call_hook_def)
  next
    case (Some hs)
    show ?thesis
    proof (cases "h hs")
      case None
      with assms(1) Inr nc Some show ?thesis by (simp add: call_hook_def)
    next
      case f: (Some f)
      with assms(1) Inr nc Some obtain this where "f this w = returns w'"
        by (auto simp: call_hook_def split: sum.splits)
      with assms(2) [OF Some] f show ?thesis
        unfolding keeps_nodes_def by blast
    qed
  qed
qed

lemma init_skeleton_built:
  assumes "init_skeleton cn w = returns w1"
  shows "\<exists>n c s1. component_of w cn = Inr (n, c) \<and>
           components w1 = (components w)(n \<mapsto> c\<lparr>c_skeleton := s1\<rparr>) \<and>
           elements w1 = elements w \<and> heap w1 = heap w \<and> nodes w1 = nodes w \<and>
           next_node w1 = next_node w \<and>
           (s1 = c_skeleton c \<or>
            c_skeleton c = None \<and>
            (\<exists>child. find is_element (c_render c) = Some child \<and>
                     createSkeleton w child cn = returns s1))"
proof (cases "component_of w cn")
  case (Inl e)
  with assms show ?thesis by (simp add: init_skeleton_def)
next
  case (Inr nc)
  obtain n c where nc: "nc = (n, c)" by (cases nc)
  from Inr nc have cw: "components w n = Some c"
    by (auto simp: component_of_def get_component_def split: sum.splits if_splits option.splits)
  then have same: "components w = (components w)(n \<mapsto> c\<lparr>c_skeleton := c_skeleton c\<rparr>)"
    by (auto simp: fun_eq_iff)
  show ?thesis
  proof (cases "c_skeleton c = None")
    case False
    with assms Inr nc have "w1 = w" by (simp add: init_skeleton_def)
    with Inr nc same show ?thesis by blast
  next
    case True
    show ?thesis
    proof (cases "find is_element (c_render c)")
      case None
      with assms Inr nc True have "w1 = w" by (simp add: init_skeleton_def)
      with Inr nc same show ?thesis by blast
    next
      case (Some child)
      with assms Inr nc True obtain sk where
        b: "createSkeleton w child cn = returns sk" and
        w1: "w1 = w\<lparr>components := (components w)(n \<mapsto> c\<lparr>c_skeleton := sk\<rparr>)\<rparr>"
        by (auto simp: init_skeleton_def split: option.splits sum.splits)
      from w1 have "components w1 = (components w)(n \<mapsto> c\<lparr>c_skeleton := sk\<rparr>)"
        "elements w1 = elements w" "heap w1 = heap w" "nodes w1 = nodes w"
        "next_node w1 = next_node w"
        by simp_all
      with Inr nc True Some b show ?thesis by blast
    qed
  qed
qed

lemma page_attrs_frame:
  "page_attrs elem attrs w = Inr w' \<Longrightarrow>
     next_node w' = next_node w \<and> (\<forall>i. i \<noteq> elem \<longrightarrow> nodes w' i = nodes w i)"
proof (induction attrs arbitrary: w)
  case Nil
  then show ?case by simp
next
  case (Cons a rest)
  obtain k0 v0 where a: "a = (k0, v0)" by (cases a)
  from Cons.prems a obtain r w1 where
    s: "setAttribute (Some elem) k0 r w = Inr w1" and
    rest: "page_attrs elem rest w1 = Inr w'"
    by (auto split: sum.splits)
  from s have "next_node w1 = next_node w \<and> (\<forall>i. i \<noteq> elem \<longrightarrow> nodes w1 i = nodes w i)"
    by (auto simp: setAttribute_def split: option.splits hnode.splits)
  with Cons.IH [OF rest] show ?case by simp
qed

lemma mount_placeholder_effect:
  assumes H: "hooks_keep_registries H" and N: "hooks_keep_nodes H"
    and pn: "primitive cn" and pk: "primitive ck"
    and fw: "fresh_above w" and e: "nodes w elem = Some (Element t as cs p ls)"
    and r: "mount_placeholder H elem cn ck w = returns w'"
  shows "\<exists>n c sk ek. component_of w cn = Inr (n, c) \<and> js_plus_key w cn ck = Inr ek \<and>
           ek \<notin> set object_prototype_names \<and>
           (c_skeleton c = Some sk \<or>
            c_skeleton c = None \<and>
            (\<exists>child. find is_element (c_render c) = Some child \<and>
                     createSkeleton w child cn = returns (Some sk))) \<and>
           elements w' = (elements w)(ek \<mapsto> \<lparr>e_state = c_state c, e_dom = elem\<rparr>) \<and>
           components w' = (components w)(n \<mapsto> c\<lparr>c_skeleton := Some sk\<rparr>) \<and>
           appended w w' elem [next_node w] \<and> mounts sk elem (nodes w' (next_node w))"
proof -
  from r have "\<exists>w1 ek' w2 w3 w4 (en :: entry) n' (c' :: component).
      init_skeleton cn w = returns w1 \<and>
      js_plus_key w1 cn ck = Inr ek' \<and>
      register_instance cn ck elem w1 = Inr w2 \<and>
      call_hook H created cn ck w2 = returns w3 \<and>
      get_entry w3 ek' = Inr en \<and>
      component_of w3 cn = Inr (n', c') \<and>
      connectComponent_opt (e_dom en) (c_skeleton c') cn ck w3 = returns w4 \<and>
      call_hook H connected cn ck w4 = returns w'"
    by (auto simp: mount_placeholder_def bind_eq_returns)
  then obtain w1 ek' w2 w3 w4 and en :: entry and n' and c' :: component where
    i: "init_skeleton cn w = returns w1" and
    k': "js_plus_key w1 cn ck = Inr ek'" and
    rg: "register_instance cn ck elem w1 = Inr w2" and
    h1: "call_hook H created cn ck w2 = returns w3" and
    ge: "get_entry w3 ek' = Inr en" and
    co: "component_of w3 cn = Inr (n', c')" and
    cc: "connectComponent_opt (e_dom en) (c_skeleton c') cn ck w3 = returns w4" and
    h2: "call_hook H connected cn ck w4 = returns w'"
    by blast
  from init_skeleton_built [OF i] obtain n0 c s1 where
    c0: "component_of w cn = Inr (n0, c)" and
    c1: "components w1 = (components w)(n0 \<mapsto> c\<lparr>c_skeleton := s1\<rparr>)" and
    e1: "elements w1 = elements w" and
    n1: "nodes w1 = nodes w" "next_node w1 = next_node w" and
    built: "s1 = c_skeleton c \<or>
            c_skeleton c = None \<and>
            (\<exists>child. find is_element (c_render c) = Some child \<and>
                     createSkeleton w child cn = returns s1)"
    by blast
  from register_instance_effect [OF rg] obtain ek n1' cmp where
    k1: "js_plus_key w1 cn ck = Inr ek" and
    co1: "component_of w1 cn = Inr (n1', cmp)" and
    np: "ek \<notin> set object_prototype_names" and
    w2: "w2 = w1\<lparr>elements := (elements w1)(ek \<mapsto> \<lparr>e_state = c_state cmp, e_dom = elem\<rparr>)\<rparr>"
    by blast
  from k1 k' have ek: "ek' = ek" by simp
  from k1 js_plus_key_primitive [OF pn pk, of w1 w] have k0: "js_plus_key w cn ck = Inr ek"
    by simp
  from c0 have tn: "to_string w cn = Inr n0" and cn0: "get_component w n0 = Inr c"
    by (auto simp: component_of_def split: sum.splits)
  from cn0 have n0p: "n0 \<notin> set object_prototype_names"
    by (auto simp: get_component_def split: if_splits)
  from tn to_string_primitive [OF pn, of w1 w] have "to_string w1 cn = Inr n0" by simp
  with co1 c1 n0p have cmp: "cmp = c\<lparr>c_skeleton := s1\<rparr>"
    by (simp add: component_of_def get_component_def)
  from H have kc: "\<And>m hs. H m = Some hs \<Longrightarrow> keeps_registries (created hs)"
    and kn: "\<And>m hs. H m = Some hs \<Longrightarrow> keeps_registries (connected hs)"
    by (auto simp: hooks_keep_registries_def)
  from N have nc: "\<And>m hs. H m = Some hs \<Longrightarrow> keeps_nodes (created hs)"
    and nn: "\<And>m hs. H m = Some hs \<Longrightarrow> keeps_nodes (connected hs)"
    by (auto simp: hooks_keep_nodes_def)
  from call_hook_keeps [OF h1 kc] have r3: "components w3 = components w2" "elements w3 = elements w2"
    by simp_all
  from call_hook_nodes [OF h1 nc] have m3: "nodes w3 = nodes w2" "next_node w3 = next_node w2"
    by simp_all
  from ge r3 w2 ek np have en: "en = \<lparr>e_state = c_state cmp, e_dom = elem\<rparr>"
    by (simp add: get_entry_def)
  from tn to_string_primitive [OF pn, of w3 w] have "to_string w3 cn = Inr n0" by simp
  with co r3 w2 c1 n0p have c': "c' = c\<lparr>c_skeleton := s1\<rparr>"
    by (simp add: component_of_def get_component_def)
  from cc en c' obtain sk where s1: "s1 = Some sk" and
    cn: "connectComponent elem sk cn ck w3 = returns w4"
    by (cases s1) (auto simp: connectComponent_opt_def)
  have f3: "fresh_above w3"
    using fw m3 w2 n1 by (simp add: fresh_above_def)
  have e3: "nodes w3 elem = Some (Element t as cs p ls)"
    using e m3 w2 n1 by simp
  from connect_effect(1) [OF cn f3 e3] have
    g: "appended w3 w4 elem [next_node w3]" and m: "mounts sk elem (nodes w4 (next_node w3))"
    by simp_all
  from connect_nodes_only(1) [OF cn]
  have r4: "components w4 = components w3" "elements w4 = elements w3"
    by (simp_all add: nodes_only_def)
  from call_hook_keeps [OF h2 kn] have r5: "components w' = components w4" "elements w' = elements w4"
    by simp_all
  from call_hook_nodes [OF h2 nn] have m5: "nodes w' = nodes w4" "next_node w' = next_node w4"
    by simp_all
  have x3: "nodes w = nodes w3" "next_node w = next_node w3"
    using m3 w2 n1 by simp_all
  from appended_cong [OF g x3 m5] have "appended w w' elem [next_node w3]" .
  then have ga: "appended w w' elem [next_node w]" using x3 by simp
  from m m5 x3 have ma: "mounts sk elem (nodes w' (next_node w))" by simp
  have "elements w' = (elements w)(ek \<mapsto> \<lparr>e_state = c_state c, e_dom = elem\<rparr>)"
    using r5 r4 r3 w2 e1 cmp by simp
  moreover have "components w' = (components w)(n0 \<mapsto> c\<lparr>c_skeleton := Some sk\<rparr>)"
    using r5 r4 r3 w2 c1 s1 by simp
  moreover from built s1 have "c_skeleton c = Some sk \<or>
            c_skeleton c = None \<and>
            (\<exists>child. find is_element (c_render c) = Some child \<and>
                     createSkeleton w child cn = returns (Some sk))"
    by auto
  ultimately show ?thesis using c0 k0 np ga ma by blast
qed

lemma logging_hooks_keep_nodes: "hooks_keep_nodes logging_hooks"
  by (auto simp: hooks_keep_nodes_def keeps_nodes_def logging_hooks_def log_hook_def
      split: if_splits)

subsection \<open>Placeholders of the page skeleton\<close>

lemma attr_value_primitive: "primitive (attr_value a)"
  by (cases a) (simp_all add: attr_value_def)

lemma page_element:
  assumes fw: "fresh_above w"
    and p: "page_attrs (next_node w) (for_in attrs) (snd (createElement t w)) = Inr w2"
  shows "\<exists>as'. nodes w2 (next_node w) = Some (Element t as' [] None []) \<and>
           (\<forall>k v. distinct (map fst attrs) \<longrightarrow> map_of attrs k = Some (JStr v)
               \<longrightarrow> map_of as' k = Some v)"
    and "fresh_above w2" and "next_node w2 = Suc (next_node w)"
    and "\<And>i. i < next_node w \<Longrightarrow> nodes w2 i = nodes w i"
proof -
  let ?w1 = "snd (createElement t w)"
  have n1: "nodes ?w1 (next_node w) = Some (Element t [] [] None [])"
    by (simp add: createElement_def)
  from page_attrs_node [OF p n1] obtain as' where
    a: "nodes w2 (next_node w) = Some (Element t as' [] None [])" and
    b: "\<forall>k v. distinct (map fst (for_in attrs)) \<longrightarrow> map_of (for_in attrs) k = Some (JStr v)
               \<longrightarrow> map_of as' k = Some v"
    by blast
  from b have "\<forall>k v. distinct (map fst attrs) \<longrightarrow> map_of attrs k = Some (JStr v)
               \<longrightarrow> map_of as' k = Some v"
    by (auto simp: distinct_for_in map_of_for_in)
  with a show "\<exists>as'. nodes w2 (next_node w) = Some (Element t as' [] None []) \<and>
           (\<forall>k v. distinct (map fst attrs) \<longrightarrow> map_of attrs k = Some (JStr v)
               \<longrightarrow> map_of as' k = Some v)"
    by blast
  note f = page_attrs_frame [OF p]
  from f show x: "next_node w2 = Suc (next_node w)"
    by (simp add: createElement_def)
  from f show s: "\<And>i. i < next_node w \<Longrightarrow> nodes w2 i = nodes w i"
    by (simp add: createElement_def)
  show "fresh_above w2"
    using fw f by (simp add: fresh_above_def createElement_def)
qed

lemma connectPage_effect:
  "connectPage H d sk w = returns w' \<Longrightarrow> hooks_keep_registries H \<Longrightarrow> hooks_keep_nodes H \<Longrightarrow>
     fresh_above w \<Longrightarrow> nodes w d = Some (Element t as cs p ls) \<Longrightarrow>
     appended w w' d [next_node w] \<and> page_mounts sk d (nodes w' (next_node w))"
  "connectPage_children H d sks w = returns w' \<Longrightarrow> hooks_keep_registries H \<Longrightarrow>
     hooks_keep_nodes H \<Longrightarrow> fresh_above w \<Longrightarrow> nodes w d = Some (Element t as cs p ls) \<Longrightarrow>
     \<exists>new. appended w w' d new \<and> list_all2 (\<lambda>c sk. page_mounts sk d (nodes w' c)) new sks"
proof (induction H d sk w and H d sks w arbitrary: w' t as cs p ls and w' t as cs p ls
    rule: connectPage_connectPage_children.induct)
  case (1 H d s w)
  from 1(1) have
    a: "appendChild d (next_node w) (snd (createTextNode s w)) = Inr w'"
    by (auto simp: createTextNode_def)
  let ?w1 = "snd (createTextNode s w)"
  have f1: "fresh_above ?w1"
    using 1(4) by (simp add: fresh_above_def createTextNode_def)
  have lt: "next_node w < next_node ?w1"
    by (simp add: createTextNode_def)
  have same: "\<And>i. i < next_node w \<Longrightarrow> nodes ?w1 i = nodes w i"
    by (simp add: createTextNode_def)
  have n: "nodes ?w1 (next_node w) = Some (Text s None)"
    by (simp add: createTextNode_def)
  from append_new_node(1,2) [OF 1(4) 1(5) f1 lt same n _ a]
  show ?case by (simp add: set_parent_def)
next
  case (2 H d t0 attrs children w)
  let ?e = "next_node w"
  let ?w1 = "snd (createElement t0 w)"
  have e: "(?e, ?w1) = createElement t0 w"
    by (simp add: createElement_def)
  from 2(2) obtain w2 where pa: "page_attrs ?e (for_in attrs) ?w1 = Inr w2"
    by (auto simp: createElement_def split: sum.splits)
  let ?cn = "getAttribute ?e ''lucid-component'' w2"
  let ?ck = "getAttribute ?e ''lucid-key'' w2"
  let ?branch = "if truthy_attr ?cn \<or> truthy_attr ?ck
                 then mount_placeholder H ?e (attr_value ?cn) (attr_value ?ck) w2
                 else returns w2"
  from 2(2) pa obtain w3 w4 where
    br: "?branch = returns w3" and
    ch: "connectPage_children H ?e children w3 = returns w4" and
    ap: "appendChild d ?e w4 = Inr w'"
    by (auto simp: createElement_def Let_def split: option.splits sum.splits)
  from page_element [OF 2(5) pa] obtain as' where
    e2: "nodes w2 ?e = Some (Element t0 as' [] None [])" and
    f2: "fresh_above w2" and x2: "next_node w2 = Suc ?e" and
    s2: "\<And>i. i < next_node w \<Longrightarrow> nodes w2 i = nodes w i"
    by blast
  have "\<exists>pre. appended w2 w3 ?e pre"
  proof (cases "truthy_attr ?cn \<or> truthy_attr ?ck")
    case True
    with br have "mount_placeholder H ?e (attr_value ?cn) (attr_value ?ck) w2 = returns w3"
      by simp
    from mount_placeholder_effect [OF 2(3) 2(4) attr_value_primitive attr_value_primitive f2 e2 this]
    show ?thesis by blast
  next
    case False
    with br have "w3 = w2" by simp
    with appended_refl [OF f2 e2] show ?thesis by blast
  qed
  then obtain pre where g1: "appended w2 w3 ?e pre" ..
  note e3 = appended_node [OF g1 e2]
  from 2(1) [OF refl e pa refl refl br refl ch 2(3) 2(4) appended_fresh [OF g1] e3]
  obtain new where
    g2: "appended w3 w4 ?e new" and
    l: "list_all2 (\<lambda>c sk. page_mounts sk ?e (nodes w4 c)) new children"
    by blast
  note g = appended_trans [OF g1 g2]
  from appended_node [OF g e2] have e4: "nodes w4 ?e = Some (Element t0 as' (pre @ new) None [])"
    by simp
  have lt: "next_node w < next_node w4"
    using appended_next [OF g] x2 by simp
  have same: "nodes w4 i = nodes w i" if "i < next_node w" for i
  proof -
    from that x2 have "i < next_node w2" "i \<noteq> ?e" by simp_all
    from appended_other [OF g this] s2 [OF that] show ?thesis by simp
  qed
  from append_new_node(1,2) [OF 2(5) 2(6) appended_fresh [OF g] lt same e4 _ ap]
    list_all2_lengthD [OF l]
  show ?case by (simp add: set_parent_def)
next
  case (3 H elem w)
  then have "w' = w" by simp
  with appended_refl [OF 3(4) 3(5)] show ?case by auto
next
  case (4 H elem c cs0 w)
  from 4(3) obtain w1 where
    a: "connectPage H elem c w = returns w1" and
    r: "connectPage_children H elem cs0 w1 = returns w'"
    by (auto split: option.splits sum.splits)
  from 4(1) [OF a 4(4) 4(5) 4(6) 4(7)] have
    g1: "appended w w1 elem [next_node w]" and
    m1: "page_mounts c elem (nodes w1 (next_node w))"
    by simp_all
  note e1 = appended_node [OF g1 4(7)]
  from 4(2) [OF a refl r 4(4) 4(5) appended_fresh [OF g1] e1] obtain new where
    g2: "appended w1 w' elem new" and
    l: "list_all2 (\<lambda>c sk. page_mounts sk elem (nodes w' c)) new cs0"
    by blast
  from appended_range [OF g1, of "next_node w"] have "next_node w < next_node w1" by simp
  moreover from fresh_above_less [OF 4(6) 4(7)] have "next_node w \<noteq> elem" by simp
  ultimately have "nodes w' (next_node w) = nodes w1 (next_node w)"
    by (rule appended_other [OF g2])
  with m1 l have
    "list_all2 (\<lambda>c sk. page_mounts sk elem (nodes w' c)) (next_node w # new) (c # cs0)"
    by simp
  with appended_trans [OF g1 g2] show ?case
    by (intro exI [of _ "next_node w # new"]) simp
qed

text \<open>
  C4, as amended. Let an element of the page skeleton carry a \<^verbatim>\<open>lucid-component\<close>
  attribute \<open>cn\<close> and a \<^verbatim>\<open>lucid-key\<close> attribute \<open>ck\<close>, both non-empty strings, let
  the mount hooks leave registries and nodes alone, and let \<^verbatim>\<open>connectPage\<close> return on
  it. Then the element (node \<open>next_node w\<close>) was mounted as a placeholder: the definition
  \<open>cn\<close> has its skeleton \<open>sk\<close>, the cached one or else the one \<^verbatim>\<open>createSkeleton\<close> builds
  from the first element of its render output; the instance is registered under
  \<open>cn @ ck\<close> with the state of the definition and the element as its host root; and the
  root built from \<open>sk\<close> (node \<open>Suc (next_node w)\<close>) is the one child of the element at
  that moment. After that the page-level children of the placeholder are mounted into the
  same element: in the end the element has the root of the instance as its first child
  and, behind it, one node for each of its own page-level children, all of them made
  after the root of the instance; and the element is the last child of its container.
\<close>

theorem placeholder_mounts_instance_then_children:
  assumes "hooks_keep_registries H" and "hooks_keep_nodes H"
    and "fresh_above w" and "nodes w d = Some (Element td asd csd pd lsd)"
    and "distinct (map fst attrs)"
    and "map_of attrs ''lucid-component'' = Some (JStr cn)" and "cn \<noteq> []"
    and "map_of attrs ''lucid-key'' = Some (JStr ck)" and "ck \<noteq> []"
    and "connectPage H d (SNode t attrs children) w = returns w'"
  shows "\<exists>w2 w3 c sk as' new.
     page_attrs (next_node w) (for_in attrs) (snd (createElement t w)) = Inr w2 \<and>
     mount_placeholder H (next_node w) (JStr cn) (JStr ck) w2 = returns w3 \<and>
     component_of w (JStr cn) = Inr (cn, c) \<and>
     (c_skeleton c = Some sk \<or>
      c_skeleton c = None \<and>
      (\<exists>child. find is_element (c_render c) = Some child \<and>
               createSkeleton w2 child (JStr cn) = returns (Some sk))) \<and>
     components w3 = (components w)(cn \<mapsto> c\<lparr>c_skeleton := Some sk\<rparr>) \<and>
     elements w3 = (elements w)(cn @ ck \<mapsto> \<lparr>e_state = c_state c, e_dom = next_node w\<rparr>) \<and>
     nodes w3 (next_node w) = Some (Element t as' [Suc (next_node w)] None []) \<and>
     mounts sk (next_node w) (nodes w3 (Suc (next_node w))) \<and>
     nodes w' (next_node w) = Some (Element t as' (Suc (next_node w) # new) (Some d) []) \<and>
     map_of as' ''lucid-component'' = Some cn \<and> map_of as' ''lucid-key'' = Some ck \<and>
     nodes w' (Suc (next_node w)) = nodes w3 (Suc (next_node w)) \<and>
     list_all2 (\<lambda>c s. page_mounts s (next_node w) (nodes w' c)) new children \<and>
     list_all (\<lambda>c. Suc (next_node w) < c) new \<and>
     nodes w' d = Some (Element td asd (csd @ [next_node w]) pd lsd)"
proof -
  let ?e = "next_node w"
  let ?w1 = "snd (createElement t w)"
  from assms(10) obtain w2 where pa: "page_attrs ?e (for_in attrs) ?w1 = Inr w2"
    by (auto simp: createElement_def split: sum.splits)
  from page_element [OF assms(3) pa] assms(5,6,8) obtain as' where
    e2: "nodes w2 ?e = Some (Element t as' [] None [])" and
    a1: "map_of as' ''lucid-component'' = Some cn" and
    a2: "map_of as' ''lucid-key'' = Some ck" and
    f2: "fresh_above w2" and x2: "next_node w2 = Suc ?e" and
    s2: "\<And>i. i < next_node w \<Longrightarrow> nodes w2 i = nodes w i"
    by blast
  from e2 a1 a2 have ga: "getAttribute ?e ''lucid-component'' w2 = Some cn"
    "getAttribute ?e ''lucid-key'' w2 = Some ck"
    by (simp_all add: getAttribute_def)
  from assms(10) pa ga assms(7) obtain w3 w4 where
    mp: "mount_placeholder H ?e (JStr cn) (JStr ck) w2 = returns w3" and
    ch: "connectPage_children H ?e children w3 = returns w4" and
    ap: "appendChild d ?e w4 = Inr w'"
    by (auto simp: createElement_def truthy_attr_def attr_value_def
        split: option.splits sum.splits)
  from createElement_nodes_only [of w t] page_attrs_nodes_only [OF pa]
  have no: "nodes_only w w2" by (rule nodes_only_trans)
  from mount_placeholder_effect [OF assms(1) assms(2) _ _ f2 e2 mp]
  obtain n c sk ek where
    c2: "component_of w2 (JStr cn) = Inr (n, c)" and
    k2: "js_plus_key w2 (JStr cn) (JStr ck) = Inr ek" and
    built: "c_skeleton c = Some sk \<or>
            c_skeleton c = None \<and>
            (\<exists>child. find is_element (c_render c) = Some child \<and>
                     createSkeleton w2 child (JStr cn) = returns (Some sk))" and
    el: "elements w3 = (elements w2)(ek \<mapsto> \<lparr>e_state = c_state c, e_dom = ?e\<rparr>)" and
    co: "components w3 = (components w2)(n \<mapsto> c\<lparr>c_skeleton := Some sk\<rparr>)" and
    g1: "appended w2 w3 ?e [next_node w2]" and
    m: "mounts sk ?e (nodes w3 (next_node w2))"
    by auto
  from c2 have n: "n = cn"
    by (auto simp: component_of_def split: sum.splits)
  from k2 have ek: "ek = cn @ ck"
    by (simp add: js_plus_key_def)
  from c2 n component_of_nodes_only [OF no, of "JStr cn"]
  have c0: "component_of w (JStr cn) = Inr (cn, c)" by simp
  from no have r2: "components w2 = components w" "elements w2 = elements w"
    by (simp_all add: nodes_only_def)
  from appended_node [OF g1 e2] x2
  have e3: "nodes w3 ?e = Some (Element t as' [Suc ?e] None [])" by simp
  from connectPage_effect(2) [OF ch assms(1) assms(2) appended_fresh [OF g1] e3]
  obtain new where
    g2: "appended w3 w4 ?e new" and
    l: "list_all2 (\<lambda>c s. page_mounts s ?e (nodes w4 c)) new children"
    by blast
  note g = appended_trans [OF g1 g2]
  from appended_node [OF g e2] x2
  have e4: "nodes w4 ?e = Some (Element t as' (Suc ?e # new) None [])"
    by simp
  have lt: "next_node w < next_node w4"
    using appended_next [OF g] x2 by simp
  have same: "nodes w4 i = nodes w i" if "i < next_node w" for i
  proof -
    from that x2 have "i < next_node w2" "i \<noteq> ?e" by simp_all
    from appended_other [OF g this] s2 [OF that] show ?thesis by simp
  qed
  note an = append_new_node [OF assms(3) assms(4) appended_fresh [OF g] lt same e4 _ ap]
  from an(2) have e': "nodes w' ?e = Some (Element t as' (Suc ?e # new) (Some d) [])"
    by (simp add: set_parent_def)
  from fresh_above_less [OF assms(3) assms(4)] have dl: "d < ?e" .
  from appended_range [OF g1, of "next_node w2"] x2 have r3: "Suc ?e < next_node w3"
    by simp
  have root: "nodes w' (Suc ?e) = nodes w3 (Suc ?e)"
  proof -
    from dl have "nodes w' (Suc ?e) = nodes w4 (Suc ?e)"
      by (intro an(3)) simp_all
    also from r3 have "\<dots> = nodes w3 (Suc ?e)"
      by (intro appended_other [OF g2]) simp_all
    finally show ?thesis .
  qed
  have late: "Suc ?e < c \<and> nodes w' c = nodes w4 c" if "c \<in> set new" for c
  proof -
    from appended_range [OF g2 that] r3 have "Suc ?e < c" by simp
    moreover with dl have "nodes w' c = nodes w4 c"
      by (intro an(3)) simp_all
    ultimately show ?thesis ..
  qed
  from l have l': "list_all2 (\<lambda>c s. page_mounts s ?e (nodes w' c)) new children"
    by (rule list.rel_mono_strong) (simp add: late)
  have gt: "list_all (\<lambda>c. Suc ?e < c) new"
    by (simp add: list_all_iff late)
  note d' = appended_node [OF an(1) assms(4)]
  from m x2 have m': "mounts sk ?e (nodes w3 (Suc ?e))" by simp
  from co r2 n have co': "components w3 = (components w)(cn \<mapsto> c\<lparr>c_skeleton := Some sk\<rparr>)"
    by simp
  from el r2 ek have el': "elements w3 =
      (elements w)(cn @ ck \<mapsto> \<lparr>e_state = c_state c, e_dom = ?e\<rparr>)"
    by simp
  from pa mp c0 built co' el' e3 m' e' a1 a2 root l' gt d' show ?thesis
    by (intro exI [of _ w2] exI [of _ w3] exI [of _ c] exI [of _ sk] exI [of _ as']
        exI [of _ new]) simp
qed

theorem placeholder_mounts_instance_then_children_witness:
  "hooks_keep_registries logging_hooks \<and> hooks_keep_nodes logging_hooks \<and>
   fresh_above (app ''{{state.count}}'') \<and>
   nodes (app ''{{state.count}}'') 0 = Some (Element ''BODY'' [] [] None []) \<and>
   distinct (map fst [(''lucid-component'', JStr ''counter''), (''lucid-key'', JStr ''1'')]) \<and>
   map_of [(''lucid-component'', JStr ''counter''), (''lucid-key'', JStr ''1'')]
     ''lucid-component'' = Some (JStr ''counter'') \<and>
   map_of [(''lucid-component'', JStr ''counter''), (''lucid-key'', JStr ''1'')]
     ''lucid-key'' = Some (JStr ''1'') \<and>
   ''counter'' \<noteq> [] \<and> ''1'' \<noteq> [] \<and>
   (\<exists>(w3 :: world) w' as' c.
      connectPage logging_hooks 0 (placeholder [SText ''own child'']) (app ''{{state.count}}'') =
        returns w' \<and>
      elements w3 ''counter1'' = Some \<lparr>e_state = JObj 0, e_dom = 1\<rparr> \<and>
      map_option c_skeleton (components w3 ''counter'') =
        Some (Some (SNode ''SPAN'' [] [SText ''{{state.count}}''])) \<and>
      nodes w3 1 = Some (Element ''DIV'' as' [2] None []) \<and>
      mounts (SNode ''SPAN'' [] [SText ''{{state.count}}'']) 1 (nodes w' 2) \<and>
      nodes w' 1 = Some (Element ''DIV'' as' [2, c] (Some 0) []) \<and>
      2 < c \<and> nodes w' c = Some (Text ''own child'' (Some 1)) \<and>
      nodes w' 0 = Some (Element ''BODY'' [] [1] None []))"
proof -
  let ?t = "''{{state.count}}''"
  let ?w = "app ?t"
  let ?attrs = "[(''lucid-component'', JStr ''counter''), (''lucid-key'', JStr ''1'')]"
  let ?sk = "SNode ''SPAN'' [] [SText ?t]"
  have "returned (connectPage logging_hooks 0 (placeholder [SText ''own child'']) ?w)"
    by code_simp
  then obtain w' where
    r: "connectPage logging_hooks 0 (placeholder [SText ''own child'']) ?w = returns w'"
    by (auto simp: returned_iff)
  then have r': "connectPage logging_hooks 0 (SNode ''DIV'' ?attrs [SText ''own child'']) ?w =
      returns w'"
    by (simp only: placeholder_def)
  have fw: "fresh_above ?w"
    by (simp add: fresh_above_def app_def)
  have d: "nodes ?w 0 = Some (Element ''BODY'' [] [] None [])"
    by (simp add: app_def)
  have nn: "next_node ?w = 1"
    by (simp add: app_def)
  have a: "distinct (map fst ?attrs)"
    "map_of ?attrs ''lucid-component'' = Some (JStr ''counter'')"
    "map_of ?attrs ''lucid-key'' = Some (JStr ''1'')"
    by simp_all
  have ne: "''counter'' \<noteq> []" "''1'' \<noteq> []"
    by simp_all
  have co: "component_of ?w (JStr ''counter'') = Inr (''counter'', counter ?t)"
    by (simp add: component_of_def get_component_def app_def object_prototype_names_def)
  have cs: "c_skeleton (counter ?t) = None" "c_state (counter ?t) = JObj 0"
    "find is_element (c_render (counter ?t)) = Some (MElem ''SPAN'' [] [MText ?t])"
    by (simp_all add: counter_def createComponent_def)
  have sk: "createSkeleton v (MElem ''SPAN'' [] [MText ?t]) (JStr ''counter'') =
      returns (Some ?sk)" for v
    by (simp add: trim_def is_space_def)
  from placeholder_mounts_instance_then_children
    [OF logging_hooks_keep_registries logging_hooks_keep_nodes fw d a(1) a(2) ne(1) a(3) ne(2) r']
  obtain w2 w3 and c :: component and sk' as' new where big:
    "page_attrs (next_node ?w) (for_in ?attrs) (snd (createElement ''DIV'' ?w)) = Inr w2 \<and>
     mount_placeholder logging_hooks (next_node ?w) (JStr ''counter'') (JStr ''1'') w2 =
       returns w3 \<and>
     component_of ?w (JStr ''counter'') = Inr (''counter'', c) \<and>
     (c_skeleton c = Some sk' \<or>
      c_skeleton c = None \<and>
      (\<exists>child. find is_element (c_render c) = Some child \<and>
               createSkeleton w2 child (JStr ''counter'') = returns (Some sk'))) \<and>
     components w3 = (components ?w)(''counter'' \<mapsto> c\<lparr>c_skeleton := Some sk'\<rparr>) \<and>
     elements w3 =
       (elements ?w)(''counter'' @ ''1'' \<mapsto> \<lparr>e_state = c_state c, e_dom = next_node ?w\<rparr>) \<and>
     nodes w3 (next_node ?w) = Some (Element ''DIV'' as' [Suc (next_node ?w)] None []) \<and>
     mounts sk' (next_node ?w) (nodes w3 (Suc (next_node ?w))) \<and>
     nodes w' (next_node ?w) =
       Some (Element ''DIV'' as' (Suc (next_node ?w) # new) (Some 0) []) \<and>
     map_of as' ''lucid-component'' = Some ''counter'' \<and> map_of as' ''lucid-key'' = Some ''1'' \<and>
     nodes w' (Suc (next_node ?w)) = nodes w3 (Suc (next_node ?w)) \<and>
     list_all2 (\<lambda>c s. page_mounts s (next_node ?w) (nodes w' c)) new [SText ''own child''] \<and>
     list_all (\<lambda>c. Suc (next_node ?w) < c) new \<and>
     nodes w' 0 = Some (Element ''BODY'' [] ([] @ [next_node ?w]) None [])"
    by blast
  from big have
    c0: "component_of ?w (JStr ''counter'') = Inr (''counter'', c)" and
    built: "c_skeleton c = Some sk' \<or>
      c_skeleton c = None \<and>
      (\<exists>child. find is_element (c_render c) = Some child \<and>
               createSkeleton w2 child (JStr ''counter'') = returns (Some sk'))" and
    cm: "components w3 = (components ?w)(''counter'' \<mapsto> c\<lparr>c_skeleton := Some sk'\<rparr>)" and
    el: "elements w3 =
      (elements ?w)(''counter'' @ ''1'' \<mapsto> \<lparr>e_state = c_state c, e_dom = next_node ?w\<rparr>)" and
    e3: "nodes w3 (next_node ?w) = Some (Element ''DIV'' as' [Suc (next_node ?w)] None [])" and
    m: "mounts sk' (next_node ?w) (nodes w3 (Suc (next_node ?w)))" and
    e': "nodes w' (next_node ?w) =
      Some (Element ''DIV'' as' (Suc (next_node ?w) # new) (Some 0) [])" and
    root: "nodes w' (Suc (next_node ?w)) = nodes w3 (Suc (next_node ?w))" and
    l: "list_all2 (\<lambda>c s. page_mounts s (next_node ?w) (nodes w' c)) new [SText ''own child'']" and
    gt: "list_all (\<lambda>c. Suc (next_node ?w) < c) new" and
    d': "nodes w' 0 = Some (Element ''BODY'' [] ([] @ [next_node ?w]) None [])"
    by blast+
  from c0 co have c: "c = counter ?t" by simp
  from built c cs sk have sk': "sk' = ?sk" by auto
  from l obtain x where new: "new = [x]" and
    px: "page_mounts (SText ''own child'') (next_node ?w) (nodes w' x)"
    by (auto simp: list_all2_Cons2)
  have two: "Suc 1 = (2::nat)"
    by simp
  from el c cs nn have 1: "elements w3 ''counter1'' = Some \<lparr>e_state = JObj 0, e_dom = 1\<rparr>"
    by simp
  from cm sk' have 2: "map_option c_skeleton (components w3 ''counter'') = Some (Some ?sk)"
    by simp
  from e3 have 3: "nodes w3 1 = Some (Element ''DIV'' as' [2] None [])"
    unfolding nn two .
  from m root sk' have "mounts ?sk (next_node ?w) (nodes w' (Suc (next_node ?w)))"
    by simp
  then have 4: "mounts ?sk 1 (nodes w' 2)"
    unfolding nn two .
  from e' new have "nodes w' (next_node ?w) =
      Some (Element ''DIV'' as' [Suc (next_node ?w), x] (Some 0) [])"
    by simp
  then have 5: "nodes w' 1 = Some (Element ''DIV'' as' [2, x] (Some 0) [])"
    unfolding nn two .
  from gt new have "Suc (next_node ?w) < x"
    by simp
  then have 6: "2 < x"
    unfolding nn two .
  from px have "nodes w' x = Some (Text ''own child'' (Some (next_node ?w)))"
    by simp
  then have 7: "nodes w' x = Some (Text ''own child'' (Some 1))"
    unfolding nn .
  from d' have "nodes w' 0 = Some (Element ''BODY'' [] [next_node ?w] None [])"
    by simp
  then have 8: "nodes w' 0 = Some (Element ''BODY'' [] [1] None [])"
    unfolding nn .
  from r 1 2 3 4 5 6 7 8 have "\<exists>(w3 :: world) w' as' c.
      connectPage logging_hooks 0 (placeholder [SText ''own child'']) ?w = returns w' \<and>
      elements w3 ''counter1'' = Some \<lparr>e_state = JObj 0, e_dom = 1\<rparr> \<and>
      map_option c_skeleton (components w3 ''counter'') = Some (Some ?sk) \<and>
      nodes w3 1 = Some (Element ''DIV'' as' [2] None []) \<and>
      mounts ?sk 1 (nodes w' 2) \<and>
      nodes w' 1 = Some (Element ''DIV'' as' [2, c] (Some 0) []) \<and>
      2 < c \<and> nodes w' c = Some (Text ''own child'' (Some 1)) \<and>
      nodes w' 0 = Some (Element ''BODY'' [] [1] None [])"
    by blast
  with logging_hooks_keep_registries logging_hooks_keep_nodes fw d a ne show ?thesis
    by blast
qed

end
